(* ===== verification/Prelude.thy ===== *)
theory Prelude
  imports Main "HOL-Library.Word"
begin

text \<open>
  The prelude of the development: the exceptions the program raises, the state and
  exception monad in which the stateful code is written, the machine integers, and the
  lemma collections the component theories use.

  A C++ function that reads or changes state becomes a function from a state to an
  \<open>outcome\<close> and a new state. The state is kept when an exception is thrown, as C++ keeps
  the effects that happened before the throw. \<open>Hang\<close> is the outcome of a call that never
  returns (a thread that locks a non-recursive mutex it already holds).
\<close>

named_theorems prog_simps \<open>one-step rules of the monad\<close>
named_theorems path_simps \<open>rules for path strings\<close>

section \<open>Machine integers\<close>

type_synonym size_t = "64 word"
type_synonym int64 = "64 word"
type_synonym uint32 = "32 word"
type_synonym cint = "32 word"
type_synonym byte = "8 word"

text \<open>A C++ \<open>float\<close> is only moved around by this program, so it is its bit pattern.\<close>

type_synonym float32 = "32 word"

section \<open>Exceptions\<close>

text \<open>
  The three exception structs of the HTTP code form a chain: an \<open>HTTPException\<close> and an
  \<open>SSLCertificateException\<close> are \<open>NetworkException\<close>s, which are \<open>std::logic_error\<close>s.
\<close>

datatype net_exn =
    NetworkException string
  | HTTPException string
  | SSLCertificateException string

text \<open>
  The other constructors are the exceptions of the standard library and of the libraries
  the program calls, as far as the program throws or catches them.
\<close>

datatype exn =
    Net net_exn
  | RuntimeError string
  | LogicError string
  | InvalidArgument string
  | OutOfRange string
  | IosFailure string
  | SystemError string
  | BadAlloc
  | PtreeBadPath string
  | PtreeBadData string
  | JsonParserError string
  | BadLexicalCast
  | SqliteError string

text \<open>What a handler \<open>catch (const C &)\<close> catches, for the classes the code names.\<close>

fun is_HTTPException :: "exn \<Rightarrow> bool" where
  "is_HTTPException (Net (HTTPException _)) = True"
| "is_HTTPException _ = False"

fun is_SSLCertificateException :: "exn \<Rightarrow> bool" where
  "is_SSLCertificateException (Net (SSLCertificateException _)) = True"
| "is_SSLCertificateException _ = False"

fun is_NetworkException :: "exn \<Rightarrow> bool" where
  "is_NetworkException (Net _) = True"
| "is_NetworkException _ = False"

lemma HTTPException_is_NetworkException:
  "is_HTTPException e \<Longrightarrow> is_NetworkException e"
  by (cases e rule: is_HTTPException.cases) simp_all

section \<open>Outcomes and the monad\<close>

datatype 'a outcome = Ret 'a | Throw exn | Hang

type_synonym ('s, 'a) prog = "'s \<Rightarrow> 'a outcome \<times> 's"

definition ret :: "'a \<Rightarrow> ('s, 'a) prog" where
  "ret a s = (Ret a, s)"

definition raise :: "exn \<Rightarrow> ('s, 'a) prog" where
  "raise e s = (Throw e, s)"

definition hang :: "('s, 'a) prog" where
  "hang s = (Hang, s)"

definition bindp :: "('s, 'a) prog \<Rightarrow> ('a \<Rightarrow> ('s, 'b) prog) \<Rightarrow> ('s, 'b) prog" where
  "bindp m f s =
     (case m s of
        (Ret a, s') \<Rightarrow> f a s'
      | (Throw e, s') \<Rightarrow> (Throw e, s')
      | (Hang, s') \<Rightarrow> (Hang, s'))"

definition thenp :: "('s, 'a) prog \<Rightarrow> ('s, 'b) prog \<Rightarrow> ('s, 'b) prog" where
  "thenp m n = bindp m (\<lambda>_. n)"

text \<open>\<open>catchp m h\<close> is \<open>try { m } catch ...\<close>; \<open>h\<close> sees every exception and rethrows
  those the source's handlers do not catch.\<close>

definition catchp :: "('s, 'a) prog \<Rightarrow> (exn \<Rightarrow> ('s, 'a) prog) \<Rightarrow> ('s, 'a) prog" where
  "catchp m h s =
     (case m s of
        (Ret a, s') \<Rightarrow> (Ret a, s')
      | (Throw e, s') \<Rightarrow> h e s'
      | (Hang, s') \<Rightarrow> (Hang, s'))"

definition gets :: "('s \<Rightarrow> 'a) \<Rightarrow> ('s, 'a) prog" where
  "gets f s = (Ret (f s), s)"

definition modify :: "('s \<Rightarrow> 's) \<Rightarrow> ('s, unit) prog" where
  "modify f s = (Ret (), f s)"

definition lift_sum :: "exn + 'a \<Rightarrow> ('s, 'a) prog" where
  "lift_sum r = (case r of Inl e \<Rightarrow> raise e | Inr a \<Rightarrow> ret a)"

fun forM :: "('a \<Rightarrow> ('s, unit) prog) \<Rightarrow> 'a list \<Rightarrow> ('s, unit) prog" where
  "forM f [] = ret ()"
| "forM f (x # xs) = thenp (f x) (forM f xs)"

lemma ret_apply [prog_simps, simp]: "ret a s = (Ret a, s)"
  by (simp add: ret_def)

lemma raise_apply [prog_simps, simp]: "raise e s = (Throw e, s)"
  by (simp add: raise_def)

lemma hang_apply [prog_simps, simp]: "hang s = (Hang, s)"
  by (simp add: hang_def)

lemma gets_apply [prog_simps, simp]: "gets f s = (Ret (f s), s)"
  by (simp add: gets_def)

lemma modify_apply [prog_simps, simp]: "modify f s = (Ret (), f s)"
  by (simp add: modify_def)

lemma lift_sum_simps [prog_simps, simp]:
  "lift_sum (Inl e) = raise e" "lift_sum (Inr a) = ret a"
  by (simp_all add: lift_sum_def)

lemma bindp_Ret [prog_simps]: "m s = (Ret a, s') \<Longrightarrow> bindp m f s = f a s'"
  by (simp add: bindp_def)

lemma bindp_Throw [prog_simps]: "m s = (Throw e, s') \<Longrightarrow> bindp m f s = (Throw e, s')"
  by (simp add: bindp_def)

lemma bindp_Hang [prog_simps]: "m s = (Hang, s') \<Longrightarrow> bindp m f s = (Hang, s')"
  by (simp add: bindp_def)

lemma thenp_Ret [prog_simps]: "m s = (Ret a, s') \<Longrightarrow> thenp m n s = n s'"
  by (simp add: thenp_def bindp_def)

lemma thenp_Throw [prog_simps]: "m s = (Throw e, s') \<Longrightarrow> thenp m n s = (Throw e, s')"
  by (simp add: thenp_def bindp_def)

lemma thenp_Hang [prog_simps]: "m s = (Hang, s') \<Longrightarrow> thenp m n s = (Hang, s')"
  by (simp add: thenp_def bindp_def)

lemma catchp_Ret [prog_simps]: "m s = (Ret a, s') \<Longrightarrow> catchp m h s = (Ret a, s')"
  by (simp add: catchp_def)

lemma catchp_Throw [prog_simps]: "m s = (Throw e, s') \<Longrightarrow> catchp m h s = h e s'"
  by (simp add: catchp_def)

lemma catchp_Hang [prog_simps]: "m s = (Hang, s') \<Longrightarrow> catchp m h s = (Hang, s')"
  by (simp add: catchp_def)

text \<open>How a composed program can have produced a given outcome.\<close>

lemma bindp_RetE:
  assumes "bindp m f s = (Ret b, t)"
  obtains a u where "m s = (Ret a, u)" "f a u = (Ret b, t)"
  using assms by (auto simp: bindp_def split: prod.splits outcome.splits)

lemma bindp_ThrowE:
  assumes "bindp m f s = (Throw e, t)"
  obtains "m s = (Throw e, t)"
  | a u where "m s = (Ret a, u)" "f a u = (Throw e, t)"
  using assms by (auto simp: bindp_def split: prod.splits outcome.splits)

lemma bindp_HangE:
  assumes "bindp m f s = (Hang, t)"
  obtains "m s = (Hang, t)"
  | a u where "m s = (Ret a, u)" "f a u = (Hang, t)"
  using assms by (auto simp: bindp_def split: prod.splits outcome.splits)

lemma catchp_ThrowE:
  assumes "catchp m h s = (Throw e, t)"
  obtains e' u where "m s = (Throw e', u)" "h e' u = (Throw e, t)"
  using assms by (auto simp: catchp_def split: prod.splits outcome.splits)

lemma catchp_RetE:
  assumes "catchp m h s = (Ret a, t)"
  obtains "m s = (Ret a, t)"
  | e u where "m s = (Throw e, u)" "h e u = (Ret a, t)"
  using assms by (auto simp: catchp_def split: prod.splits outcome.splits)

lemma bindp_assoc: "bindp (bindp m f) g = bindp m (\<lambda>a. bindp (f a) g)"
  by (rule ext) (auto simp: bindp_def split: prod.splits outcome.splits)

text \<open>What every step of a loop keeps, the loop keeps.\<close>

lemma forM_invariant:
  assumes "P s" and "forM f xs s = (r, s')"
    and "\<And>x s r s'. x \<in> set xs \<Longrightarrow> P s \<Longrightarrow> f x s = (r, s') \<Longrightarrow> P s'"
  shows "P s'"
  using assms
proof (induction xs arbitrary: s)
  case Nil
  then show ?case by simp
next
  case (Cons x xs)
  obtain r1 s1 where f: "f x s = (r1, s1)" by fastforce
  have p: "P s1" using Cons.prems(1,3) f by (meson list.set_intros(1))
  show ?case
  proof (cases r1)
    case (Ret u)
    then have "forM f xs s1 = (r, s')" using Cons.prems(2) f by (simp add: thenp_Ret)
    then show ?thesis by (rule Cons.IH [OF p]) (meson Cons.prems(3) list.set_intros(2))
  qed (use p f Cons.prems(2) in \<open>simp_all add: thenp_Throw thenp_Hang\<close>)
qed

section \<open>Lists\<close>

lemma takeWhile_append_stop:
  assumes "\<forall>x \<in> set xs. P x" and "\<not> P y"
  shows "takeWhile P (xs @ y # ys) = xs" and "dropWhile P (xs @ y # ys) = y # ys"
  using assms by (induction xs) auto

lemma takeWhile_snoc_all:
  "\<forall>x \<in> set xs. P x \<Longrightarrow> takeWhile P xs = xs"
  by (induction xs) auto

end
