(* ===== verification/Cpp_String.thy ===== *)
theory Cpp_String
  imports Prelude
begin

text \<open>
  The operations of \<open>std::string\<close> and \<open>std::getline\<close> that the program uses, as functions
  on character lists. \<open>npos\<close> is \<open>None\<close>. Positions are natural numbers: a string is never
  longer than \<open>2^64 - 1\<close> characters.
\<close>

section \<open>Searching\<close>

definition NUL :: char where
  "NUL = CHR 0x00"

definition NL :: char where
  "NL = CHR 0x0A"

definition CR :: char where
  "CR = CHR 0x0D"

text \<open>The part of a string a C function sees through \<open>c_str()\<close>.\<close>

definition c_str :: "string \<Rightarrow> string" where
  "c_str s = takeWhile (\<lambda>c. c \<noteq> NUL) s"

fun find_char :: "char \<Rightarrow> string \<Rightarrow> nat option" where
  "find_char c [] = None"
| "find_char c (x # xs) = (if x = c then Some 0 else map_option Suc (find_char c xs))"

fun find_first_not_of :: "string \<Rightarrow> string \<Rightarrow> nat option" where
  "find_first_not_of cs [] = None"
| "find_first_not_of cs (x # xs) =
     (if x \<in> set cs then map_option Suc (find_first_not_of cs xs) else Some 0)"

text \<open>The last position whose character satisfies a predicate.\<close>

fun find_last :: "(char \<Rightarrow> bool) \<Rightarrow> string \<Rightarrow> nat option" where
  "find_last P [] = None"
| "find_last P (x # xs) =
     (case find_last P xs of
        Some i \<Rightarrow> Some (Suc i)
      | None \<Rightarrow> if P x then Some 0 else None)"

definition find_last_of :: "char \<Rightarrow> string \<Rightarrow> nat option" where
  "find_last_of c s = find_last (\<lambda>x. x = c) s"

definition find_last_not_of :: "string \<Rightarrow> string \<Rightarrow> nat option" where
  "find_last_not_of cs s = find_last (\<lambda>x. x \<notin> set cs) s"

section \<open>Cutting\<close>

text \<open>\<open>substr(pos, n)\<close> and \<open>erase(pos, n)\<close> for positions inside the string; a missing
  count is \<open>npos\<close>, that is, up to the end.\<close>

definition substr :: "nat \<Rightarrow> nat option \<Rightarrow> string \<Rightarrow> string" where
  "substr pos n s = (case n of None \<Rightarrow> drop pos s | Some k \<Rightarrow> take k (drop pos s))"

definition erase :: "nat \<Rightarrow> nat option \<Rightarrow> string \<Rightarrow> string" where
  "erase pos n s =
     (case n of None \<Rightarrow> take pos s | Some k \<Rightarrow> take pos s @ drop (pos + k) s)"

text \<open>\<open>std::getline(stream, line)\<close> on the rest of a stream: \<open>None\<close> when nothing is left,
  otherwise the line without its newline and the new rest.\<close>

definition getline :: "string \<Rightarrow> (string \<times> string) option" where
  "getline s =
     (if s = [] then None
      else Some (takeWhile (\<lambda>c. c \<noteq> NL) s, drop 1 (dropWhile (\<lambda>c. c \<noteq> NL) s)))"

text \<open>\<open>std::to_string\<close> for integers, and the digits of \<open>std::hex\<close>.\<close>

definition digit_char :: "nat \<Rightarrow> char" where
  "digit_char d = ''0123456789abcdef'' ! d"

definition digits10 :: string where
  "digits10 = ''0123456789''"

fun show_nat :: "nat \<Rightarrow> string" where
  "show_nat n =
     (if n < 10 then [digit_char n] else show_nat (n div 10) @ [digit_char (n mod 10)])"

declare show_nat.simps [simp del]

definition show_int :: "int \<Rightarrow> string" where
  "show_int i = (if i < 0 then ''-'' @ show_nat (nat (- i)) else show_nat (nat i))"

section \<open>Lemmas\<close>

lemma find_char_None: "find_char c s = None \<longleftrightarrow> c \<notin> set s"
  by (induction s) auto

lemma find_char_Some:
  "find_char c s = Some i \<longleftrightarrow>
     i < length s \<and> s ! i = c \<and> takeWhile (\<lambda>x. x \<noteq> c) s = take i s"
proof (induction s arbitrary: i)
  case Nil
  then show ?case by simp
next
  case (Cons x xs)
  then show ?case by (cases i) auto
qed

lemma find_char_nth:
  assumes "distinct xs" and "i < length xs"
  shows "find_char (xs ! i) xs = Some i"
  using assms by (induction xs arbitrary: i) (auto simp: nth_Cons split: nat.split)

lemma find_char_append:
  "c \<notin> set xs \<Longrightarrow> find_char c (xs @ c # ys) = Some (length xs)"
  by (induction xs) auto

lemma find_char_decomp:
  assumes "find_char c s = Some i"
  shows "s = take i s @ c # drop (Suc i) s" and "c \<notin> set (take i s)"
proof -
  from assms have i: "i < length s" "s ! i = c" "takeWhile (\<lambda>x. x \<noteq> c) s = take i s"
    by (simp_all add: find_char_Some)
  from i(1,2) show "s = take i s @ c # drop (Suc i) s"
    by (metis id_take_nth_drop)
  from i(3) show "c \<notin> set (take i s)"
    by (metis set_takeWhileD)
qed

lemma find_first_not_of_None: "find_first_not_of cs s = None \<longleftrightarrow> set s \<subseteq> set cs"
  by (induction s) auto

lemma find_first_not_of_erase:
  "erase 0 (find_first_not_of cs s) s = dropWhile (\<lambda>x. x \<in> set cs) s"
proof (induction s)
  case Nil
  then show ?case by (simp add: erase_def)
next
  case (Cons x xs)
  then show ?case by (auto simp: erase_def split: option.splits)
qed

lemma find_last_None: "find_last P s = None \<longleftrightarrow> (\<forall>x \<in> set s. \<not> P x)"
  by (induction s) (auto split: option.splits)

lemma find_last_Some:
  assumes "find_last P s = Some i"
  shows "i < length s" and "P (s ! i)" and "\<forall>x \<in> set (drop (Suc i) s). \<not> P x"
  using assms
proof (induction s arbitrary: i)
  case (Cons x xs)
  {
    case 1
    then show ?case using Cons.IH(1) by (auto split: option.splits if_splits)
  next
    case 2
    then show ?case using Cons.IH(2) by (auto split: option.splits if_splits)
  next
    case 3
    then show ?case using Cons.IH(3)
      by (auto split: option.splits if_splits simp: find_last_None)
  }
qed auto

lemma find_last_decomp:
  assumes "find_last P s = Some i"
  shows "s = take i s @ s ! i # drop (Suc i) s"
  using find_last_Some(1) [OF assms] by (rule id_take_nth_drop)

lemma getline_length: "getline s = Some (l, r) \<Longrightarrow> length r < length s"
proof -
  assume g: "getline s = Some (l, r)"
  then have "s \<noteq> []" and r: "r = drop 1 (dropWhile (\<lambda>c. c \<noteq> NL) s)"
    by (auto simp: getline_def split: if_splits)
  moreover have "length (dropWhile (\<lambda>c. c \<noteq> NL) s) \<le> length s"
    by (rule length_dropWhile_le)
  ultimately show ?thesis by (cases s) (auto simp: less_Suc_eq_le)
qed

lemma getline_line [simp]:
  "NL \<notin> set l \<Longrightarrow> getline (l @ NL # r) = Some (l, r)"
proof -
  assume a: "NL \<notin> set l"
  then have "takeWhile (\<lambda>c. c \<noteq> NL) (l @ NL # r) = l"
    "dropWhile (\<lambda>c. c \<noteq> NL) (l @ NL # r) = NL # r"
    by (metis (mono_tags, lifting) takeWhile_append_stop)+
  then show ?thesis by (simp add: getline_def)
qed

lemma c_str_no_NUL: "NUL \<notin> set s \<Longrightarrow> c_str s = s"
  unfolding c_str_def by (rule takeWhile_snoc_all) auto

lemma show_nat_digits: "set (show_nat n) \<subseteq> set digits10"
proof (induction n rule: show_nat.induct)
  case (1 n)
  have d: "digit_char d \<in> set digits10" if "d < 10" for d
    using that unfolding digit_char_def digits10_def
    by (auto simp: numeral_eq_Suc less_Suc_eq)
  have "digit_char (n mod 10) \<in> set digits10"
    by (rule d) simp
  then show ?case
    using 1 d [of n] by (subst show_nat.simps) auto
qed

lemma show_nat_nonempty [simp]: "show_nat n \<noteq> []"
  by (subst show_nat.simps) simp

end
