(* ===== verification/Posix.thy ===== *)
theory Posix
  imports Cpp_String
begin

text \<open>
  The operating system calls the program makes on files. The kernel is not part of the
  repository, so it is a parameter: a record of functions over a world \<open>'w\<close>.
  \<open>px_stat\<close> is the \<open>st_size\<close> of a successful \<open>stat\<close> and \<open>None\<close> when it fails;
  \<open>px_mkdir\<close> and \<open>px_remove\<close> say whether the call succeeded; \<open>px_open_read\<close> is the
  content of a file that \<open>std::ifstream\<close> can open. \<open>posix_dirs_ok\<close> states what the
  folder code relies on: a successful \<open>mkdir\<close> creates the path, and neither \<open>mkdir\<close>
  nor \<open>chmod\<close> makes an existing path disappear.
\<close>

record 'w posix =
  px_stat :: "string \<Rightarrow> 'w \<Rightarrow> int64 option"
  px_mkdir :: "string \<Rightarrow> 'w \<Rightarrow> bool \<times> 'w"
  px_chmod :: "string \<Rightarrow> 'w \<Rightarrow> 'w"
  px_remove :: "string \<Rightarrow> 'w \<Rightarrow> bool \<times> 'w"
  px_open_read :: "string \<Rightarrow> 'w \<Rightarrow> string option"

definition path_exists :: "('w, 'x) posix_scheme \<Rightarrow> string \<Rightarrow> 'w \<Rightarrow> bool" where
  "path_exists os p w \<longleftrightarrow> px_stat os (c_str p) w \<noteq> None"

definition posix_dirs_ok :: "('w, 'x) posix_scheme \<Rightarrow> bool" where
  "posix_dirs_ok os \<longleftrightarrow>
     (\<forall>p w w'. px_mkdir os p w = (True, w') \<longrightarrow> px_stat os p w' \<noteq> None) \<and>
     (\<forall>p q w b w'. px_mkdir os p w = (b, w') \<longrightarrow> px_stat os q w \<noteq> None \<longrightarrow> px_stat os q w' \<noteq> None) \<and>
     (\<forall>p q w. px_stat os q w \<noteq> None \<longrightarrow> px_stat os q (px_chmod os p w) \<noteq> None)"

lemma posix_dirs_okD:
  assumes "posix_dirs_ok os"
  shows "px_mkdir os (c_str p) w = (True, w') \<Longrightarrow> path_exists os p w'"
    and "px_mkdir os (c_str p) w = (b, w') \<Longrightarrow> path_exists os q w \<Longrightarrow> path_exists os q w'"
    and "path_exists os q w \<Longrightarrow> path_exists os q (px_chmod os p w)"
  using assms unfolding posix_dirs_ok_def path_exists_def by blast+

text \<open>
  A small concrete world that satisfies the contract: the set of the paths that exist, in
  which \<open>mkdir\<close> needs the part before the last slash to exist, and the files' contents.
\<close>

record demo_world =
  dw_dirs :: "string list"
  dw_files :: "(string \<times> string) list"

definition demo_parent :: "string \<Rightarrow> string" where
  "demo_parent p = (case find_last_of CHR ''/'' p of None \<Rightarrow> [] | Some i \<Rightarrow> take i p)"

definition demo_posix :: "demo_world posix" where
  "demo_posix = \<lparr>
     px_stat = (\<lambda>p w. if p \<in> set (dw_dirs w) then Some 4096
                      else map_option (\<lambda>c. of_nat (length c)) (map_of (dw_files w) p)),
     px_mkdir = (\<lambda>p w. if demo_parent p = [] \<or> demo_parent p \<in> set (dw_dirs w)
                       then (True, w\<lparr>dw_dirs := p # dw_dirs w\<rparr>) else (False, w)),
     px_chmod = (\<lambda>p w. w),
     px_remove = (\<lambda>p w. if map_of (dw_files w) p = None then (False, w)
                        else (True, w\<lparr>dw_files := filter (\<lambda>f. fst f \<noteq> p) (dw_files w)\<rparr>)),
     px_open_read = (\<lambda>p w. map_of (dw_files w) p)\<rparr>"

lemma demo_posix_dirs_ok: "posix_dirs_ok demo_posix"
  by (auto simp: posix_dirs_ok_def demo_posix_def split: if_splits)

end
