(* ===== verification/Filesystem.thy ===== *)
theory Filesystem
  imports Posix
begin

text \<open>
  Models \<open>Daemon/common_utils/filesystem.cpp\<close>: the path functions, the recursive folder
  creation, and the file queries. The world is the operating system's (\<open>Posix\<close>); the MD5
  implementation of OpenSSL is a parameter.
\<close>

section \<open>Paths\<close>

definition GetFileName :: "string \<Rightarrow> string" where
  "GetFileName fullPath =
     (case find_last_of CHR ''/'' fullPath of
        Some pos \<Rightarrow> substr (pos + 1) None fullPath
      | None \<Rightarrow> fullPath)"

definition GetDirectory :: "string \<Rightarrow> string" where
  "GetDirectory fullPath =
     (case find_last_of CHR ''/'' fullPath of
        Some pos \<Rightarrow> substr 0 (Some pos) fullPath
      | None \<Rightarrow> ''./'')"

section \<open>Creating folders\<close>

text \<open>The loop of \<open>CreateFolder\<close>: \<open>created\<close> is \<open>created_dir\<close>, \<open>nxt\<close> is \<open>next_part\<close>.\<close>

definition split_next :: "string \<Rightarrow> string \<Rightarrow> string \<times> string" where
  "split_next created nxt =
     (case find_char CHR ''/'' nxt of
        Some pos \<Rightarrow> (created @ substr 0 (Some pos) nxt, erase 0 (Some (pos + 1)) nxt)
      | None \<Rightarrow> (created @ nxt, []))"

lemma split_next_shorter:
  "nxt \<noteq> [] \<Longrightarrow> length (snd (split_next created nxt)) < length nxt"
  by (auto simp: split_next_def erase_def find_char_Some split: option.splits)

function create_folder_loop ::
  "('w, 'x) posix_scheme \<Rightarrow> string \<Rightarrow> string \<Rightarrow> 'w \<Rightarrow> 'w" where
  "create_folder_loop os created nxt w =
     (if nxt = [] then w
      else let created' = fst (split_next created nxt); nxt' = snd (split_next created nxt)
        in if created' \<noteq> [] \<and> px_stat os (c_str created') w = None
           then (case px_mkdir os (c_str created') w of
                   (False, w') \<Rightarrow> w'
                 | (True, w') \<Rightarrow>
                     create_folder_loop os (created' @ ''/'') nxt' (px_chmod os (c_str created') w'))
           else create_folder_loop os (created' @ ''/'') nxt' w)"
  by pat_completeness auto
termination
  by (relation "measure (\<lambda>(os, created, nxt, w). length nxt)") (auto simp: split_next_shorter)

declare create_folder_loop.simps [simp del]

definition CreateFolder :: "('w, 'x) posix_scheme \<Rightarrow> string \<Rightarrow> 'w \<Rightarrow> 'w" where
  "CreateFolder os dir w =
     (if dir = [] \<or> px_stat os (c_str dir) w \<noteq> None then w
      else if dir ! 0 = CHR ''/''
           then create_folder_loop os ''/'' (erase 0 (Some 1) dir) w
           else create_folder_loop os [] dir w)"

section \<open>Files\<close>

definition IsFileExist :: "('w, 'x) posix_scheme \<Rightarrow> string \<Rightarrow> 'w \<Rightarrow> bool" where
  "IsFileExist os filePath w \<longleftrightarrow> px_stat os (c_str filePath) w \<noteq> None"

definition Remove :: "('w, 'x) posix_scheme \<Rightarrow> string \<Rightarrow> ('w, unit) prog" where
  "Remove os filePath w =
     (case px_remove os (c_str filePath) w of
        (True, w') \<Rightarrow> (Ret (), w')
      | (False, w') \<Rightarrow> (Throw (IosFailure (''Can't remove file: '' @ filePath)), w'))"

definition GetFileSize :: "('w, 'x) posix_scheme \<Rightarrow> string \<Rightarrow> ('w, size_t) prog" where
  "GetFileSize os filePath w =
     (case px_stat os (c_str filePath) w of
        None \<Rightarrow> (Throw (IosFailure (''Can't get stat of file: '' @ filePath)), w)
      | Some sz \<Rightarrow> (Ret sz, w))"

text \<open>The three functions of OpenSSL's MD5 over its context.\<close>

record 'c md5_api =
  MD5_Init :: 'c
  MD5_Update :: "'c \<Rightarrow> string \<Rightarrow> 'c"
  MD5_Final :: "'c \<Rightarrow> byte list"

definition file_buffer_size :: nat where
  "file_buffer_size = 4096"

text \<open>
  The loop \<open>while (ifs.read(buf, n) || ifs.gcount()) MD5_Update(...)\<close>. The stream is its
  unread bytes and whether it is still good; \<open>read\<close> on a stream that is not good reads
  nothing, and a short read takes what is left and makes the stream fail.
\<close>

definition ifs_read :: "nat \<Rightarrow> string \<times> bool \<Rightarrow> bool \<times> string \<times> (string \<times> bool)" where
  "ifs_read n st =
     (case st of (rest, good) \<Rightarrow>
        if \<not> good then (False, [], (rest, False))
        else if n \<le> length rest then (True, take n rest, (drop n rest, True))
        else (False, rest, ([], False)))"

function md5_loop :: "('c, 'x) md5_api_scheme \<Rightarrow> string \<times> bool \<Rightarrow> 'c \<Rightarrow> 'c" where
  "md5_loop api st ctx =
     (case ifs_read file_buffer_size st of
        (ok, chunk, st') \<Rightarrow>
          if ok \<or> chunk \<noteq> [] then md5_loop api st' (MD5_Update api ctx chunk) else ctx)"
  by pat_completeness auto
termination
  by (relation "measure (\<lambda>(api, st, ctx). length (fst st))")
    (auto simp: ifs_read_def file_buffer_size_def split: prod.splits if_splits)

declare md5_loop.simps [simp del]

text \<open>\<open>std::hex << setw(2) << setfill('0')\<close> of one digest byte.\<close>

definition hex_byte :: "byte \<Rightarrow> string" where
  "hex_byte b = [digit_char (unat b div 16), digit_char (unat b mod 16)]"

definition MD5_DIGEST_LENGTH :: nat where
  "MD5_DIGEST_LENGTH = 16"

definition GetMD5 ::
  "('w, 'x) posix_scheme \<Rightarrow> ('c, 'y) md5_api_scheme \<Rightarrow> string \<Rightarrow> ('w, string) prog" where
  "GetMD5 os api filePath w =
     (if \<not> IsFileExist os filePath w
      then (Throw (IosFailure (''Can't find file: '' @ filePath)), w)
      else let st = (case px_open_read os (c_str filePath) w of
                       Some content \<Rightarrow> (content, True)
                     | None \<Rightarrow> ([], False));
               digest = MD5_Final api (md5_loop api st (MD5_Init api))
           in (Ret (concat (map (\<lambda>i. hex_byte (digest ! i)) [0..<MD5_DIGEST_LENGTH])), w))"

section \<open>Lemmas on paths\<close>

lemma find_last_of_None [path_simps]: "find_last_of c s = None \<longleftrightarrow> c \<notin> set s"
  by (auto simp: find_last_of_def find_last_None)

lemma find_last_of_decomp:
  assumes "find_last_of c s = Some i"
  shows "s = take i s @ c # drop (Suc i) s" and "c \<notin> set (drop (Suc i) s)"
proof -
  from assms have f: "find_last (\<lambda>x. x = c) s = Some i"
    by (simp add: find_last_of_def)
  show "s = take i s @ c # drop (Suc i) s"
    using find_last_decomp [OF f] find_last_Some(2) [OF f] by simp
  show "c \<notin> set (drop (Suc i) s)"
    using find_last_Some(3) [OF f] by auto
qed

lemma GetFileName_no_slash: "CHR ''/'' \<notin> set (GetFileName p)"
  by (auto simp: GetFileName_def substr_def path_simps dest: find_last_of_decomp(2)
      split: option.splits)

lemma GetDirectory_GetFileName:
  assumes "CHR ''/'' \<in> set p"
  shows "GetDirectory p @ ''/'' @ GetFileName p = p"
proof -
  from assms obtain i where i: "find_last_of CHR ''/'' p = Some i"
    by (cases "find_last_of CHR ''/'' p") (auto simp: path_simps)
  then show ?thesis
    using find_last_of_decomp(1) [OF i] by (simp add: GetDirectory_def GetFileName_def substr_def)
qed

section \<open>What \<open>CreateFolder\<close> has to do\<close>

text \<open>
  The abstract description: the folders of a path, from the outermost in, and one pass
  that creates the missing ones and stops at the first that cannot be created.
\<close>

fun cuts :: "string \<Rightarrow> string list" where
  "cuts [] = []"
| "cuts (x # xs) =
     (if x = CHR ''/'' then [] # map ((#) x) (cuts xs)
      else if xs = [] then [[x]] else map ((#) x) (cuts xs))"

definition dir_prefixes :: "string \<Rightarrow> string list" where
  "dir_prefixes dir =
     (case dir of
        [] \<Rightarrow> []
      | x # xs \<Rightarrow> if x = CHR ''/'' then map ((#) x) (cuts xs) else cuts dir)"

fun ensure_dirs :: "('w, 'x) posix_scheme \<Rightarrow> string list \<Rightarrow> 'w \<Rightarrow> 'w" where
  "ensure_dirs os [] w = w"
| "ensure_dirs os (p # ps) w =
     (if path_exists os p w then ensure_dirs os ps w
      else (case px_mkdir os (c_str p) w of
              (False, w') \<Rightarrow> w'
            | (True, w') \<Rightarrow> ensure_dirs os ps (px_chmod os (c_str p) w')))"

lemma cuts_iff:
  "p \<in> set (cuts s) \<longleftrightarrow>
     (p = s \<and> s \<noteq> [] \<and> last s \<noteq> CHR ''/'') \<or> (\<exists>q. s = p @ CHR ''/'' # q)"
proof (induction s arbitrary: p)
  case Nil
  then show ?case by simp
next
  case (Cons x xs)
  show ?case
  proof (cases p)
    case Nil
    then show ?thesis by (auto split: if_splits)
  next
    case (Cons y ys)
    then show ?thesis using Cons.IH [of ys] by (auto split: if_splits)
  qed
qed

lemma cuts_no_slash:
  assumes "CHR ''/'' \<notin> set s" and "s \<noteq> []"
  shows "cuts s = [s]"
  using assms by (induction s) auto

lemma cuts_first:
  assumes "CHR ''/'' \<notin> set xs"
  shows "cuts (xs @ CHR ''/'' # ys) = xs # map (\<lambda>p. xs @ CHR ''/'' # p) (cuts ys)"
  using assms by (induction xs) auto

lemma create_folder_loop_ensure:
  assumes "created \<noteq> [] \<or> nxt = [] \<or> hd nxt \<noteq> CHR ''/''"
  shows "create_folder_loop os created nxt w =
           ensure_dirs os (map ((@) created) (cuts nxt)) w"
  using assms
proof (induction os created nxt w rule: create_folder_loop.induct)
  case (1 os created nxt w)
  show ?case
  proof (cases "find_char CHR ''/'' nxt")
    case None
    then have ns: "CHR ''/'' \<notin> set nxt" by (simp add: find_char_None)
    with None show ?thesis
      by (subst create_folder_loop.simps)
        (auto simp: split_next_def cuts_no_slash path_exists_def create_folder_loop.simps
          split: prod.splits bool.splits)
  next
    case (Some i)
    define a where "a = take i nxt"
    define b where "b = drop (Suc i) nxt"
    have nxt: "nxt = a @ CHR ''/'' # b" and a: "CHR ''/'' \<notin> set a"
      using find_char_decomp [OF Some] by (simp_all add: a_def b_def)
    have sp: "split_next created nxt = (created @ a, b)"
      using Some by (simp add: split_next_def substr_def erase_def a_def b_def)
    have ne: "nxt \<noteq> []" and ca: "created @ a \<noteq> []"
      using "1.prems" nxt by auto
    have m: "map ((@) created) (cuts nxt) =
        (created @ a) # map (\<lambda>p. created @ a @ CHR ''/'' # p) (cuts b)"
      by (simp add: nxt cuts_first [OF a])
    show ?thesis
      using "1.IH" ne ca
      by (subst create_folder_loop.simps)
        (auto simp: m sp path_exists_def Let_def split: prod.splits bool.splits)
  qed
qed

lemma append_sections [path_simps]: "(@) [x] = (#) x" "(@) [] = id"
  by (auto simp: fun_eq_iff)

lemma CreateFolder_ensure:
  "CreateFolder os dir w =
     (if path_exists os dir w then w else ensure_dirs os (dir_prefixes dir) w)"
proof (cases dir)
  case Nil
  then show ?thesis by (simp add: CreateFolder_def dir_prefixes_def)
next
  case (Cons x xs)
  then show ?thesis
    by (auto simp: CreateFolder_def dir_prefixes_def path_exists_def erase_def
        create_folder_loop_ensure path_simps comp_def)
qed

lemma dir_prefixes_iff:
  "p \<in> set (dir_prefixes dir) \<longleftrightarrow>
     p \<noteq> [] \<and> ((p = dir \<and> last dir \<noteq> CHR ''/'') \<or> (\<exists>q. dir = p @ CHR ''/'' # q))"
proof (cases dir)
  case Nil
  then show ?thesis by (simp add: dir_prefixes_def)
next
  case (Cons x xs)
  then show ?thesis
    by (cases p) (auto simp: dir_prefixes_def cuts_iff simp del: cuts.simps)
qed

lemma ensure_dirs_keeps:
  assumes "posix_dirs_ok os" and "path_exists os q w"
  shows "path_exists os q (ensure_dirs os ps w)"
  using assms(2)
  by (induction ps arbitrary: w)
    (auto split: prod.splits bool.splits dest: posix_dirs_okD(2) [OF assms(1)]
      intro: posix_dirs_okD(3) [OF assms(1)])

lemma ensure_dirs_stops:
  assumes "posix_dirs_ok os" and "\<not> path_exists os r (ensure_dirs os ps w)" and "r \<in> set ps"
  shows "\<exists>pre p post u. ps = pre @ p # post \<and>
    (\<forall>q. q \<in> set pre \<or> path_exists os q w \<longrightarrow> path_exists os q u) \<and>
    \<not> path_exists os p u \<and> px_mkdir os (c_str p) u = (False, ensure_dirs os ps w)"
  using assms(2,3)
proof (induction ps arbitrary: w)
  case Nil
  then show ?case by simp
next
  case (Cons p ps)
  note ok = posix_dirs_okD [OF assms(1)]
  show ?case
  proof (cases "\<exists>w'. \<not> path_exists os p w \<and> px_mkdir os (c_str p) w = (False, w')")
    case True
    then obtain w' where "\<not> path_exists os p w" "px_mkdir os (c_str p) w = (False, w')" by blast
    then show ?thesis by (intro exI [of _ "[]"] exI [of _ p] exI [of _ ps] exI [of _ w]) simp
  next
    case False
    obtain v where v: "ensure_dirs os (p # ps) w = ensure_dirs os ps v" "path_exists os p v"
      "\<forall>q. path_exists os q w \<longrightarrow> path_exists os q v"
    proof (cases "path_exists os p w")
      case True
      with that [of w] show ?thesis by simp
    next
      case no: False
      with False obtain w' where w': "px_mkdir os (c_str p) w = (True, w')"
        by (cases "px_mkdir os (c_str p) w") auto
      with no that [of "px_chmod os (c_str p) w'"] show ?thesis
        by (simp add: ok(1,3) ok(2) [OF w'])
    qed
    with Cons.prems have "\<not> path_exists os r (ensure_dirs os ps v)" by simp
    moreover from this v(2) have "r \<noteq> p" using ensure_dirs_keeps [OF assms(1)] by blast
    ultimately obtain pre p' post u where "ps = pre @ p' # post"
      "\<forall>q. q \<in> set pre \<or> path_exists os q v \<longrightarrow> path_exists os q u" "\<not> path_exists os p' u"
      "px_mkdir os (c_str p') u = (False, ensure_dirs os ps v)"
      using Cons.IH [of v] Cons.prems(2) by auto
    with v show ?thesis
      by (intro exI [of _ "p # pre"] exI [of _ p'] exI [of _ post] exI [of _ u]) auto
  qed
qed

section \<open>Lemmas on the digest\<close>

lemma md5_loop_content:
  assumes upd: "\<And>c a b. MD5_Update api (MD5_Update api c a) b = MD5_Update api c (a @ b)"
    and nil: "\<And>c. MD5_Update api c [] = c"
  shows "md5_loop api (s, True) ctx = MD5_Update api ctx s"
proof (induction "length s" arbitrary: s ctx rule: less_induct)
  case less
  have stop: "md5_loop api ([], False) c = c" for c
    by (subst md5_loop.simps) (simp add: ifs_read_def)
  show ?case
  proof (cases "file_buffer_size \<le> length s")
    case True
    then have "length (drop file_buffer_size s) < length s"
      by (simp add: file_buffer_size_def)
    with True show ?thesis
      using less [of "drop file_buffer_size s"]
      by (subst md5_loop.simps) (simp add: ifs_read_def upd)
  next
    case False
    then show ?thesis
      by (subst md5_loop.simps) (simp add: ifs_read_def stop nil)
  qed
qed

text \<open>Reading a hexadecimal string back.\<close>

definition hex_value :: "char \<Rightarrow> nat option" where
  "hex_value c = find_char c ''0123456789abcdef''"

fun unhex :: "string \<Rightarrow> byte list option" where
  "unhex [] = Some []"
| "unhex [_] = None"
| "unhex (a # b # s) =
     (case (hex_value a, hex_value b, unhex s) of
        (Some i, Some j, Some bs) \<Rightarrow> Some (of_nat (16 * i + j) # bs)
      | _ \<Rightarrow> None)"

lemma hex_value_digit_char: "d < 16 \<Longrightarrow> hex_value (digit_char d) = Some d"
  unfolding hex_value_def digit_char_def by (rule find_char_nth) simp_all

lemma unhex_hex_bytes: "unhex (concat (map hex_byte bs)) = Some bs"
proof (induction bs)
  case (Cons b bs)
  have "unat b < 2 ^ LENGTH(8)" by (rule unsigned_less)
  then have "unat b div 16 < 16" "unat b mod 16 < 16" by (auto simp: less_mult_imp_div_less)
  with Cons show ?case
    by (simp add: hex_byte_def hex_value_digit_char)
qed simp

lemma length_hex_bytes: "length (concat (map hex_byte bs)) = 2 * length bs"
  by (induction bs) (simp_all add: hex_byte_def)

lemma map_nth_16: "length bs = MD5_DIGEST_LENGTH \<Longrightarrow>
    map (\<lambda>i. hex_byte (bs ! i)) [0..<MD5_DIGEST_LENGTH] = map hex_byte bs"
  by (intro nth_equalityI) auto

end
