(* ===== verification/Filesystem_Properties.thy ===== *)
theory Filesystem_Properties
  imports Filesystem
begin

text \<open>The properties of the file functions.\<close>

text \<open>
  C35: Recursive folder creation. If the path does not exist, then afterwards either every
  folder on the way to it exists (each prefix before a slash, and the path itself when it
  does not end in a slash), or the first folder that could not be created ended the work:
  all folders before it existed at that moment, and the final state is the one that the
  failed \<open>mkdir\<close> left. A path that exists is left alone.
\<close>

theorem CreateFolder_creates_or_stops:
  assumes "posix_dirs_ok os" and "w' = CreateFolder os dir w"
  shows "(path_exists os dir w \<and> w' = w) \<or>
    ((\<forall>p. p \<noteq> [] \<and> (\<exists>q. dir = p @ CHR ''/'' # q) \<longrightarrow> path_exists os p w') \<and>
     (dir \<noteq> [] \<and> last dir \<noteq> CHR ''/'' \<longrightarrow> path_exists os dir w')) \<or>
    (\<exists>pre p post u. dir_prefixes dir = pre @ p # post \<and> (\<forall>q \<in> set pre. path_exists os q u) \<and>
       \<not> path_exists os p u \<and> px_mkdir os (c_str p) u = (False, w'))"
proof (cases "path_exists os dir w")
  case True
  then show ?thesis by (simp add: assms(2) CreateFolder_ensure)
next
  case False
  then have w': "w' = ensure_dirs os (dir_prefixes dir) w"
    by (simp add: assms(2) CreateFolder_ensure)
  show ?thesis
  proof (cases "\<forall>r \<in> set (dir_prefixes dir). path_exists os r w'")
    case True
    then show ?thesis by (auto simp: dir_prefixes_iff)
  next
    case no: False
    then obtain r where "r \<in> set (dir_prefixes dir)" "\<not> path_exists os r w'" by blast
    then show ?thesis
      using ensure_dirs_stops [OF assms(1), of r "dir_prefixes dir" w] unfolding w' by blast
  qed
qed

definition empty_world :: demo_world where
  "empty_world = \<lparr>dw_dirs = [], dw_files = []\<rparr>"

theorem CreateFolder_creates_or_stops_witness:
  "path_exists demo_posix ''var/lib'' (CreateFolder demo_posix ''var/lib'' empty_world) \<and>
   path_exists demo_posix ''var'' (CreateFolder demo_posix ''var/lib'' empty_world)"
proof -
  define w' where "w' = \<lparr>dw_dirs = [''var/lib'', ''var''], dw_files = []\<rparr>"
  have w': "w' = CreateFolder demo_posix ''var/lib'' empty_world"
    unfolding w'_def by code_simp
  have fails: "u = v" if "px_mkdir demo_posix p u = (False, v)" for p u v
    using that by (auto simp: demo_posix_def split: if_splits)
  have all: "\<forall>p \<in> set (dir_prefixes ''var/lib''). path_exists demo_posix p w'"
    unfolding w'_def by code_simp
  have "\<not> path_exists demo_posix ''var/lib'' empty_world" by code_simp
  then show ?thesis
    using CreateFolder_creates_or_stops [OF demo_posix_dirs_ok w'] fails all
    unfolding w' [symmetric] by fastforce
qed

text \<open>
  Splitting a path. A path with a slash is its directory, a slash and its file name; the
  file name never holds a slash; a path without one is its own file name in the directory
  \<open>./\<close>. For a file in the root the directory is the empty string, not the slash.
\<close>

theorem path_split:
  "CHR ''/'' \<notin> set (GetFileName p) \<and>
   (if CHR ''/'' \<in> set p then GetDirectory p @ ''/'' @ GetFileName p = p
    else GetFileName p = p \<and> GetDirectory p = ''./'') \<and>
   (CHR ''/'' \<notin> set name \<longrightarrow> GetDirectory (CHR ''/'' # name) = [])"
proof (intro conjI impI)
  show "CHR ''/'' \<notin> set (GetFileName p)" by (rule GetFileName_no_slash)
  show "if CHR ''/'' \<in> set p then GetDirectory p @ ''/'' @ GetFileName p = p
    else GetFileName p = p \<and> GetDirectory p = ''./''"
    using GetDirectory_GetFileName find_last_of_None [of "CHR ''/''" p]
    by (auto simp: GetFileName_def GetDirectory_def)
  assume n: "CHR ''/'' \<notin> set name"
  then have "find_last (\<lambda>x. x = CHR ''/'') name = None"
    by (auto simp: find_last_None)
  then show "GetDirectory (CHR ''/'' # name) = []"
    by (simp add: GetDirectory_def find_last_of_def substr_def)
qed

theorem path_split_witness:
  "GetDirectory ''/var/log/a.txt'' @ ''/'' @ GetFileName ''/var/log/a.txt'' = ''/var/log/a.txt'' \<and>
   GetDirectory ''/etc'' = []"
  using path_split [of "''/var/log/a.txt''" "''etc''"] by simp

text \<open>
  C40: The MD5 sum of a file. For an existing file that can be opened, the result is the
  digest of its whole content, although it is read in pieces of 4096 bytes, written as 32
  hexadecimal digits that read back to the 16 bytes of the digest. The hypotheses state
  that MD5 is a streaming hash with 16 bytes of output.
\<close>

theorem GetMD5_digest:
  assumes "\<And>c a b. MD5_Update api (MD5_Update api c a) b = MD5_Update api c (a @ b)"
    and "\<And>c. MD5_Update api c [] = c"
    and "\<And>c. length (MD5_Final api c) = 16"
    and "IsFileExist os path w" and "px_open_read os (c_str path) w = Some content"
  shows "\<exists>h. GetMD5 os api path w = (Ret h, w) \<and> length h = 32 \<and>
    unhex h = Some (MD5_Final api (MD5_Update api (MD5_Init api) content))"
proof -
  define digest where "digest = MD5_Final api (MD5_Update api (MD5_Init api) content)"
  have d: "length digest = MD5_DIGEST_LENGTH" by (simp add: digest_def assms(3) MD5_DIGEST_LENGTH_def)
  have "GetMD5 os api path w = (Ret (concat (map hex_byte digest)), w)"
    using assms(4,5) map_nth_16 [OF d] md5_loop_content [OF assms(1,2), of content "MD5_Init api"]
    by (simp add: GetMD5_def Let_def digest_def)
  then show ?thesis
    using unhex_hex_bytes [of digest] length_hex_bytes [of digest] d
    by (simp add: digest_def MD5_DIGEST_LENGTH_def)
qed

definition demo_md5 :: "string md5_api" where
  "demo_md5 = \<lparr>MD5_Init = [], MD5_Update = (\<lambda>c a. c @ a),
     MD5_Final = (\<lambda>c. replicate 15 0 @ [of_nat (length c)])\<rparr>"

definition one_file :: demo_world where
  "one_file = \<lparr>dw_dirs = [], dw_files = [(''f'', ''hello'')]\<rparr>"

theorem GetMD5_digest_witness:
  "\<exists>h. GetMD5 demo_posix demo_md5 ''f'' one_file = (Ret h, one_file) \<and>
     unhex h = Some (replicate 15 0 @ [5])"
proof -
  have f: "IsFileExist demo_posix ''f'' one_file"
    and r: "px_open_read demo_posix (c_str ''f'') one_file = Some ''hello''"
    by (simp_all add: IsFileExist_def demo_posix_def one_file_def c_str_def NUL_def)
  show ?thesis
    using GetMD5_digest [of demo_md5, OF _ _ _ f r] by (auto simp: demo_md5_def)
qed

text \<open>
  Missing and unreadable files. The sum of a path that does not exist is an exception,
  and so are its size and its removal when the system refuses; but a file that exists and
  cannot be opened is reported, without an error, with the sum of the empty input.
\<close>

theorem file_errors:
  "(\<not> IsFileExist os path w \<longrightarrow>
      GetMD5 os api path w = (Throw (IosFailure (''Can't find file: '' @ path)), w) \<and>
      GetFileSize os path w = (Throw (IosFailure (''Can't get stat of file: '' @ path)), w)) \<and>
   (\<forall>w'. px_remove os (c_str path) w = (False, w') \<longrightarrow>
      Remove os path w = (Throw (IosFailure (''Can't remove file: '' @ path)), w')) \<and>
   (IsFileExist os path w \<and> px_open_read os (c_str path) w = None \<longrightarrow>
      GetMD5 os api path w =
        (Ret (concat (map (\<lambda>i. hex_byte (MD5_Final api (MD5_Init api) ! i)) [0..<16])), w))"
proof -
  have "md5_loop api ([], False) c = c" for c
    by (subst md5_loop.simps) (simp add: ifs_read_def)
  then show ?thesis
    by (auto simp: GetMD5_def GetFileSize_def Remove_def IsFileExist_def MD5_DIGEST_LENGTH_def Let_def)
qed

theorem file_errors_witness:
  "GetFileSize demo_posix ''nofile'' empty_world =
     (Throw (IosFailure (''Can't get stat of file: nofile'')), empty_world)"
  using file_errors [of demo_posix "''nofile''" empty_world demo_md5]
  by (simp add: IsFileExist_def demo_posix_def empty_world_def c_str_def NUL_def)

end
