(* ===== verification/Common_Functions.thy ===== *)
theory Common_Functions
  imports Cpp_String
begin

text \<open>
  Models \<open>System\<close>, \<open>GetCStyleStringVector\<close> and \<open>GenerateUUID\<close> of \<open>Daemon/common_utils/common_functions\<close>. The
  process library is a record of functions on the world: \<open>px_popen\<close> gives the output of the
  command and the status of its end, or \<open>None\<close> with the text of the error.
\<close>

record 'w process_api =
  px_popen :: "string \<Rightarrow> 'w \<Rightarrow> (string + string \<times> cint) \<times> 'w"

text \<open>
  The loop over the lines of the output: POSIX \<open>getline\<close> delivers each line with its newline,
  the last one perhaps without, and the C string in the buffer ends at the first null.
\<close>

definition next_line :: "string \<Rightarrow> string \<times> string" where
  "next_line s =
     (case find_char NL s of
        None \<Rightarrow> (s, [])
      | Some i \<Rightarrow> (take (Suc i) s, drop (Suc i) s))"

lemma next_line_shorter: "s \<noteq> [] \<Longrightarrow> length (snd (next_line s)) < length s"
  by (cases s) (auto simp: next_line_def split: option.split)

function read_output :: "string \<Rightarrow> string \<Rightarrow> string" where
  "read_output s str =
     (if s = [] then str
      else read_output (snd (next_line s)) (str @ c_str (fst (next_line s))))"
  by pat_completeness auto
termination
  by (relation "measure (length \<circ> fst)") (simp_all add: next_line_shorter)

declare read_output.simps [simp del]

definition System :: "('w, 'x) process_api_scheme \<Rightarrow> string \<Rightarrow> ('w, string) prog" where
  "System px command w =
     (case px_popen px (c_str command) w of
        (Inl err, w') \<Rightarrow>
          (Throw (RuntimeError (''Can't execute command ('' @ [CHR 0x22] @ command @ [CHR 0x22] @ '') : '' @ err)), w')
      | (Inr (output, status), w') \<Rightarrow>
          (let str = read_output output []
           in if status \<noteq> 0
              then (Throw (RuntimeError (''Command ('' @ [CHR 0x22] @ command @ [CHR 0x22] @ '') with error : '' @
                      show_int (sint status))), w')
              else (Ret str, w')))"

definition GetCStyleStringVector :: "string list \<Rightarrow> string list" where
  "GetCStyleStringVector argv = map c_str argv"

text \<open>
  The random generator of boost, which may throw, and how it prints a UUID, are parameters.
\<close>

record 'w uuid_api =
  uu_random :: "'w \<Rightarrow> (exn + byte list) \<times> 'w"
  uu_print :: "byte list \<Rightarrow> string"

definition GenerateUUID :: "('w, 'x) uuid_api_scheme \<Rightarrow> ('w, string) prog" where
  "GenerateUUID uu w =
     (case uu_random uu w of
        (Inl e, w') \<Rightarrow> (Throw e, w')
      | (Inr uuid, w') \<Rightarrow> (Ret (uu_print uu uuid), w'))"

section \<open>Properties\<close>

lemma next_line_append: "fst (next_line s) @ snd (next_line s) = s"
  by (simp add: next_line_def split: option.split)

lemma c_str_clean: "NUL \<notin> set s \<Longrightarrow> c_str s = s"
  unfolding c_str_def by (rule takeWhile_snoc_all) auto

lemma read_output_clean: "NUL \<notin> set s \<Longrightarrow> read_output s str = str @ s"
proof (induction s str rule: read_output.induct)
  case (1 s str)
  show ?case
  proof (cases "s = []")
    case True
    then show ?thesis by (simp add: read_output.simps)
  next
    case False
    have "set (fst (next_line s)) \<union> set (snd (next_line s)) = set s"
      using next_line_append [of s] by (metis set_append)
    then have "NUL \<notin> set (fst (next_line s))" "NUL \<notin> set (snd (next_line s))" using 1(2) by auto
    then show ?thesis
      using 1(1) [OF False] False next_line_append [of s]
      by (subst read_output.simps) (simp add: c_str_clean)
  qed
qed

text \<open>
  Running a command. \<open>System\<close> comes back with the whole output of the command, put together
  from its lines, when the output has no null character and the command ended with status
  0; it throws a \<open>runtime_error\<close> exactly when the command cannot be started or its status is
  not 0.
\<close>

theorem System_output:
  assumes "System px command w = (r, w')"
  shows "r \<noteq> Hang \<and>
    (\<forall>output. px_popen px (c_str command) w = (Inr (output, 0), w') \<and> NUL \<notin> set output \<longrightarrow> r = Ret output) \<and>
    ((\<exists>e. r = Throw e) \<longleftrightarrow>
       (\<exists>err. fst (px_popen px (c_str command) w) = Inl err) \<or>
       (\<exists>output status. fst (px_popen px (c_str command) w) = Inr (output, status) \<and> status \<noteq> 0)) \<and>
    (\<forall>e. r = Throw e \<longrightarrow> (\<exists>m. e = RuntimeError m))"
  using assms
  by (auto simp: System_def Let_def read_output_clean split: prod.splits sum.splits if_splits)

definition demo_process :: "unit process_api" where
  "demo_process = \<lparr>px_popen = (\<lambda>cmd w. (Inr (''a'' @ [NL] @ ''b'', 0), w))\<rparr>"

theorem System_output_witness:
  "System demo_process ''ls'' () = (Ret (''a'' @ [NL] @ ''b''), ())"
proof -
  obtain r w' where s: "System demo_process ''ls'' () = (r, w')" by (metis prod.exhaust)
  have n: "NUL \<notin> set (''a'' @ [NL] @ ''b'')" by (simp add: NUL_def NL_def)
  have p: "px_popen demo_process (c_str ''ls'') () = (Inr (''a'' @ [NL] @ ''b'', 0), w')"
    by (simp add: demo_process_def)
  have "r = Ret (''a'' @ [NL] @ ''b'')" using System_output [OF s] p n by blast
  then show ?thesis using s by simp
qed

end
