(* ===== verification/Std_Map.thy ===== *)
theory Std_Map
  imports Prelude "HOL-Library.List_Lexorder" "HOL-Library.Char_ord"
begin

text \<open>
  \<open>std::map\<close> as the program uses it: ordered by key, and \<open>emplace\<close> and \<open>insert\<close> leave an
  entry alone whose key is already there. The locale \<open>std_map\<close> is the interface the
  clients see (the response headers and the configuration manager); it is interpreted on
  the association list sorted by key, which is also the order of iteration. Strings are
  ordered by \<open>char_traits<char>\<close>, that is, lexicographically by unsigned characters.
\<close>

section \<open>The interface\<close>

locale std_map =
  fixes empty :: 'm
    and emplace :: "'k \<Rightarrow> 'v \<Rightarrow> 'm \<Rightarrow> 'm"
    and find :: "'m \<Rightarrow> 'k \<Rightarrow> 'v option"
    and invar :: "'m \<Rightarrow> bool"
  assumes invar_empty: "invar empty"
    and invar_emplace: "invar m \<Longrightarrow> invar (emplace k v m)"
    and find_empty: "find empty k = None"
    and find_emplace_same: "invar m \<Longrightarrow>
      find (emplace k v m) k = (case find m k of None \<Rightarrow> Some v | Some v' \<Rightarrow> Some v')"
    and find_emplace_other: "invar m \<Longrightarrow> k' \<noteq> k \<Longrightarrow> find (emplace k v m) k' = find m k'"
begin

lemma find_emplace_present:
  "invar m \<Longrightarrow> find m k = Some v' \<Longrightarrow> find (emplace k v m) k' = find m k'"
  using find_emplace_same find_emplace_other by (cases "k' = k") auto

lemma find_emplace_absent:
  "invar m \<Longrightarrow> find m k = None \<Longrightarrow> find (emplace k v m) k' = (if k' = k then Some v else find m k')"
  using find_emplace_same find_emplace_other by auto

text \<open>Inserting a sequence of entries: for each key the first value wins.\<close>

lemma find_emplace_all:
  assumes "invar m"
  shows "find (foldl (\<lambda>m (k, v). emplace k v m) m kvs) k =
    (case find m k of Some v \<Rightarrow> Some v | None \<Rightarrow> map_of kvs k)"
  using assms
proof (induction kvs arbitrary: m)
  case Nil
  then show ?case by (simp split: option.split)
next
  case (Cons kv kvs)
  obtain k' v' where kv: "kv = (k', v')" by fastforce
  from Cons.IH [OF invar_emplace [OF Cons.prems]] Cons.prems
  show ?case
    by (cases "k = k'") (simp_all add: kv find_emplace_same find_emplace_other split: option.split)
qed

lemma invar_emplace_all:
  "invar m \<Longrightarrow> invar (foldl (\<lambda>m (k, v). emplace k v m) m kvs)"
  by (induction kvs arbitrary: m) (auto intro: invar_emplace)

end

section \<open>The sorted association list\<close>

type_synonym ('k, 'v) smap = "('k \<times> 'v) list"

fun smap_emplace :: "'k::linorder \<Rightarrow> 'v \<Rightarrow> ('k, 'v) smap \<Rightarrow> ('k, 'v) smap" where
  "smap_emplace k v [] = [(k, v)]"
| "smap_emplace k v ((k', v') # m) =
     (if k < k' then (k, v) # (k', v') # m
      else if k = k' then (k', v') # m
      else (k', v') # smap_emplace k v m)"

definition smap_find :: "('k, 'v) smap \<Rightarrow> 'k \<Rightarrow> 'v option" where
  "smap_find m k = map_of m k"

definition smap_ok :: "('k::linorder, 'v) smap \<Rightarrow> bool" where
  "smap_ok m \<longleftrightarrow> sorted_wrt (<) (map fst m)"

lemma fst_smap_emplace: "fst ` set (smap_emplace k v m) = insert k (fst ` set m)"
  by (induction k v m rule: smap_emplace.induct) auto

lemma smap_ok_emplace: "smap_ok m \<Longrightarrow> smap_ok (smap_emplace k v m)"
proof (induction m)
  case Nil
  then show ?case by (simp add: smap_ok_def)
next
  case (Cons a m)
  obtain k' v' where a: "a = (k', v')" by fastforce
  have tl: "smap_ok m" and lt: "\<forall>x \<in> fst ` set m. k' < x"
    using Cons.prems by (auto simp: smap_ok_def a)
  consider "k < k'" | "k = k'" | "k' < k" by fastforce
  then show ?case
  proof cases
    case 3
    then have "\<forall>x \<in> fst ` set (smap_emplace k v m). k' < x"
      using lt by (simp add: fst_smap_emplace)
    with 3 Cons.IH [OF tl] show ?thesis by (auto simp: smap_ok_def a)
  qed (use Cons.prems lt in \<open>auto simp: smap_ok_def a\<close>)
qed

lemma map_of_smap_emplace:
  assumes "smap_ok m"
  shows "map_of (smap_emplace k v m) k' =
    (if k' = k then (case map_of m k of None \<Rightarrow> Some v | Some v' \<Rightarrow> Some v') else map_of m k')"
  using assms
proof (induction m)
  case Nil
  then show ?case by simp
next
  case (Cons a m)
  obtain k1 v1 where a: "a = (k1, v1)" by fastforce
  have tl: "smap_ok m" and lt: "\<forall>x \<in> fst ` set m. k1 < x"
    using Cons.prems by (auto simp: smap_ok_def a)
  have "map_of m k = None" if "k < k1"
    using lt that by (fastforce simp: map_of_eq_None_iff)
  with Cons.IH [OF tl] show ?case by (auto simp: a)
qed

interpretation smap: std_map "[]" smap_emplace smap_find smap_ok
proof unfold_locales
  show "smap_ok []" by (simp add: smap_ok_def)
next
  fix m :: "('k::linorder, 'v) smap" and k :: 'k and v :: 'v
  assume "smap_ok m"
  then show "smap_ok (smap_emplace k v m)" by (rule smap_ok_emplace)
next
  fix k :: "'k::linorder"
  show "smap_find [] k = None" by (simp add: smap_find_def)
next
  fix m :: "('k::linorder, 'v) smap" and k :: 'k and v :: 'v
  assume "smap_ok m"
  then show "smap_find (smap_emplace k v m) k =
      (case smap_find m k of None \<Rightarrow> Some v | Some v' \<Rightarrow> Some v')"
    by (simp add: smap_find_def map_of_smap_emplace)
next
  fix m :: "('k::linorder, 'v) smap" and k k' :: 'k and v :: 'v
  assume "smap_ok m" "k' \<noteq> k"
  then show "smap_find (smap_emplace k v m) k' = smap_find m k'"
    by (simp add: smap_find_def map_of_smap_emplace)
qed

text \<open>Two sorted association lists with the same entries are equal.\<close>

lemma smap_ext:
  assumes "smap_ok m" and "smap_ok m'" and "\<And>k. smap_find m k = smap_find m' k"
  shows "m = m'"
proof -
  have d: "distinct (map fst x)" if "smap_ok x" for x :: "('k::linorder, 'v) smap"
    using that by (auto simp: smap_ok_def strict_sorted_iff)
  have ss: "set x = {(k, v). smap_find x k = Some v}" if "smap_ok x" for x :: "('k::linorder, 'v) smap"
    using d [OF that] by (auto simp: smap_find_def)
  have s: "set m = set m'"
    unfolding ss [OF assms(1)] ss [OF assms(2)] by (simp add: assms(3))
  have "inj_on fst (set m \<union> set m')"
    using s d [OF assms(1)] by (simp add: distinct_map)
  then show ?thesis
    using s assms(1,2)
    by (intro map_sorted_distinct_set_unique) (auto simp: smap_ok_def strict_sorted_iff)
qed

end
