(* ===== verification/Http_Types.thy ===== *)
theory Http_Types
  imports Cpp_String Std_Map
begin

text \<open>
  Models \<open>Daemon/common_utils/http_types.h\<close>: methods, status codes, requests, responses
  and transactions. The exception structs of that header are in \<open>Prelude\<close>.
\<close>

section \<open>Streams\<close>

text \<open>
  An input stream is its bytes, the read position and whether \<open>fail()\<close> holds. A read that
  runs past the end sets the fail bit; \<open>tellg\<close> of a failed stream is \<open>-1\<close> and \<open>seekg\<close>
  on it does nothing.
\<close>

record istream =
  is_data :: string
  is_pos :: nat
  is_failed :: bool

definition istream_of :: "string \<Rightarrow> istream" where
  "istream_of s = \<lparr>is_data = s, is_pos = 0, is_failed = False\<rparr>"

definition seekg_end :: "istream \<Rightarrow> istream" where
  "seekg_end st = (if is_failed st then st else st\<lparr>is_pos := length (is_data st)\<rparr>)"

definition seekg_beg :: "istream \<Rightarrow> istream" where
  "seekg_beg st = (if is_failed st then st else st\<lparr>is_pos := 0\<rparr>)"

definition tellg :: "istream \<Rightarrow> int" where
  "tellg st = (if is_failed st then -1 else int (is_pos st))"

definition istream_read :: "nat \<Rightarrow> istream \<Rightarrow> string \<times> istream" where
  "istream_read n st =
     (let left = drop (is_pos st) (is_data st)
      in if is_failed st then ([], st)
         else if n \<le> length left then (take n left, st\<lparr>is_pos := is_pos st + n\<rparr>)
         else (left, st\<lparr>is_pos := length (is_data st), is_failed := True\<rparr>))"

section \<open>Methods and status codes\<close>

datatype HTTPMethod = POST | GET | PUT | DEL

type_synonym HTTPStatusCode = int

definition HTTPStatusCodes :: "(string \<times> HTTPStatusCode) list" where
  "HTTPStatusCodes = [
     (''Continue'', 100), (''SwitchingProtocols'', 101), (''Processing'', 102),
     (''EarlyHints'', 103),
     (''OK'', 200), (''Created'', 201), (''Accepted'', 202),
     (''NonAuthoritativeInformation'', 203), (''NoContent'', 204), (''ResetContent'', 205),
     (''PartialContent'', 206), (''MultiStatus'', 207), (''AlreadyReported'', 208),
     (''IMUsed'', 226),
     (''MultipleChoices'', 300), (''MovedPermanently'', 301), (''Found'', 302),
     (''SeeOther'', 303), (''NotModified'', 304), (''UseProxy'', 305),
     (''TemporaryRedirect'', 307), (''PermanentRedirect'', 308),
     (''BadRequest'', 400), (''Unauthorized'', 401), (''PaymentRequired'', 402),
     (''Forbidden'', 403), (''NotFound'', 404), (''MethodNotAllowed'', 405),
     (''NotAcceptable'', 406), (''ProxyAuthenticationRequired'', 407),
     (''RequestTimeout'', 408), (''Conflict'', 409), (''Gone'', 410),
     (''LengthRequired'', 411), (''PreconditionFailed'', 412), (''PayloadTooLarge'', 413),
     (''URITooLong'', 414), (''UnsupportedMediaType'', 415), (''RangeNotSatisfiable'', 416),
     (''ExpectationFailed'', 417), (''MisdirectedRequest'', 421),
     (''UnprocessableEntity'', 422), (''Locked'', 423), (''FailedDependency'', 424),
     (''TooEarly'', 425), (''UpgradeRequired'', 426), (''Unassigned'', 427),
     (''PreconditionRequired'', 428), (''TooManyRequests'', 429),
     (''RequestHeaderFieldsTooLarge'', 431), (''UnavailableForLegalReasons'', 451),
     (''InternalServerError'', 500), (''NotImplemented'', 501), (''BadGateway'', 502),
     (''ServiceUnavailable'', 503), (''GatewayTimeout'', 504),
     (''HTTPVersionNotSupported'', 505), (''VariantAlsoNegotiates'', 506),
     (''InsufficientStorage'', 507), (''LoopDetected'', 508), (''NotExtended'', 510),
     (''NetworkAuthenticationRequired'', 511)]"

definition status_NoContent :: HTTPStatusCode where
  "status_NoContent = 204"

definition is_success :: "HTTPStatusCode \<Rightarrow> bool" where
  "is_success code \<longleftrightarrow> code \<ge> 200 \<and> code \<le> 299"

section \<open>Requests, responses, transactions\<close>

type_synonym HTTPHeaders = "(string, string) smap"
type_synonym HTTPFormData = "(string \<times> string) list"

record HTTPRequest =
  rq_method :: HTTPMethod
  rq_url :: string
  rq_data :: "istream option"
  rq_headers :: HTTPHeaders
  rq_form_data :: HTTPFormData
  rq_ca_cert_bundle :: "istream option"

text \<open>The sink of a response is what has been written to its stream, \<open>None\<close> a null pointer.\<close>

record HTTPResponse =
  rs_data :: "string option"
  rs_headers :: HTTPHeaders
  rs_status_code :: HTTPStatusCode

record HTTPTransactionData =
  request :: HTTPRequest
  response :: HTTPResponse
  read_timeout_sec :: uint32
  connection_timeout_sec :: uint32

record Uri =
  uri_protocol :: string
  uri_host :: string
  uri_port :: string
  uri_path :: string
  uri_query :: string

definition Uri_empty :: "Uri \<Rightarrow> bool" where
  "Uri_empty u \<longleftrightarrow> uri_protocol u = [] \<and> uri_host u = [] \<and> uri_port u = [] \<and>
     uri_path u = [] \<and> uri_query u = []"

section \<open>Lemmas on streams\<close>

lemma istream_read_left:
  assumes "\<not> is_failed st" and "n \<le> length (drop (is_pos st) (is_data st))"
  shows "istream_read n st = (take n (drop (is_pos st) (is_data st)), st\<lparr>is_pos := is_pos st + n\<rparr>)"
  using assms by (simp add: istream_read_def Let_def)

lemma length_istream_read: "length (fst (istream_read n st)) \<le> n"
  by (auto simp: istream_read_def Let_def)

end
