(* ===== verification/Byte_Source.thy ===== *)
theory Byte_Source
  imports Prelude
begin

text \<open>
  The interface between a transfer library and a callback that supplies it with bytes:
  each call offers a buffer of some size, and the callback fills it with the next bytes.
  The lemmas say what any sequence of calls gets. \<open>Http_Callbacks\<close> interprets the locale
  on the upload callback of a transaction.
\<close>

text \<open>The bytes that a sequence of calls with the given buffer sizes delivers.\<close>

fun pull :: "(nat \<Rightarrow> 's \<Rightarrow> string \<times> 's) \<Rightarrow> nat list \<Rightarrow> 's \<Rightarrow> string" where
  "pull read [] s = []"
| "pull read (n # ns) s = fst (read n s) @ pull read ns (snd (read n s))"

locale byte_source =
  fixes read :: "nat \<Rightarrow> 's \<Rightarrow> string \<times> 's"
    and rest :: "'s \<Rightarrow> string"
    and ok :: "'s \<Rightarrow> bool"
    and limit :: nat
  assumes read_bytes: "ok s \<Longrightarrow> n \<le> limit \<Longrightarrow> fst (read n s) = take n (rest s)"
    and rest_read: "ok s \<Longrightarrow> n \<le> limit \<Longrightarrow> rest (snd (read n s)) = drop n (rest s)"
    and ok_read: "ok s \<Longrightarrow> n \<le> limit \<Longrightarrow> ok (snd (read n s))"
begin

lemma pull_take:
  assumes "ok s" and "\<forall>n \<in> set ns. n \<le> limit"
  shows "pull read ns s = take (sum_list ns) (rest s)"
  using assms
proof (induction ns arbitrary: s)
  case Nil
  then show ?case by simp
next
  case (Cons n ns)
  then show ?case by (simp add: read_bytes rest_read ok_read take_add)
qed

lemma pull_all:
  "ok s \<Longrightarrow> \<forall>n \<in> set ns. n \<le> limit \<Longrightarrow> length (rest s) \<le> sum_list ns \<Longrightarrow> pull read ns s = rest s"
  by (simp add: pull_take)

lemma read_within: "ok s \<Longrightarrow> n \<le> limit \<Longrightarrow> length (fst (read n s)) \<le> n"
  by (simp add: read_bytes)

lemma read_end: "ok s \<Longrightarrow> 0 < n \<Longrightarrow> n \<le> limit \<Longrightarrow> fst (read n s) = [] \<longleftrightarrow> rest s = []"
  by (simp add: read_bytes)

end

end
