(* ===== verification/Http_Callbacks.thy ===== *)
theory Http_Callbacks
  imports Http_Types Byte_Source
begin

text \<open>
  Models the parts of \<open>Daemon/common_utils/http_transaction.cpp\<close> that libcurl calls back
  or that work on the transaction's own data: the upload size, the read, write and header
  callbacks, the header parser, and the callback that loads the CA bundle. The OpenSSL
  functions are parameters.
\<close>

section \<open>The transaction\<close>

text \<open>The options \<open>InitConnection\<close> can set, with their values.\<close>

datatype curl_opt =
    NOSIGNAL
  | OPT_URL string
  | CUSTOMREQUEST string
  | HTTPHEADER "string list"
  | NOPROGRESS
  | TIMEOUT uint32
  | FOLLOWLOCATION
  | CONNECTTIMEOUT uint32
  | SSL_VERIFYPEER bool
  | SSL_VERIFYHOST nat
  | SSL_CTX_FUNCTION
  | SSL_CTX_DATA
  | READFUNCTION
  | READDATA
  | INFILESIZE_LARGE size_t
  | UPLOAD
  | HTTPPOST "(string \<times> string) list"
  | WRITEFUNCTION
  | WRITEDATA
  | HEADERFUNCTION
  | HEADERDATA

text \<open>
  The members of the class, in the order they are declared. \<open>responseHeadersData\<close> is what
  the string stream still holds, \<open>connection\<close> the options set on the handle.
\<close>

record HTTPTransaction =
  httpTransaction :: HTTPTransactionData
  uploadDataSize :: size_t
  hdr_slist :: "string list"
  responseHeadersData :: string
  formData :: "(string \<times> string) list"
  connection :: "curl_opt list"
  completed :: bool

abbreviation upload_stream :: "HTTPTransaction \<Rightarrow> istream option" where
  "upload_stream t \<equiv> rq_data (request (httpTransaction t))"

definition set_upload_stream :: "istream \<Rightarrow> HTTPTransaction \<Rightarrow> HTTPTransaction" where
  "set_upload_stream st t =
     t\<lparr>httpTransaction := httpTransaction t
        \<lparr>request := request (httpTransaction t)\<lparr>rq_data := Some st\<rparr>\<rparr>\<rparr>"

definition set_response :: "HTTPResponse \<Rightarrow> HTTPTransaction \<Rightarrow> HTTPTransaction" where
  "set_response r t = t\<lparr>httpTransaction := httpTransaction t\<lparr>response := r\<rparr>\<rparr>"

section \<open>Upload\<close>

text \<open>\<open>CalculateUploadDataSize\<close> also moves the stream: first to its end, then back.\<close>

definition CalculateUploadDataSize :: "istream option \<Rightarrow> size_t \<times> istream option" where
  "CalculateUploadDataSize upload_data =
     (case upload_data of
        Some st \<Rightarrow>
          (let st1 = seekg_end st;
               upload_data_size = of_int (tellg st1)
           in (upload_data_size, Some (seekg_beg st1)))
      | None \<Rightarrow> (0, None))"

text \<open>
  The read callback: what it returns, the bytes it puts into the buffer, and the
  transaction afterwards. A null stream fails the assertion (\<open>None\<close>).
\<close>

definition Read ::
  "size_t \<Rightarrow> size_t \<Rightarrow> HTTPTransaction \<Rightarrow> ((size_t \<times> string) \<times> HTTPTransaction) option" where
  "Read element_size elements_count t =
     (case upload_stream t of
        None \<Rightarrow> None
      | Some st \<Rightarrow>
          (let max_data_size = elements_count * element_size;
               bytes_left = uploadDataSize t - of_int (tellg st);
               read_size = (if bytes_left > max_data_size then max_data_size else bytes_left)
           in if read_size \<noteq> 0
              then (case istream_read (unat read_size) st of
                      (bytes, st') \<Rightarrow> Some ((read_size, bytes), set_upload_stream st' t))
              else Some ((read_size, []), t)))"

definition ReadCallback ::
  "size_t \<Rightarrow> size_t \<Rightarrow> HTTPTransaction option \<Rightarrow>
     ((size_t \<times> string) \<times> HTTPTransaction) option" where
  "ReadCallback element_size elements_count cookie =
     (case cookie of None \<Rightarrow> None | Some self \<Rightarrow> Read element_size elements_count self)"

section \<open>Download\<close>

definition Write ::
  "string \<Rightarrow> size_t \<Rightarrow> size_t \<Rightarrow> HTTPTransaction \<Rightarrow> size_t \<times> HTTPTransaction" where
  "Write data element_size elements_count t =
     (let r = response (httpTransaction t);
          data_size = elements_count * element_size
      in (data_size,
          case rs_data r of
            Some sink \<Rightarrow> set_response (r\<lparr>rs_data := Some (sink @ take (unat data_size) data)\<rparr>) t
          | None \<Rightarrow> t))"

definition WriteCallback ::
  "string \<Rightarrow> size_t \<Rightarrow> size_t \<Rightarrow> HTTPTransaction option \<Rightarrow> (size_t \<times> HTTPTransaction) option" where
  "WriteCallback data element_size elements_count cookie =
     (case cookie of None \<Rightarrow> None | Some self \<Rightarrow> Some (Write data element_size elements_count self))"

definition ProcessResponseHeaders ::
  "string \<Rightarrow> size_t \<Rightarrow> size_t \<Rightarrow> HTTPTransaction \<Rightarrow> size_t \<times> HTTPTransaction" where
  "ProcessResponseHeaders data element_size elements_count t =
     (let headers_data_size = elements_count * element_size
      in (headers_data_size,
          t\<lparr>responseHeadersData :=
              responseHeadersData t @ take (unat headers_data_size) data\<rparr>))"

definition HeaderCallback ::
  "string \<Rightarrow> size_t \<Rightarrow> size_t \<Rightarrow> HTTPTransaction option \<Rightarrow> (size_t \<times> HTTPTransaction) option" where
  "HeaderCallback data element_size elements_count cookie =
     (case cookie of
        None \<Rightarrow> None
      | Some self \<Rightarrow> Some (ProcessResponseHeaders data element_size elements_count self))"

section \<open>Parsing the response headers\<close>

definition trim_chars :: string where
  "trim_chars = [CHR '' '', CR]"

definition Trim :: "string \<Rightarrow> string" where
  "Trim str =
     (let str1 = erase 0 (find_first_not_of trim_chars str) str
      in case find_last_not_of trim_chars str1 of
           Some end_pos \<Rightarrow> erase (end_pos + 1) None str1
         | None \<Rightarrow> str1)"

definition add_header_line :: "string \<Rightarrow> HTTPHeaders \<Rightarrow> HTTPHeaders" where
  "add_header_line header hs =
     (case find_char CHR '':'' header of
        Some delimiter_index \<Rightarrow>
          smap_emplace (Trim (substr 0 (Some delimiter_index) header))
            (Trim (substr (delimiter_index + 1) None header)) hs
      | None \<Rightarrow> hs)"

function parse_headers_loop :: "string \<Rightarrow> HTTPHeaders \<Rightarrow> HTTPHeaders" where
  "parse_headers_loop stream hs =
     (case getline stream of
        None \<Rightarrow> hs
      | Some (header, stream') \<Rightarrow> parse_headers_loop stream' (add_header_line header hs))"
  by pat_completeness auto
termination
  by (relation "measure (\<lambda>(s, hs). length s)") (auto dest: getline_length)

declare parse_headers_loop.simps [simp del]

definition ParseResponseHeaders :: "HTTPTransaction \<Rightarrow> HTTPTransaction" where
  "ParseResponseHeaders t =
     (let r = response (httpTransaction t)
      in set_response
           (r\<lparr>rs_headers := parse_headers_loop (responseHeadersData t) (rs_headers r)\<rparr>)
           (t\<lparr>responseHeadersData := []\<rparr>))"

section \<open>Loading the CA bundle\<close>

datatype curlcode =
    CURLE_OK
  | CURLE_RECV_ERROR
  | CURLE_SEND_ERROR
  | CURLE_COULDNT_CONNECT
  | CURLE_COULDNT_RESOLVE_PROXY
  | CURLE_COULDNT_RESOLVE_HOST
  | CURLE_OPERATION_TIMEDOUT
  | CURLE_SSL_CERTPROBLEM
  | CURLE_SSL_CIPHER
  | CURLE_SSL_CACERT
  | CURLE_SSL_CACERT_BADFILE
  | CURLE_OUT_OF_MEMORY
  | CURLE_OTHER nat

text \<open>
  What is called of OpenSSL and of the allocator: reading the certificates and revocation
  lists out of a PEM text (\<open>None\<close> when nothing can be parsed), and the exception the
  allocation of a buffer raises, if it does.
\<close>

record ('cert, 'crl) ssl_api =
  PEM_X509_INFO_read :: "string \<Rightarrow> ('cert option \<times> 'crl option) list option"
  vector_alloc :: "nat \<Rightarrow> exn option"

text \<open>\<open>BIO_new_mem_buf(buf, int len)\<close>: the length is cut to a signed 32-bit integer, and a
  negative length means a zero-terminated string.\<close>

definition mem_buf :: "string \<Rightarrow> string" where
  "mem_buf buf =
     (let len = sint (of_nat (length buf) :: cint)
      in if len < 0 then c_str buf else take (nat len) buf)"

fun add_infos ::
  "('cert option \<times> 'crl option) list \<Rightarrow> 'cert list \<times> 'crl list \<Rightarrow> 'cert list \<times> 'crl list" where
  "add_infos [] store = store"
| "add_infos ((x509, crl) # infos) (certs, crls) =
     add_infos infos
       (certs @ (case x509 of Some c \<Rightarrow> [c] | None \<Rightarrow> []),
        crls @ (case crl of Some r \<Rightarrow> [r] | None \<Rightarrow> []))"

text \<open>The callback on the bundle's stream and the certificate store of the context.\<close>

definition Process_SSL_CTX ::
  "('cert, 'crl, 'x) ssl_api_scheme \<Rightarrow> istream \<Rightarrow> 'cert list \<times> 'crl list \<Rightarrow>
     curlcode \<times> istream \<times> 'cert list \<times> 'crl list" where
  "Process_SSL_CTX ssl bundle store =
     (if is_failed bundle then (CURLE_SSL_CERTPROBLEM, bundle, store)
      else
        let st1 = seekg_end bundle;
            ca_data_size = nat (tellg st1);
            st2 = seekg_beg st1
        in case vector_alloc ssl ca_data_size of
             Some BadAlloc \<Rightarrow> (CURLE_OUT_OF_MEMORY, st2, store)
           | Some _ \<Rightarrow> (CURLE_SSL_CERTPROBLEM, st2, store)
           | None \<Rightarrow>
               (let (ca_buf, st3) = (if ca_data_size > 0 then istream_read ca_data_size st2 else ([], st2))
                in case PEM_X509_INFO_read ssl (mem_buf ca_buf) of
                     None \<Rightarrow> (CURLE_SSL_CACERT_BADFILE, st3, store)
                   | Some infos \<Rightarrow>
                       if length infos = 0 then (CURLE_SSL_CACERT_BADFILE, st3, store)
                       else (CURLE_OK, st3, add_infos infos store)))"

text \<open>The cookie is the transaction, whose request holds the bundle; \<open>assert\<close> stops on a null.\<close>

definition SSL_CTX_Callback ::
  "('cert, 'crl, 'x) ssl_api_scheme \<Rightarrow> istream option \<Rightarrow> 'cert list \<times> 'crl list \<Rightarrow>
     (curlcode \<times> istream \<times> 'cert list \<times> 'crl list) option" where
  "SSL_CTX_Callback ssl cookie store =
     (case cookie of None \<Rightarrow> None | Some bundle \<Rightarrow> Some (Process_SSL_CTX ssl bundle store))"

section \<open>Lemmas on trimming\<close>

abbreviation trimmable :: "char \<Rightarrow> bool" where
  "trimmable c \<equiv> c \<in> set trim_chars"

lemma find_last_take:
  assumes "find_last P s = Some i"
  shows "take (Suc i) s = rev (dropWhile (\<lambda>x. \<not> P x) (rev s))"
proof -
  note f = find_last_Some [OF assms]
  have "rev s = rev (drop (Suc i) s) @ s ! i # rev (take i s)"
    using find_last_decomp [OF assms] by (metis append.assoc append_Cons append_Nil rev.simps(2) rev_append)
  moreover have "\<forall>x \<in> set (rev (drop (Suc i) s)). \<not> P x" using f(3) by simp
  ultimately have "dropWhile (\<lambda>x. \<not> P x) (rev s) = s ! i # rev (take i s)"
    using f(2) takeWhile_append_stop(2) [of "rev (drop (Suc i) s)" "\<lambda>x. \<not> P x" "s ! i"] by simp
  then show ?thesis using f(1) by (simp add: take_Suc_conv_app_nth)
qed

lemma Trim_eq: "Trim s = rev (dropWhile trimmable (rev (dropWhile trimmable s)))"
proof -
  define s1 where "s1 = dropWhile trimmable s"
  have s1: "erase 0 (find_first_not_of trim_chars s) s = s1"
    by (simp add: s1_def find_first_not_of_erase)
  show ?thesis
  proof (cases "find_last_not_of trim_chars s1")
    case None
    then have "\<forall>x \<in> set s1. trimmable x"
      by (auto simp: find_last_not_of_def find_last_None)
    then have "s1 = []"
      unfolding s1_def by (metis dropWhile_eq_Nil_conv hd_dropWhile hd_in_set)
    with None show ?thesis by (simp add: Trim_def s1 s1_def [symmetric])
  next
    case (Some i)
    then have "Trim s = take (Suc i) s1"
      unfolding Trim_def s1 Let_def by (simp add: erase_def)
    with Some show ?thesis
      using find_last_take [of "\<lambda>x. \<not> trimmable x" s1 i]
      by (simp add: s1_def [symmetric] find_last_not_of_def)
  qed
qed

lemma Trim_clean:
  assumes "s = [] \<or> (\<not> trimmable (hd s) \<and> \<not> trimmable (last s))"
  shows "Trim s = s"
proof (cases s)
  case Nil
  then show ?thesis by (simp add: Trim_eq)
next
  case (Cons c cs)
  then have "hd (rev s) = last s" by (simp only: hd_rev)
  with Cons assms have "dropWhile trimmable s = s" and "dropWhile trimmable (rev s) = rev s"
    by (simp_all add: dropWhile_eq_self_iff del: rev.simps)
  then show ?thesis by (simp only: Trim_eq rev_rev_ident)
qed

lemma Trim_padded:
  assumes "set p \<subseteq> set trim_chars" and "set q \<subseteq> set trim_chars"
  shows "Trim (p @ s @ q) = Trim s"
proof -
  have p: "dropWhile trimmable (p @ s @ q) = dropWhile trimmable (s @ q)"
    by (rule dropWhile_append2) (use assms(1) in auto)
  show ?thesis
  proof (cases "set s \<subseteq> set trim_chars")
    case True
    then have "dropWhile trimmable (s @ q) = []" and s: "dropWhile trimmable s = []"
      using assms(2) by auto
    with p have "dropWhile trimmable (p @ s @ q) = []" by simp
    with s show ?thesis by (simp only: Trim_eq)
  next
    case False
    then obtain x where "x \<in> set s" "\<not> trimmable x" by blast
    then have "dropWhile trimmable (s @ q) = dropWhile trimmable s @ q"
      by (rule dropWhile_append1)
    moreover have "dropWhile trimmable (rev q @ xs) = dropWhile trimmable xs" for xs
      by (rule dropWhile_append2) (use assms(2) in auto)
    ultimately show ?thesis using p by (simp add: Trim_eq)
  qed
qed

section \<open>Lemmas on the response headers\<close>

text \<open>The name and value pairs of a block of header lines, in the order of the lines.\<close>

definition header_entry :: "string \<Rightarrow> (string \<times> string) option" where
  "header_entry line =
     map_option (\<lambda>i. (Trim (take i line), Trim (drop (i + 1) line))) (find_char CHR '':'' line)"

fun stream_lines :: "nat \<Rightarrow> string \<Rightarrow> string list" where
  "stream_lines 0 s = []"
| "stream_lines (Suc n) s =
     (case getline s of None \<Rightarrow> [] | Some (l, r) \<Rightarrow> l # stream_lines n r)"

definition header_entries :: "string \<Rightarrow> (string \<times> string) list" where
  "header_entries s = List.map_filter header_entry (stream_lines (length s) s)"

lemma stream_lines_fuel: "length s \<le> n \<Longrightarrow> stream_lines n s = stream_lines (length s) s"
proof (induction "length s" arbitrary: s n rule: less_induct)
  case less
  show ?case
  proof (cases "getline s")
    case None
    then have "s = []" by (simp add: getline_def split: if_splits)
    then show ?thesis by (cases n) (simp_all add: getline_def)
  next
    case (Some lr)
    obtain l r where lr: "lr = (l, r)" by fastforce
    have lt: "length r < length s" using Some lr getline_length by blast
    then obtain m k where "n = Suc m" "length s = Suc k" "length r \<le> m" "length r \<le> k"
      using less.prems by (cases n; cases "length s") auto
    then show ?thesis
      using Some lr less.hyps [OF lt, of m] less.hyps [OF lt, of k] by simp
  qed
qed

lemma add_header_line_entry:
  "add_header_line l hs = (case header_entry l of None \<Rightarrow> hs | Some (k, v) \<Rightarrow> smap_emplace k v hs)"
  by (simp add: add_header_line_def header_entry_def substr_def split: option.split)

lemma header_entries_getline:
  "getline s = Some (l, r) \<Longrightarrow>
     header_entries s = (case header_entry l of None \<Rightarrow> [] | Some e \<Rightarrow> [e]) @ header_entries r"
proof -
  assume g: "getline s = Some (l, r)"
  then have "length r < length s" by (rule getline_length)
  then obtain k where k: "length s = Suc k" "length r \<le> k" by (cases "length s") auto
  then show ?thesis
    using g stream_lines_fuel [OF k(2)]
    by (simp add: header_entries_def map_filter_simps split: option.split)
qed

lemma parse_headers_loop_foldl:
  "parse_headers_loop s hs = foldl (\<lambda>m (k, v). smap_emplace k v m) hs (header_entries s)"
proof (induction s hs rule: parse_headers_loop.induct)
  case (1 s hs)
  show ?case
  proof (cases "getline s")
    case None
    then have "s = []" by (simp add: getline_def split: if_splits)
    with None show ?thesis
      by (subst parse_headers_loop.simps) (simp add: header_entries_def map_filter_simps)
  next
    case (Some lr)
    obtain l r where lr: "lr = (l, r)" by fastforce
    with Some have "parse_headers_loop s hs = parse_headers_loop r (add_header_line l hs)"
      by (subst parse_headers_loop.simps) simp
    moreover note "1" [OF Some lr [symmetric]]
    moreover note header_entries_getline [OF Some [unfolded lr]]
    ultimately show ?thesis by (auto simp: add_header_line_entry split: option.split)
  qed
qed

lemma parse_headers_find:
  assumes "smap_ok hs"
  shows "smap_find (parse_headers_loop s hs) k =
    (case smap_find hs k of Some v \<Rightarrow> Some v | None \<Rightarrow> map_of (header_entries s) k)"
  using smap.find_emplace_all [OF assms, of "header_entries s" k]
  by (simp add: parse_headers_loop_foldl)

lemma parse_headers_ok: "smap_ok hs \<Longrightarrow> smap_ok (parse_headers_loop s hs)"
  using smap.invar_emplace_all [of hs "header_entries s"] by (simp add: parse_headers_loop_foldl)

lemma header_entries_Nil: "header_entries [] = []"
  by (simp add: header_entries_def map_filter_simps)

lemma header_entries_line:
  "NL \<notin> set l \<Longrightarrow> header_entries (l @ NL # r) =
     (case header_entry l of None \<Rightarrow> [] | Some e \<Rightarrow> [e]) @ header_entries r"
  by (rule header_entries_getline) simp

section \<open>Lemmas on the upload\<close>

text \<open>The transaction still has its upload stream in working order, and what is left of it.\<close>

definition upload_ok :: "HTTPTransaction \<Rightarrow> bool" where
  "upload_ok t \<longleftrightarrow>
     (case upload_stream t of
        None \<Rightarrow> False
      | Some st \<Rightarrow> \<not> is_failed st \<and> is_pos st \<le> length (is_data st) \<and>
          length (is_data st) < 2 ^ 64 \<and> uploadDataSize t = of_nat (length (is_data st)))"

definition upload_rest :: "HTTPTransaction \<Rightarrow> string" where
  "upload_rest t =
     (case upload_stream t of None \<Rightarrow> [] | Some st \<Rightarrow> drop (is_pos st) (is_data st))"

lemma upload_stream_set [simp]: "upload_stream (set_upload_stream st t) = Some st"
  by (simp add: set_upload_stream_def)

lemma uploadDataSize_set [simp]: "uploadDataSize (set_upload_stream st t) = uploadDataSize t"
  by (simp add: set_upload_stream_def)

lemma unat_of_nat_size: "n < 2 ^ 64 \<Longrightarrow> unat (of_nat n :: size_t) = n"
  by (simp add: unsigned_of_nat take_bit_nat_eq_self)

lemma Read_ok:
  fixes n es :: size_t
  assumes "upload_ok t"
  defines "bs \<equiv> take (unat (n * es)) (upload_rest t)"
  obtains t' where "Read es n t = Some ((of_nat (length bs), bs), t')"
    and "upload_ok t'" and "upload_rest t' = drop (unat (n * es)) (upload_rest t)"
proof -
  from assms(1) obtain st where st: "upload_stream t = Some st" "\<not> is_failed st"
    "is_pos st \<le> length (is_data st)" "length (is_data st) < 2 ^ 64"
    "uploadDataSize t = of_nat (length (is_data st))"
    by (auto simp: upload_ok_def split: option.splits)
  define left where "left = length (is_data st) - is_pos st"
  define m where "m = unat (n * es)"
  have left: "uploadDataSize t - of_int (tellg st) = of_nat left" "left < 2 ^ 64"
    using st by (auto simp: tellg_def left_def of_nat_diff)
  have rest: "upload_rest t = drop (is_pos st) (is_data st)" "length (upload_rest t) = left"
    using st by (simp_all add: upload_rest_def left_def)
  have gt: "of_nat left > n * es \<longleftrightarrow> m < left"
    using left(2) by (simp add: m_def word_less_nat_alt unat_of_nat_size)
  define rs where "rs = (if m < left then n * es else of_nat left)"
  have rs: "unat rs = min m left" and bs: "length bs = min m left"
    using left(2) by (auto simp: rs_def m_def bs_def rest unat_of_nat_size left_def min.commute)
  then have rs_of: "rs = of_nat (length bs)"
    by (metis of_nat_unat ucast_id)
  show thesis
  proof (cases "rs = 0")
    case True
    then have b: "bs = []" using rs bs by simp
    then have "upload_rest t = drop m (upload_rest t)"
      using bs rest(2) by (cases "m = 0") (auto simp: bs_def m_def)
    with True b that [of t] show thesis
      using st(1) left(1) gt assms(1) rs_of
      by (simp add: Read_def rs_def m_def [symmetric] Let_def split: if_splits)
  next
    case False
    have "istream_read (min m left) st =
        (take (min m left) (upload_rest t), st\<lparr>is_pos := is_pos st + min m left\<rparr>)"
      using istream_read_left [OF st(2), of "min m left"] by (simp add: rest left_def)
    moreover have "take (min m left) (upload_rest t) = bs"
      by (simp add: bs_def m_def rest(2) [symmetric] min_def)
    ultimately have "Read es n t =
        Some ((of_nat (length bs), bs), set_upload_stream (st\<lparr>is_pos := is_pos st + min m left\<rparr>) t)"
      using st(1) left(1) gt False rs rs_of
      by (auto simp: Read_def Let_def rs_def split: if_splits)
    moreover have "drop (min m left) (upload_rest t) = drop m (upload_rest t)"
      using rest(2) by (simp add: min_def)
    ultimately show thesis
      using that st(2-5) rest
      by (auto simp: upload_ok_def upload_rest_def left_def m_def add.commute)
  qed
qed

text \<open>One call of the read callback with elements of one byte, as libcurl makes it.\<close>

definition read_call :: "nat \<Rightarrow> HTTPTransaction \<Rightarrow> string \<times> HTTPTransaction" where
  "read_call n t =
     (case Read 1 (of_nat n) t of Some ((_, bytes), t') \<Rightarrow> (bytes, t') | None \<Rightarrow> ([], t))"

lemma read_call_ok:
  assumes "upload_ok t" and "n \<le> 2 ^ 64 - 1"
  shows "fst (read_call n t) = take n (upload_rest t)"
    and "upload_rest (snd (read_call n t)) = drop n (upload_rest t)"
    and "upload_ok (snd (read_call n t))"
proof -
  have "n < 2 ^ 64" using assms(2) by simp
  then have n: "unat (of_nat n * 1 :: size_t) = n" by (simp add: unat_of_nat_size)
  obtain t' where r: "Read 1 (of_nat n) t = Some ((of_nat (length (take n (upload_rest t))),
      take n (upload_rest t)), t')" "upload_ok t'" "upload_rest t' = drop n (upload_rest t)"
    using Read_ok [OF assms(1), where n = "of_nat n" and es = 1] unfolding n by metis
  show "fst (read_call n t) = take n (upload_rest t)"
    and "upload_rest (snd (read_call n t)) = drop n (upload_rest t)"
    and "upload_ok (snd (read_call n t))"
    using r by (simp_all add: read_call_def)
qed

interpretation upload: byte_source read_call upload_rest upload_ok "2 ^ 64 - 1"
  by unfold_locales (rule read_call_ok; assumption)+

end
