(* ===== verification/Http_Transaction.thy ===== *)
theory Http_Transaction
  imports Http_Callbacks
begin

text \<open>
  Models the transaction class of \<open>Daemon/common_utils/http_transaction.cpp\<close>: building
  the header list, the form and the curl handle, performing the transfer with its error
  mapping, and \<open>PerformGet\<close>. libcurl is a parameter, a record of functions over a world:
  whether a handle can be made, whether an option is accepted, what happens during a
  transfer (the callbacks libcurl makes, in order, and the code it ends with), and the
  response code.
\<close>

section \<open>libcurl\<close>

text \<open>A call of one of the three transfer callbacks; the sizes are those of the buffer.\<close>

datatype curl_event =
    EvHeader string size_t size_t
  | EvBody string size_t size_t
  | EvRead size_t size_t

record 'w curl_api =
  cu_easy_init :: "'w \<Rightarrow> bool \<times> 'w"
  cu_setopt :: "curl_opt \<Rightarrow> 'w \<Rightarrow> bool \<times> 'w"
  cu_perform :: "curl_opt list \<Rightarrow> HTTPTransactionData \<Rightarrow> 'w \<Rightarrow> (curl_event list \<times> curlcode) \<times> 'w"
  cu_response_code :: "'w \<Rightarrow> HTTPStatusCode option \<times> 'w"
  cu_strerror :: "curlcode \<Rightarrow> string"

section \<open>Building the transaction\<close>

definition GetMethodStr :: "HTTPMethod \<Rightarrow> string" where
  "GetMethodStr m =
     (case m of POST \<Rightarrow> ''POST'' | GET \<Rightarrow> ''GET'' | PUT \<Rightarrow> ''PUT'' | DEL \<Rightarrow> ''DELETE'')"

definition InitHeaders :: "HTTPHeaders \<Rightarrow> string list" where
  "InitHeaders headers = map (\<lambda>(k, v). c_str (k @ '': '' @ v)) headers"

definition InitFormData :: "HTTPFormData \<Rightarrow> (string \<times> string) list" where
  "InitFormData form_data = map (\<lambda>(k, v). (c_str k, c_str v)) form_data"

definition read_timeout :: "uint32 \<Rightarrow> uint32" where
  "read_timeout sec = (if sec = 0 \<or> sec > 300 then 60 else sec)"

definition connection_timeout :: "uint32 \<Rightarrow> uint32" where
  "connection_timeout sec = (if sec = 0 \<or> sec > 50 then 5 else sec)"

text \<open>The options in the order they are set.\<close>

definition connection_options ::
  "HTTPTransactionData \<Rightarrow> size_t \<Rightarrow> string list \<Rightarrow> (string \<times> string) list \<Rightarrow> curl_opt list" where
  "connection_options td upload_size headers form =
     [NOSIGNAL,
      OPT_URL (c_str (rq_url (request td))),
      CUSTOMREQUEST (GetMethodStr (rq_method (request td))),
      HTTPHEADER headers,
      NOPROGRESS,
      TIMEOUT (read_timeout (read_timeout_sec td)),
      FOLLOWLOCATION,
      CONNECTTIMEOUT (connection_timeout (connection_timeout_sec td))] @
     (if rq_ca_cert_bundle (request td) \<noteq> None
      then [SSL_VERIFYPEER True, SSL_VERIFYHOST 2, SSL_CTX_FUNCTION, SSL_CTX_DATA]
      else [SSL_VERIFYPEER False, SSL_VERIFYHOST 0]) @
     (if upload_size \<noteq> 0
      then [READFUNCTION, READDATA, INFILESIZE_LARGE upload_size, UPLOAD]
      else []) @
     (if rq_form_data (request td) \<noteq> [] then [HTTPPOST form] else []) @
     [WRITEFUNCTION, WRITEDATA, HEADERFUNCTION, HEADERDATA]"

definition throw_http :: "string \<Rightarrow> ('w, 'a) prog" where
  "throw_http msg = raise (Net (HTTPException msg))"

text \<open>\<open>ASSERT_THROW_HTTP_SUCCEED\<close> on a call: an exception unless the call succeeds.\<close>

definition assert_succeed :: "('w \<Rightarrow> bool \<times> 'w) \<Rightarrow> string \<Rightarrow> ('w, unit) prog" where
  "assert_succeed call text w =
     (case call w of
        (True, w') \<Rightarrow> (Ret (), w')
      | (False, w') \<Rightarrow> throw_http (text @ '' FAILED'') w')"

definition init_failed :: string where
  "init_failed = ''HTTP transaction initialization failed''"

definition InitConnection ::
  "('w, 'x) curl_api_scheme \<Rightarrow> HTTPTransactionData \<Rightarrow> size_t \<Rightarrow> string list \<Rightarrow>
     (string \<times> string) list \<Rightarrow> ('w, curl_opt list) prog" where
  "InitConnection cu td upload_size headers form =
     (let opts = connection_options td upload_size headers form
      in catchp
           (thenp (assert_succeed (cu_easy_init cu) ''!!curl'')
             (thenp (forM (\<lambda>opt. assert_succeed (cu_setopt cu opt) ''CURLE_OK == curl_easy_setopt'') opts)
               (ret opts)))
           (\<lambda>_. throw_http init_failed))"

text \<open>The constructor: the members are initialised in the order they are declared.\<close>

definition new_HTTPTransaction ::
  "('w, 'x) curl_api_scheme \<Rightarrow> HTTPTransactionData \<Rightarrow> ('w, HTTPTransaction) prog" where
  "new_HTTPTransaction cu td0 =
     (let (upload_size, upload) = CalculateUploadDataSize (rq_data (request td0));
          td = td0\<lparr>request := request td0\<lparr>rq_data := upload\<rparr>\<rparr>;
          headers = InitHeaders (rq_headers (request td));
          form = InitFormData (rq_form_data (request td))
      in bindp (InitConnection cu td upload_size headers form)
           (\<lambda>opts. ret
             \<lparr>httpTransaction = td, uploadDataSize = upload_size, hdr_slist = headers,
              responseHeadersData = [], formData = form, connection = opts,
              completed = False\<rparr>))"

section \<open>Performing the transfer\<close>

text \<open>A callback libcurl makes; the read callback only where it was installed.\<close>

fun apply_event :: "curl_event \<Rightarrow> HTTPTransaction \<Rightarrow> HTTPTransaction" where
  "apply_event (EvHeader data es n) t =
     (case HeaderCallback data es n (Some t) of Some (_, t') \<Rightarrow> t' | None \<Rightarrow> t)"
| "apply_event (EvBody data es n) t =
     (case WriteCallback data es n (Some t) of Some (_, t') \<Rightarrow> t' | None \<Rightarrow> t)"
| "apply_event (EvRead es n) t =
     (if READFUNCTION \<in> set (connection t)
      then (case ReadCallback es n (Some t) of Some (_, t') \<Rightarrow> t' | None \<Rightarrow> t)
      else t)"

definition is_network_error :: "curlcode \<Rightarrow> bool" where
  "is_network_error status \<longleftrightarrow>
     status = CURLE_RECV_ERROR \<or> status = CURLE_SEND_ERROR \<or> status = CURLE_COULDNT_CONNECT \<or>
     status = CURLE_COULDNT_RESOLVE_PROXY \<or> status = CURLE_COULDNT_RESOLVE_HOST \<or>
     status = CURLE_OPERATION_TIMEDOUT"

definition is_ssl_cert_error :: "curlcode \<Rightarrow> bool" where
  "is_ssl_cert_error status \<longleftrightarrow>
     status = CURLE_SSL_CERTPROBLEM \<or> status = CURLE_SSL_CIPHER \<or>
     status = CURLE_SSL_CACERT \<or> status = CURLE_SSL_CACERT_BADFILE"

definition set_status_code :: "HTTPStatusCode \<Rightarrow> HTTPTransaction \<Rightarrow> HTTPTransaction" where
  "set_status_code c t = set_response ((response (httpTransaction t))\<lparr>rs_status_code := c\<rparr>) t"

text \<open>The body of the \<open>try\<close> in \<open>Perform\<close>, on the transaction and libcurl's world.\<close>

definition perform_body ::
  "('w, 'x) curl_api_scheme \<Rightarrow> (HTTPTransaction \<times> 'w, unit) prog" where
  "perform_body cu tw =
     (let (t, w) = tw
      in if completed t
         then throw_http ''!completed Inapplicable operation: transaction completed!'' (t, w)
         else
           let ((events, transfer_status), w1) = cu_perform cu (connection t) (httpTransaction t) w;
               t1 = fold apply_event events t
           in if transfer_status \<noteq> CURLE_OK
              then if is_network_error transfer_status
                   then raise (Net (NetworkException (cu_strerror cu transfer_status))) (t1, w1)
                   else if is_ssl_cert_error transfer_status
                   then raise (Net (SSLCertificateException (cu_strerror cu transfer_status))) (t1, w1)
                   else throw_http ''CURLE_OK == transfer_status FAILED'' (t1, w1)
              else
                (case cu_response_code cu w1 of
                   (None, w2) \<Rightarrow>
                     throw_http ''CURLE_OK == curl_easy_getinfo(curl_handle, CURLINFO_RESPONSE_CODE, &httpTransaction.response.status_code) FAILED'' (t1, w2)
                 | (Some code, w2) \<Rightarrow>
                     (Ret (), ((ParseResponseHeaders (set_status_code code t1))\<lparr>completed := True\<rparr>, w2))))"

definition perform_handler :: "exn \<Rightarrow> ('s, 'a) prog" where
  "perform_handler e =
     (if is_SSLCertificateException e
      then raise (Net (SSLCertificateException ''HTTP operation failed, certificate is not valid''))
      else if is_NetworkException e then raise e
      else throw_http ''HTTP operation failed'')"

definition Perform ::
  "('w, 'x) curl_api_scheme \<Rightarrow> (HTTPTransaction \<times> 'w, unit) prog" where
  "Perform cu = catchp (perform_body cu) perform_handler"

section \<open>A GET request\<close>

definition get_request :: "string \<Rightarrow> HTTPRequest" where
  "get_request url =
     \<lparr>rq_method = GET, rq_url = url, rq_data = None, rq_headers = [], rq_form_data = [],
      rq_ca_cert_bundle = None\<rparr>"

definition get_transaction_data :: "string \<Rightarrow> HTTPTransactionData" where
  "get_transaction_data url =
     \<lparr>request = get_request url,
      response = \<lparr>rs_data = Some [], rs_headers = [], rs_status_code = status_NoContent\<rparr>,
      read_timeout_sec = 0, connection_timeout_sec = 0\<rparr>"

definition response_storage :: "HTTPTransaction \<Rightarrow> string" where
  "response_storage t = (case rs_data (response (httpTransaction t)) of Some s \<Rightarrow> s | None \<Rightarrow> [])"

text \<open>What follows \<open>transaction.Perform()\<close>: the exception goes on to the caller, otherwise
  the status decides.\<close>

definition get_result :: "unit outcome \<times> HTTPTransaction \<times> 'w \<Rightarrow> string outcome \<times> 'w" where
  "get_result r =
     (case r of
        (Ret _, t, w) \<Rightarrow>
          (let http_status_code = rs_status_code (response (httpTransaction t));
               storage = response_storage t
           in if http_status_code < 200 \<or> http_status_code \<ge> 300
              then throw_http (''server response is '' @ show_int http_status_code @ '' '' @ storage) w
              else (Ret storage, w))
      | (Throw e, _, w) \<Rightarrow> (Throw e, w)
      | (Hang, _, w) \<Rightarrow> (Hang, w))"

definition PerformGet :: "('w, 'x) curl_api_scheme \<Rightarrow> string \<Rightarrow> ('w, string) prog" where
  "PerformGet cu url =
     bindp (new_HTTPTransaction cu (get_transaction_data url)) (\<lambda>t w. get_result (Perform cu (t, w)))"

section \<open>Lemmas on building the transaction\<close>

text \<open>A sequence of calls that stops at the first that fails.\<close>

fun calls_ok :: "('w \<Rightarrow> bool \<times> 'w) list \<Rightarrow> 'w \<Rightarrow> bool \<times> 'w" where
  "calls_ok [] w = (True, w)"
| "calls_ok (c # cs) w = (case c w of (True, w') \<Rightarrow> calls_ok cs w' | (False, w') \<Rightarrow> (False, w'))"

lemma forM_assert_succeed:
  "forM (\<lambda>opt. assert_succeed (f opt) text) opts w =
     (case calls_ok (map f opts) w of
        (True, w') \<Rightarrow> (Ret (), w')
      | (False, w') \<Rightarrow> (Throw (Net (HTTPException (text @ '' FAILED''))), w'))"
  by (induction opts arbitrary: w)
    (auto simp: thenp_def bindp_def assert_succeed_def throw_http_def split: prod.splits bool.splits)

lemma InitConnection_calls:
  "InitConnection cu td n hs form w =
     (let opts = connection_options td n hs form
      in case calls_ok (cu_easy_init cu # map (cu_setopt cu) opts) w of
           (True, w') \<Rightarrow> (Ret opts, w')
         | (False, w') \<Rightarrow> (Throw (Net (HTTPException init_failed)), w'))"
  by (auto simp: InitConnection_def Let_def catchp_def thenp_def bindp_def assert_succeed_def
      throw_http_def forM_assert_succeed split: prod.splits bool.splits)

text \<open>The handle of \<open>PerformGet\<close>.\<close>

definition get_options :: "string \<Rightarrow> curl_opt list" where
  "get_options url = connection_options (get_transaction_data url) 0 [] []"

definition get_transaction :: "string \<Rightarrow> HTTPTransaction" where
  "get_transaction url =
     \<lparr>httpTransaction = get_transaction_data url, uploadDataSize = 0, hdr_slist = [],
      responseHeadersData = [], formData = [], connection = get_options url, completed = False\<rparr>"

lemma new_get_transaction:
  "new_HTTPTransaction cu (get_transaction_data url) w =
     (case calls_ok (cu_easy_init cu # map (cu_setopt cu) (get_options url)) w of
        (True, w') \<Rightarrow> (Ret (get_transaction url), w')
      | (False, w') \<Rightarrow> (Throw (Net (HTTPException init_failed)), w'))"
proof -
  have td: "get_transaction_data url\<lparr>request := request (get_transaction_data url)\<lparr>rq_data := None\<rparr>\<rparr>
      = get_transaction_data url"
    by (simp add: get_transaction_data_def get_request_def)
  have p: "rq_data (request (get_transaction_data url)) = None"
    "rq_headers (request (get_transaction_data url)) = []"
    "rq_form_data (request (get_transaction_data url)) = []"
    by (simp_all add: get_transaction_data_def get_request_def)
  show ?thesis
    by (simp add: new_HTTPTransaction_def CalculateUploadDataSize_def p td InitHeaders_def
        InitFormData_def bindp_def InitConnection_calls Let_def get_options_def [symmetric]
        get_transaction_def split: prod.splits bool.splits)
qed

section \<open>Lemmas on the callbacks of a transfer\<close>

fun body_bytes :: "curl_event \<Rightarrow> string" where
  "body_bytes (EvBody data es n) = take (unat (n * es)) data"
| "body_bytes _ = []"

fun header_bytes :: "curl_event \<Rightarrow> string" where
  "header_bytes (EvHeader data es n) = take (unat (n * es)) data"
| "header_bytes _ = []"

lemma set_response_simps [simp]:
  "response (httpTransaction (set_response r t)) = r"
  "completed (set_response r t) = completed t"
  "connection (set_response r t) = connection t"
  "responseHeadersData (set_response r t) = responseHeadersData t"
  "request (httpTransaction (set_response r t)) = request (httpTransaction t)"
  "uploadDataSize (set_response r t) = uploadDataSize t"
  by (simp_all add: set_response_def)

lemma set_upload_stream_simps [simp]:
  "response (httpTransaction (set_upload_stream st t)) = response (httpTransaction t)"
  "completed (set_upload_stream st t) = completed t"
  "connection (set_upload_stream st t) = connection t"
  "responseHeadersData (set_upload_stream st t) = responseHeadersData t"
  by (simp_all add: set_upload_stream_def)

lemma Read_frame:
  assumes "Read es n t = Some (rb, t')"
  shows "response (httpTransaction t') = response (httpTransaction t)"
    and "completed t' = completed t" and "connection t' = connection t"
    and "responseHeadersData t' = responseHeadersData t"
  using assms by (auto simp: Read_def Let_def split: option.splits if_splits prod.splits)

lemma apply_event_frame [simp]:
  "completed (apply_event ev t) = completed t"
  "connection (apply_event ev t) = connection t"
  by (cases ev; auto simp: HeaderCallback_def WriteCallback_def ReadCallback_def Write_def
      ProcessResponseHeaders_def Let_def split: option.splits prod.splits dest: Read_frame)+

lemma apply_event_response:
  "response (httpTransaction (apply_event ev t)) =
     (response (httpTransaction t))
       \<lparr>rs_data := map_option (\<lambda>s. s @ body_bytes ev) (rs_data (response (httpTransaction t)))\<rparr>"
  by (cases ev)
    (auto simp: HeaderCallback_def WriteCallback_def ReadCallback_def Write_def
      ProcessResponseHeaders_def Let_def Read_frame(1) map_option.id [unfolded id_def]
      split: option.splits prod.splits)

lemma apply_event_headers:
  "responseHeadersData (apply_event ev t) = responseHeadersData t @ header_bytes ev"
  by (cases ev)
    (auto simp: HeaderCallback_def WriteCallback_def ReadCallback_def Write_def
      ProcessResponseHeaders_def Let_def Read_frame(4) split: option.splits prod.splits)

lemma fold_events_frame [simp]:
  "completed (fold apply_event evs t) = completed t"
  "connection (fold apply_event evs t) = connection t"
  by (induction evs arbitrary: t) simp_all

lemma fold_events_response:
  "response (httpTransaction (fold apply_event evs t)) =
     (response (httpTransaction t))
       \<lparr>rs_data := map_option (\<lambda>s. s @ concat (map body_bytes evs))
                     (rs_data (response (httpTransaction t)))\<rparr>"
  by (induction evs arbitrary: t)
    (auto simp: apply_event_response option.map_comp comp_def map_option.id [unfolded id_def])

lemma fold_events_headers:
  "responseHeadersData (fold apply_event evs t) =
     responseHeadersData t @ concat (map header_bytes evs)"
  by (induction evs arbitrary: t) (auto simp: apply_event_headers)

section \<open>Lemmas on performing\<close>

text \<open>The exception a transfer that ended with a code other than \<open>CURLE_OK\<close> leaves with.\<close>

definition transport_exn :: "('w, 'x) curl_api_scheme \<Rightarrow> curlcode \<Rightarrow> exn" where
  "transport_exn cu code =
     (if is_network_error code then Net (NetworkException (cu_strerror cu code))
      else if is_ssl_cert_error code
      then Net (SSLCertificateException ''HTTP operation failed, certificate is not valid'')
      else Net (HTTPException ''CURLE_OK == transfer_status FAILED''))"

lemma transport_exn_network: "is_NetworkException (transport_exn cu code)"
  by (simp add: transport_exn_def)

lemma Perform_transfer_failed:
  assumes "\<not> completed t" and "cu_perform cu (connection t) (httpTransaction t) w = ((evs, code), w1)"
    and "code \<noteq> CURLE_OK"
  shows "Perform cu (t, w) = (Throw (transport_exn cu code), (fold apply_event evs t, w1))"
  using assms
  by (auto simp: Perform_def catchp_def perform_body_def perform_handler_def transport_exn_def
      throw_http_def)

lemma Perform_no_status:
  assumes "\<not> completed t" and "cu_perform cu (connection t) (httpTransaction t) w = ((evs, CURLE_OK), w1)"
    and "cu_response_code cu w1 = (None, w2)"
  shows "\<exists>msg. Perform cu (t, w) = (Throw (Net (HTTPException msg)), (fold apply_event evs t, w2))"
  using assms
  by (auto simp: Perform_def catchp_def perform_body_def perform_handler_def throw_http_def)

lemma Perform_done:
  assumes "\<not> completed t" and "cu_perform cu (connection t) (httpTransaction t) w = ((evs, CURLE_OK), w1)"
    and "cu_response_code cu w1 = (Some code, w2)"
  shows "Perform cu (t, w) =
    (Ret (), ((ParseResponseHeaders (set_status_code code (fold apply_event evs t)))\<lparr>completed := True\<rparr>, w2))"
  using assms by (auto simp: Perform_def catchp_def perform_body_def)

lemma Perform_again:
  "completed t \<Longrightarrow> \<exists>msg. Perform cu (t, w) = (Throw (Net (HTTPException msg)), (t, w))"
  by (auto simp: Perform_def catchp_def perform_body_def perform_handler_def throw_http_def)

lemma Perform_cases:
  obtains (again) msg where "completed t" "Perform cu (t, w) = (Throw (Net (HTTPException msg)), (t, w))"
  | (failed) evs code w1 where "\<not> completed t"
      "cu_perform cu (connection t) (httpTransaction t) w = ((evs, code), w1)" "code \<noteq> CURLE_OK"
      "Perform cu (t, w) = (Throw (transport_exn cu code), (fold apply_event evs t, w1))"
  | (no_status) evs w1 w2 msg where "\<not> completed t"
      "cu_perform cu (connection t) (httpTransaction t) w = ((evs, CURLE_OK), w1)"
      "cu_response_code cu w1 = (None, w2)"
      "Perform cu (t, w) = (Throw (Net (HTTPException msg)), (fold apply_event evs t, w2))"
  | (finished) evs w1 w2 code where "\<not> completed t"
      "cu_perform cu (connection t) (httpTransaction t) w = ((evs, CURLE_OK), w1)"
      "cu_response_code cu w1 = (Some code, w2)"
      "Perform cu (t, w) =
         (Ret (), ((ParseResponseHeaders (set_status_code code (fold apply_event evs t)))\<lparr>completed := True\<rparr>, w2))"
proof (cases "completed t")
  case True
  obtain msg where "Perform cu (t, w) = (Throw (Net (HTTPException msg)), (t, w))"
    using Perform_again [OF True, of cu w] by blast
  with True show thesis by (rule again)
next
  case False
  obtain evs code w1 where p: "cu_perform cu (connection t) (httpTransaction t) w = ((evs, code), w1)"
    by (metis surj_pair)
  obtain r w2 where r: "cu_response_code cu w1 = (r, w2)" by fastforce
  show thesis
  proof (cases "code = CURLE_OK")
    case ok: True
    note p = p [unfolded ok]
    show thesis
    proof (cases r)
      case None
      note r = r [unfolded this]
      obtain msg where "Perform cu (t, w) =
          (Throw (Net (HTTPException msg)), (fold apply_event evs t, w2))"
        using Perform_no_status [OF False p r] by blast
      with False p r show thesis by (rule no_status)
    next
      case (Some c)
      note r = r [unfolded this]
      show thesis by (rule finished [OF False p r Perform_done [OF False p r]])
    qed
  next
    case no: False
    show thesis by (rule failed [OF False p no Perform_transfer_failed [OF False p no]])
  qed
qed

lemma ParseResponseHeaders_simps [simp]:
  "rs_data (response (httpTransaction (ParseResponseHeaders t))) = rs_data (response (httpTransaction t))"
  "rs_status_code (response (httpTransaction (ParseResponseHeaders t))) =
     rs_status_code (response (httpTransaction t))"
  "rs_headers (response (httpTransaction (ParseResponseHeaders t))) =
     parse_headers_loop (responseHeadersData t) (rs_headers (response (httpTransaction t)))"
  by (simp_all add: ParseResponseHeaders_def Let_def)

lemma get_transaction_simps [simp]:
  "completed (get_transaction url) = False"
  "connection (get_transaction url) = get_options url"
  "httpTransaction (get_transaction url) = get_transaction_data url"
  by (simp_all add: get_transaction_def)

text \<open>Everything that can happen in \<open>PerformGet\<close>.\<close>

lemma PerformGet_cases:
  obtains (no_handle) w' where
      "calls_ok (cu_easy_init cu # map (cu_setopt cu) (get_options url)) w = (False, w')"
      "PerformGet cu url w = (Throw (Net (HTTPException init_failed)), w')"
  | (failed) w0 evs code w' where
      "calls_ok (cu_easy_init cu # map (cu_setopt cu) (get_options url)) w = (True, w0)"
      "cu_perform cu (get_options url) (get_transaction_data url) w0 = ((evs, code), w')"
      "code \<noteq> CURLE_OK" "PerformGet cu url w = (Throw (transport_exn cu code), w')"
  | (no_status) w0 evs w1 msg w' where
      "calls_ok (cu_easy_init cu # map (cu_setopt cu) (get_options url)) w = (True, w0)"
      "cu_perform cu (get_options url) (get_transaction_data url) w0 = ((evs, CURLE_OK), w1)"
      "cu_response_code cu w1 = (None, w')"
      "PerformGet cu url w = (Throw (Net (HTTPException msg)), w')"
  | (finished) w0 evs w1 code w' where
      "calls_ok (cu_easy_init cu # map (cu_setopt cu) (get_options url)) w = (True, w0)"
      "cu_perform cu (get_options url) (get_transaction_data url) w0 = ((evs, CURLE_OK), w1)"
      "cu_response_code cu w1 = (Some code, w')"
      "PerformGet cu url w =
         (if code < 200 \<or> code \<ge> 300
          then (Throw (Net (HTTPException
                  (''server response is '' @ show_int code @ '' '' @ concat (map body_bytes evs)))), w')
          else (Ret (concat (map body_bytes evs)), w'))"
proof -
  obtain b w0 where calls: "calls_ok (cu_easy_init cu # map (cu_setopt cu) (get_options url)) w = (b, w0)"
    by fastforce
  show thesis
  proof (cases "b = True")
    case False
    then have "b = False" by simp
    note calls = calls [unfolded this]
    have "PerformGet cu url w = (Throw (Net (HTTPException init_failed)), w0)"
      unfolding PerformGet_def bindp_def new_get_transaction calls by simp
    with calls show thesis by (rule no_handle)
  next
    case True
    note made = calls [unfolded True]
    have pg: "PerformGet cu url w = get_result (Perform cu (get_transaction url, w0))"
      unfolding PerformGet_def bindp_def new_get_transaction made by simp
    show thesis
    proof (rule Perform_cases [of "get_transaction url" cu w0])
      fix msg
      assume "completed (get_transaction url)"
      then show thesis by simp
    next
      fix evs code w1
      assume "cu_perform cu (connection (get_transaction url)) (httpTransaction (get_transaction url)) w0 = ((evs, code), w1)"
        "code \<noteq> CURLE_OK"
        "Perform cu (get_transaction url, w0) = (Throw (transport_exn cu code), (fold apply_event evs (get_transaction url), w1))"
      with made pg failed show thesis by (simp add: get_result_def)
    next
      fix evs w1 w2 msg
      assume "cu_perform cu (connection (get_transaction url)) (httpTransaction (get_transaction url)) w0 = ((evs, CURLE_OK), w1)"
        "cu_response_code cu w1 = (None, w2)"
        "Perform cu (get_transaction url, w0) = (Throw (Net (HTTPException msg)), (fold apply_event evs (get_transaction url), w2))"
      with made pg no_status show thesis by (simp add: get_result_def)
    next
      fix evs w1 w2 code
      assume a: "cu_perform cu (connection (get_transaction url)) (httpTransaction (get_transaction url)) w0 = ((evs, CURLE_OK), w1)"
        "cu_response_code cu w1 = (Some code, w2)"
        "Perform cu (get_transaction url, w0) =
         (Ret (), ((ParseResponseHeaders (set_status_code code (fold apply_event evs (get_transaction url))))\<lparr>completed := True\<rparr>, w2))"
      have "rs_data (response (get_transaction_data url)) = Some []"
        by (simp add: get_transaction_data_def)
      with a made pg finished show thesis
        by (simp add: get_result_def response_storage_def set_status_code_def
            fold_events_response Let_def throw_http_def)
    qed
  qed
qed

end
