(* ===== verification/Http_Properties.thy ===== *)
theory Http_Properties
  imports Http_Transaction
begin

text \<open>
  The properties of the HTTP code: trimming and parsing of response headers, the upload
  and download callbacks, the options of a connection, the error mapping of \<open>Perform\<close>, and
  what \<open>PerformGet\<close> returns or throws.
\<close>

section \<open>A concrete libcurl for the witnesses\<close>

text \<open>
  Every call succeeds; each transfer takes the next canned result (a code, a status and a
  body delivered in one piece), and there is no connection when none is left.
\<close>

type_synonym demo_net = "(curlcode \<times> HTTPStatusCode \<times> string) list \<times> HTTPStatusCode"

definition demo_curl :: "demo_net curl_api" where
  "demo_curl = \<lparr>
     cu_easy_init = (\<lambda>w. (True, w)),
     cu_setopt = (\<lambda>_ w. (True, w)),
     cu_perform = (\<lambda>_ _ w.
       case fst w of
         [] \<Rightarrow> (([], CURLE_COULDNT_CONNECT), w)
       | (code, status, body) # rest \<Rightarrow>
           (([EvHeader (''HTTP/1.1 '' @ show_int status @ [CR, NL]) 1 (of_nat (length (''HTTP/1.1 '' @ show_int status) + 2)),
              EvBody body 1 (of_nat (length body))], code), (rest, status))),
     cu_response_code = (\<lambda>w. (Some (snd w), w)),
     cu_strerror = (\<lambda>_. ''transfer failed'')\<rparr>"

lemma demo_calls:
  "calls_ok (cu_easy_init demo_curl # map (cu_setopt demo_curl) opts) w = (True, w)"
proof -
  have "calls_ok (map (cu_setopt demo_curl) opts) w = (True, w)"
    by (induction opts) (simp_all add: demo_curl_def)
  then show ?thesis by (simp add: demo_curl_def)
qed

lemma demo_new: "\<exists>t. new_HTTPTransaction demo_curl td w = (Ret t, w)"
  unfolding new_HTTPTransaction_def bindp_def InitConnection_calls Let_def demo_calls
  by (simp split: prod.split)

section \<open>Response headers\<close>

definition clean_text :: "string \<Rightarrow> bool" where
  "clean_text s \<longleftrightarrow> NUL \<notin> set s \<and> NL \<notin> set s \<and> (s = [] \<or> (\<not> trimmable (hd s) \<and> \<not> trimmable (last s)))"

definition clean_header :: "string \<times> string \<Rightarrow> bool" where
  "clean_header kv \<longleftrightarrow> clean_text (fst kv) \<and> CHR '':'' \<notin> set (fst kv) \<and> clean_text (snd kv)"

text \<open>The lines of a header block as they go over the wire.\<close>

definition wire_lines :: "string list \<Rightarrow> string" where
  "wire_lines ls = concat (map (\<lambda>l. l @ [CR, NL]) ls)"

lemma header_entry_clean:
  assumes "clean_header (k, v)"
  shows "header_entry (k @ '': '' @ v @ [CR]) = Some (k, v)"
proof -
  have k: "CHR '':'' \<notin> set k" and tk: "Trim k = k" and tv: "Trim v = v"
    using assms by (auto simp: clean_header_def clean_text_def intro: Trim_clean)
  have "Trim ('' '' @ v @ [CR]) = v"
    using Trim_padded [of "'' ''" "[CR]" v] by (simp add: trim_chars_def tv)
  then show ?thesis
    using find_char_append [OF k, of "'' '' @ v @ [CR]"] by (simp add: header_entry_def tk)
qed

lemma special_chars: "NUL \<noteq> NL" "NUL \<noteq> CR" "NL \<noteq> CR" "NL \<noteq> CHR '':''" "NL \<noteq> CHR '' ''"
    "NUL \<noteq> CHR '':''" "NUL \<noteq> CHR '' ''"
  by (simp_all add: NUL_def NL_def CR_def)

lemma InitHeaders_line:
  assumes "clean_header (k, v)"
  shows "c_str (k @ '': '' @ v) = k @ '': '' @ v"
    and "NL \<notin> set (k @ '': '' @ v @ [CR])"
  using assms special_chars
  by (auto intro!: c_str_no_NUL simp: clean_header_def clean_text_def)

lemma header_entries_wire:
  "\<forall>kv \<in> set hs. clean_header kv \<Longrightarrow> header_entries (wire_lines (InitHeaders hs)) = hs"
proof (induction hs)
  case Nil
  then show ?case by (simp add: wire_lines_def InitHeaders_def header_entries_Nil)
next
  case (Cons kv hs)
  obtain k v where kv: "kv = (k, v)" by fastforce
  have c: "clean_header (k, v)" using Cons.prems kv by simp
  have "wire_lines (InitHeaders (kv # hs)) =
      (k @ '': '' @ v @ [CR]) @ NL # wire_lines (InitHeaders hs)"
    using InitHeaders_line(1) [OF c] by (simp add: wire_lines_def InitHeaders_def kv)
  then show ?case
    using Cons header_entries_line [OF InitHeaders_line(2) [OF c]] header_entry_clean [OF c]
    by (simp add: kv)
qed

text \<open>
  Trimming. \<open>Trim\<close> removes exactly the spaces and carriage returns at both ends: the
  string is the result with only such characters around it, the result neither starts nor
  ends with one, and trimming again changes nothing.
\<close>

theorem Trim_spec:
  "\<exists>p q. s = p @ Trim s @ q \<and> set p \<subseteq> set trim_chars \<and> set q \<subseteq> set trim_chars \<and>
     (Trim s \<noteq> [] \<longrightarrow> hd (Trim s) \<notin> set trim_chars \<and> last (Trim s) \<notin> set trim_chars) \<and>
     Trim (Trim s) = Trim s"
proof -
  define a where "a = dropWhile trimmable s"
  define b where "b = dropWhile trimmable (rev a)"
  have t: "Trim s = rev b" by (simp add: Trim_eq a_def b_def)
  have 1: "s = takeWhile trimmable s @ a" by (simp add: a_def)
  have 2: "a = rev b @ rev (takeWhile trimmable (rev a))"
    unfolding b_def by (metis rev_append rev_rev_ident takeWhile_dropWhile_id)
  have hd: "\<not> trimmable (hd (rev b))" if "b \<noteq> []"
  proof -
    have "hd a = hd (rev b)" by (subst 2) (use that in simp)
    moreover have "a \<noteq> []" using 2 that by auto
    ultimately show ?thesis unfolding a_def by (metis hd_dropWhile)
  qed
  have last: "\<not> trimmable (last (rev b))" if "b \<noteq> []"
    using that unfolding b_def by (metis hd_dropWhile last_rev)
  have "Trim (rev b) = rev b"
    using hd last by (intro Trim_clean) auto
  then show ?thesis
    using 1 2 hd last
    by (intro exI [of _ "takeWhile trimmable s"] exI [of _ "rev (takeWhile trimmable (rev a))"])
      (auto simp: t dest: set_takeWhileD)
qed

theorem Trim_spec_witness: "Trim ('' a b'' @ [CR]) = ''a b'' \<and> Trim (Trim '' x '') = Trim '' x ''"
proof -
  have "Trim ('' a b'' @ [CR]) = ''a b''" by code_simp
  then show ?thesis using Trim_spec [of "'' x ''"] by auto
qed

text \<open>
  C33: Header round trip. The header lines a request renders, sent as lines that end in CR
  LF, are parsed back by the response parser to the same map, for headers whose names hold
  no colon and whose texts hold no line ends and are already trimmed.
\<close>

theorem header_roundtrip:
  assumes "smap_ok hs" and "\<forall>kv \<in> set hs. clean_header kv"
  shows "parse_headers_loop (wire_lines (InitHeaders hs)) [] = hs"
proof (rule smap_ext)
  have ok: "smap_ok ([] :: HTTPHeaders)" by (rule smap.invar_empty)
  show "smap_ok (parse_headers_loop (wire_lines (InitHeaders hs)) [])"
    by (rule parse_headers_ok [OF ok])
  show "smap_ok hs" by fact
  show "smap_find (parse_headers_loop (wire_lines (InitHeaders hs)) []) k = smap_find hs k" for k
    using parse_headers_find [OF ok] header_entries_wire [OF assms(2)]
    by (simp add: smap.find_empty smap_find_def)
qed

theorem header_roundtrip_witness:
  "parse_headers_loop (wire_lines (InitHeaders [(''Accept'', ''*/*''), (''Host'', ''a:80'')])) []
     = [(''Accept'', ''*/*''), (''Host'', ''a:80'')]"
  by (rule header_roundtrip)
    (auto simp: smap_ok_def clean_header_def clean_text_def trim_chars_def NUL_def NL_def CR_def
      less_char_def)

text \<open>
  First header wins. After a transfer the response's header map still has the entries
  it had, and a name that it did not have gets the value of the first line of the header
  block with that name (also when several responses follow each other in one block); lines
  without a colon add nothing, and the block is consumed.
\<close>

theorem ParseResponseHeaders_first_wins:
  assumes "smap_ok (rs_headers (response (httpTransaction t)))"
  shows "smap_find (rs_headers (response (httpTransaction (ParseResponseHeaders t)))) k =
      (case smap_find (rs_headers (response (httpTransaction t))) k of
         Some v \<Rightarrow> Some v
       | None \<Rightarrow> map_of (header_entries (responseHeadersData t)) k) \<and>
    smap_ok (rs_headers (response (httpTransaction (ParseResponseHeaders t)))) \<and>
    responseHeadersData (ParseResponseHeaders t) = []"
  using parse_headers_find [OF assms] parse_headers_ok [OF assms]
  by (simp add: ParseResponseHeaders_def Let_def)

definition two_headers :: HTTPTransaction where
  "two_headers = (get_transaction ''u'')
     \<lparr>responseHeadersData := ''A: 1'' @ [CR, NL] @ ''A: 2'' @ [CR, NL]\<rparr>"

theorem ParseResponseHeaders_first_wins_witness:
  "smap_find (rs_headers (response (httpTransaction (ParseResponseHeaders two_headers)))) ''A'' = Some ''1''"
proof -
  have e: "rs_headers (response (httpTransaction two_headers)) = []"
    by (simp add: two_headers_def get_transaction_data_def)
  then have ok: "smap_ok (rs_headers (response (httpTransaction two_headers)))"
    by (simp add: smap_ok_def)
  have "map_of (header_entries (responseHeadersData two_headers)) ''A'' = Some ''1''"
    unfolding two_headers_def by code_simp
  then show ?thesis
    using ParseResponseHeaders_first_wins [OF ok, of "''A''"] by (simp add: e smap_find_def)
qed

section \<open>Upload and download\<close>

text \<open>
  C32: The upload is delivered exactly. For a request whose upload stream works, the new
  transaction announces the length of the data, and whatever buffers libcurl offers to the
  read callback, it gets the data from the beginning, in order and without gaps, as far as
  the buffers reach; buffers of at least the announced size in total get all of it.
\<close>

theorem upload_delivered:
  assumes "new_HTTPTransaction cu td w = (Ret t, w')"
    and "rq_data (request td) = Some st" and "\<not> is_failed st"
    and "length (is_data st) < 2 ^ 64" and "\<forall>n \<in> set ns. n < 2 ^ 64"
  shows "unat (uploadDataSize t) = length (is_data st) \<and>
    pull read_call ns t = take (sum_list ns) (is_data st) \<and>
    (unat (uploadDataSize t) \<le> sum_list ns \<longrightarrow> pull read_call ns t = is_data st)"
proof -
  let ?st = "st\<lparr>is_pos := 0\<rparr>"
  have calc: "CalculateUploadDataSize (rq_data (request td)) = (of_nat (length (is_data st)), Some ?st)"
    using assms(2,3)
    by (simp add: CalculateUploadDataSize_def seekg_end_def seekg_beg_def tellg_def Let_def)
  have "upload_stream t = Some ?st \<and> uploadDataSize t = of_nat (length (is_data st))"
    using assms(1) by (auto simp: new_HTTPTransaction_def calc Let_def elim!: bindp_RetE)
  then have ok: "upload_ok t" and rest: "upload_rest t = is_data st"
    and size: "unat (uploadDataSize t) = length (is_data st)"
    using assms(3,4) by (simp_all add: upload_ok_def upload_rest_def unat_of_nat_size)
  have ns: "\<forall>n \<in> set ns. n \<le> 2 ^ 64 - 1" using assms(5) by fastforce
  from upload.pull_take [OF ok ns] upload.pull_all [OF ok ns] size show ?thesis
    by (simp add: rest)
qed

definition upload_td :: HTTPTransactionData where
  "upload_td = (get_transaction_data ''http://h/'')
     \<lparr>request := (get_request ''http://h/'')\<lparr>rq_method := POST, rq_data := Some (istream_of ''payload'')\<rparr>\<rparr>"

theorem upload_delivered_witness:
  "\<exists>t. pull read_call [3, 2, 10] t = ''payload''"
proof -
  obtain t where t: "new_HTTPTransaction demo_curl upload_td ([], 0) = (Ret t, ([], 0))"
    using demo_new by blast
  show ?thesis
    using upload_delivered [OF t, of "istream_of ''payload''" "[3, 2, 10]"]
    by (auto simp: upload_td_def istream_of_def)
qed

text \<open>
  The read callback never overruns the buffer it is given. Whatever state the stream
  and the announced size are in, and whatever the two sizes of the call are (their product
  wraps around at 64 bits), the size it returns is at most that product, and at most that
  many bytes are written.
\<close>

theorem Read_within_buffer:
  assumes "Read es n t = Some ((sz, bytes), t')"
  shows "sz \<le> n * es \<and> length bytes \<le> unat sz \<and> length bytes \<le> unat (n * es)"
proof -
  from assms obtain st where st: "upload_stream t = Some st" by (auto simp: Read_def split: option.splits)
  define left where "left = uploadDataSize t - of_int (tellg st)"
  define rs where "rs = (if left > n * es then n * es else left)"
  have rs: "rs \<le> n * es" by (auto simp: rs_def not_less)
  have "sz = rs \<and> length bytes \<le> unat rs"
    using assms st length_istream_read [of "unat rs" st]
    by (auto simp: Read_def Let_def left_def [symmetric] rs_def [symmetric] split: if_splits prod.splits)
  with rs show ?thesis by (auto simp: word_le_nat_alt)
qed

theorem Read_within_buffer_witness:
  "\<exists>sz bytes t'. Read 1 4 ((get_transaction ''u'')\<lparr>httpTransaction := upload_td, uploadDataSize := 7\<rparr>)
     = Some ((sz, bytes), t') \<and> sz \<le> 4 \<and> length bytes \<le> 4"
proof -
  let ?t = "(get_transaction ''u'')\<lparr>httpTransaction := upload_td, uploadDataSize := 7\<rparr>"
  obtain sz bytes t' where r: "Read 1 4 ?t = Some ((sz, bytes), t')"
    by (simp add: Read_def upload_td_def istream_of_def tellg_def istream_read_def Let_def)
  show ?thesis using r Read_within_buffer [OF r] by auto
qed

text \<open>
  Write-side callbacks. The body callback appends exactly the bytes of the buffer to
  the response's sink, if there is one, and both it and the header callback return the size
  of the buffer, which is what tells libcurl to go on; nothing else of the transaction
  changes.
\<close>

theorem transfer_callbacks_append:
  "(let (sz, t') = Write data es n t
    in sz = n * es \<and> t' = set_response ((response (httpTransaction t))
         \<lparr>rs_data := map_option (\<lambda>s. s @ take (unat (n * es)) data) (rs_data (response (httpTransaction t)))\<rparr>) t) \<and>
   (let (sz, t') = ProcessResponseHeaders data es n t
    in sz = n * es \<and> t' = t\<lparr>responseHeadersData := responseHeadersData t @ take (unat (n * es)) data\<rparr>)"
  by (cases "rs_data (response (httpTransaction t))")
    (simp_all add: Write_def ProcessResponseHeaders_def Let_def set_response_def)

section \<open>The connection\<close>

text \<open>
  Timeouts. Both timeouts given to libcurl lie in their ranges whatever the caller
  asked for, are never zero (which libcurl reads as no limit), and are the caller's own
  where that lies in the range.
\<close>

theorem timeouts_bounded:
  "0 < read_timeout s \<and> read_timeout s \<le> 300 \<and> 0 < connection_timeout s \<and> connection_timeout s \<le> 50 \<and>
   (0 < s \<and> s \<le> 300 \<longrightarrow> read_timeout s = s) \<and> (0 < s \<and> s \<le> 50 \<longrightarrow> connection_timeout s = s)"
  by (auto simp: read_timeout_def connection_timeout_def word_neq_0_conv not_less)

theorem timeouts_bounded_witness: "read_timeout 20 = 20 \<and> connection_timeout 20 = 20"
  using timeouts_bounded [of 20] by simp

text \<open>
  Connecting. A connection is made exactly when curl gives a handle and accepts every
  option, in the order they are set; the options are then the whole list. At the first
  refusal no further option is set, and the caller sees an \<open>HTTPException\<close> with the
  initialization message whatever failed.
\<close>

theorem InitConnection_all_or_nothing:
  "InitConnection cu td n hs form w =
     (case calls_ok (cu_easy_init cu # map (cu_setopt cu) (connection_options td n hs form)) w of
        (True, w') \<Rightarrow> (Ret (connection_options td n hs form), w')
      | (False, w') \<Rightarrow>
          (Throw (Net (HTTPException ''HTTP transaction initialization failed'')), w'))"
  unfolding InitConnection_calls Let_def init_failed_def by (rule refl)

text \<open>
  Certificates are checked only for requests that bring their own CA bundle: with a
  bundle the peer and the host are verified and the bundle's callback is installed; without
  one, and in particular for every \<open>PerformGet\<close>, both verifications are switched off.
\<close>

theorem tls_verification:
  "(SSL_VERIFYPEER True \<in> set (connection_options td n hs form) \<longleftrightarrow> rq_ca_cert_bundle (request td) \<noteq> None) \<and>
   (SSL_VERIFYHOST 2 \<in> set (connection_options td n hs form) \<longleftrightarrow> rq_ca_cert_bundle (request td) \<noteq> None) \<and>
   (SSL_CTX_FUNCTION \<in> set (connection_options td n hs form) \<longleftrightarrow> rq_ca_cert_bundle (request td) \<noteq> None) \<and>
   SSL_VERIFYPEER False \<in> set (get_options url) \<and> SSL_VERIFYHOST 0 \<in> set (get_options url) \<and>
   SSL_VERIFYPEER True \<notin> set (get_options url)"
  by (auto simp: connection_options_def get_options_def get_transaction_data_def get_request_def)

section \<open>Performing\<close>

text \<open>
  C29: The error mapping of \<open>Perform\<close>. A transfer that ends with one of the six network
  codes throws a \<open>NetworkException\<close> with libcurl's message, one with the four certificate
  codes an \<open>SSLCertificateException\<close> with the fixed message, any other code, and a missing
  response code, an \<open>HTTPException\<close>; otherwise it returns. The transaction counts as
  completed only when it returned.
\<close>

theorem Perform_error_mapping:
  assumes "\<not> completed t"
    and "cu_perform cu (connection t) (httpTransaction t) w = ((evs, code), w1)"
  shows "\<exists>out t' w'. Perform cu (t, w) = (out, (t', w')) \<and> (completed t' \<longleftrightarrow> out = Ret ()) \<and>
    (if code \<in> {CURLE_RECV_ERROR, CURLE_SEND_ERROR, CURLE_COULDNT_CONNECT, CURLE_COULDNT_RESOLVE_PROXY,
                CURLE_COULDNT_RESOLVE_HOST, CURLE_OPERATION_TIMEDOUT}
     then out = Throw (Net (NetworkException (cu_strerror cu code)))
     else if code \<in> {CURLE_SSL_CERTPROBLEM, CURLE_SSL_CIPHER, CURLE_SSL_CACERT, CURLE_SSL_CACERT_BADFILE}
     then out = Throw (Net (SSLCertificateException ''HTTP operation failed, certificate is not valid''))
     else if code \<noteq> CURLE_OK \<or> fst (cu_response_code cu w1) = None
     then \<exists>msg. out = Throw (Net (HTTPException msg))
     else out = Ret ())"
  using assms
  by (cases rule: Perform_cases [of t cu w])
    (auto simp: transport_exn_def is_network_error_def is_ssl_cert_error_def)

theorem Perform_error_mapping_witness:
  "\<exists>t' w'. Perform demo_curl (get_transaction ''u'', ([], 0)) =
     (Throw (Net (NetworkException ''transfer failed'')), (t', w'))"
proof -
  have p: "cu_perform demo_curl (connection (get_transaction ''u'')) (httpTransaction (get_transaction ''u'')) ([], 0)
      = (([], CURLE_COULDNT_CONNECT), ([], 0))"
    by (simp add: demo_curl_def)
  have "cu_strerror demo_curl c = ''transfer failed''" for c by (simp add: demo_curl_def)
  then show ?thesis using Perform_error_mapping [OF _ p] by auto
qed

text \<open>
  A transaction is performed at most once. After a successful \<open>Perform\<close> every further
  one throws an \<open>HTTPException\<close> and touches neither the transaction nor the network.
\<close>

theorem Perform_only_once:
  assumes "Perform cu (t, w) = (Ret (), (t', w'))"
  shows "\<not> completed t \<and> completed t' \<and>
    (\<exists>msg. Perform cu (t', w'') = (Throw (Net (HTTPException msg)), (t', w'')))"
proof -
  have "\<not> completed t" and c: "completed t'"
    using assms by (cases rule: Perform_cases [of t cu w]; auto)+
  with Perform_again [OF c, of cu w''] show ?thesis by simp
qed

theorem Perform_only_once_witness:
  "\<exists>t' w' msg. Perform demo_curl (get_transaction ''u'', ([(CURLE_OK, 200, ''x'')], 0)) = (Ret (), (t', w')) \<and>
     Perform demo_curl (t', w') = (Throw (Net (HTTPException msg)), (t', w'))"
proof -
  obtain t' w' where r: "Perform demo_curl (get_transaction ''u'', ([(CURLE_OK, 200, ''x'')], 0)) = (Ret (), (t', w'))"
    by (simp add: Perform_def catchp_def perform_body_def demo_curl_def)
  show ?thesis using r Perform_only_once [OF r] by blast
qed

section \<open>GET requests\<close>

text \<open>
  C9: What a returned body is. When \<open>PerformGet\<close> returns, curl performed one transfer of
  that URL with the options of a GET request, it ended without an error, its status is a
  success code, and the result is the concatenation of all the pieces of the body, in the
  order libcurl delivered them.
\<close>

theorem PerformGet_returns:
  assumes "PerformGet cu url w = (Ret body, w')"
  shows "\<exists>w0 w1 evs code.
    cu_perform cu (get_options url) (get_transaction_data url) w0 = ((evs, CURLE_OK), w1) \<and>
    cu_response_code cu w1 = (Some code, w') \<and> is_success code \<and>
    body = concat (map body_bytes evs)"
proof (cases rule: PerformGet_cases [of cu url w])
  case (finished w0 evs w1 code w2)
  then show ?thesis using assms
    by (intro exI [of _ w0] exI [of _ w1] exI [of _ evs] exI [of _ code])
      (auto simp: is_success_def split: if_splits)
qed (use assms in simp_all)

theorem PerformGet_returns_witness:
  "\<exists>code. PerformGet demo_curl ''u'' ([(CURLE_OK, 200, ''hi'')], 0) = (Ret ''hi'', ([], 200)) \<and> is_success code"
proof -
  have r: "PerformGet demo_curl ''u'' ([(CURLE_OK, 200, ''hi'')], 0) = (Ret ''hi'', ([], 200))"
    by code_simp
  show ?thesis using r PerformGet_returns [OF r] by blast
qed



section \<open>The CA bundle\<close>

lemma mem_buf_small: "length buf < 2 ^ 31 \<Longrightarrow> mem_buf buf = buf"
  by (simp add: mem_buf_def signed_of_nat signed_take_bit_int_eq_self)

lemma add_infos_eq:
  "add_infos infos (certs, crls) =
     (certs @ List.map_filter fst infos, crls @ List.map_filter snd infos)"
  by (induction infos arbitrary: certs crls)
    (auto simp: map_filter_simps split: option.split)

text \<open>
  Loading the CA bundle. The callback reports success exactly when the stream works, the
  buffer can be allocated and OpenSSL finds at least one entry in the whole bundle; it has
  then added all certificates and all revocation lists, in order. In every other case the
  store is as it was.
\<close>

theorem ssl_ctx_loads_bundle:
  assumes "length (is_data bundle) < 2 ^ 31"
    and "Process_SSL_CTX ssl bundle (certs, crls) = (code, bundle', store')"
  shows "(code = CURLE_OK \<longleftrightarrow>
      \<not> is_failed bundle \<and> vector_alloc ssl (length (is_data bundle)) = None \<and>
      (\<exists>infos. PEM_X509_INFO_read ssl (is_data bundle) = Some infos \<and> infos \<noteq> [] \<and>
         store' = (certs @ List.map_filter fst infos, crls @ List.map_filter snd infos))) \<and>
    (code \<noteq> CURLE_OK \<longrightarrow> store' = (certs, crls))"
proof (cases "is_failed bundle")
  case True
  with assms show ?thesis by (simp add: Process_SSL_CTX_def)
next
  case False
  let ?n = "length (is_data bundle)"
  have pos: "nat (tellg (seekg_end bundle)) = ?n"
    and st2: "seekg_beg (seekg_end bundle) = bundle\<lparr>is_pos := 0\<rparr>"
    using False by (simp_all add: seekg_end_def seekg_beg_def tellg_def)
  have rd: "fst (if ?n > 0 then istream_read ?n (bundle\<lparr>is_pos := 0\<rparr>) else ([], bundle\<lparr>is_pos := 0\<rparr>))
      = is_data bundle"
    using False by (simp add: istream_read_def Let_def)
  show ?thesis
    using assms(2) False rd mem_buf_small [OF assms(1)]
    by (auto simp: Process_SSL_CTX_def Let_def pos st2 add_infos_eq
        split: option.splits exn.splits prod.splits if_splits)
qed

definition demo_ssl :: "(nat, nat) ssl_api" where
  "demo_ssl = \<lparr>PEM_X509_INFO_read = (\<lambda>s. if s = [] then None else Some [(Some (length s), None)]),
     vector_alloc = (\<lambda>_. None)\<rparr>"

theorem ssl_ctx_loads_bundle_witness:
  "\<exists>st. Process_SSL_CTX demo_ssl (istream_of ''pem'') ([], []) = (CURLE_OK, st, ([3], []))"
proof -
  have r: "Process_SSL_CTX demo_ssl (istream_of ''pem'') ([], []) =
      (CURLE_OK, (istream_of ''pem'')\<lparr>is_pos := 3\<rparr>, ([3], []))"
    by code_simp
  have "length (is_data (istream_of ''pem'')) < 2 ^ 31" by (simp add: istream_of_def)
  from ssl_ctx_loads_bundle [OF this r] r show ?thesis by blast
qed

text \<open>
  The named status codes. The constants are in increasing order, lie between 100 and
  511, and the ones that \<open>is_success\<close> accepts are exactly those declared in the block of
  the 2xx codes; no constant lies in a range the header calls unassigned, other than the
  one it names so.
\<close>

theorem status_codes_classified:
  "sorted_wrt (<) (map snd HTTPStatusCodes) \<and>
   (\<forall>(name, code) \<in> set HTTPStatusCodes. 100 \<le> code \<and> code \<le> 511) \<and>
   map fst (filter (is_success \<circ> snd) HTTPStatusCodes) =
     [''OK'', ''Created'', ''Accepted'', ''NonAuthoritativeInformation'', ''NoContent'', ''ResetContent'',
      ''PartialContent'', ''MultiStatus'', ''AlreadyReported'', ''IMUsed''] \<and>
   (\<forall>(name, code) \<in> set HTTPStatusCodes.
      \<not> (104 \<le> code \<and> code \<le> 199) \<and> \<not> (209 \<le> code \<and> code \<le> 225) \<and> \<not> (309 \<le> code \<and> code \<le> 399) \<and>
      \<not> (418 \<le> code \<and> code \<le> 420) \<and> code \<noteq> 430 \<and> \<not> (432 \<le> code \<and> code \<le> 450) \<and>
      \<not> (452 \<le> code \<and> code \<le> 499) \<and> code \<noteq> 509)"
  by code_simp

end
