(* ===== verification/Key_Manager.thy ===== *)
theory Key_Manager
  imports Cpp_String Std_Map
begin

text \<open>
  Models the \<open>additions\<close> of \<open>Daemon/config/config.h\<close>: sections, keys, and the manager that
  turns a section and an enumerator into a dotted key of the property tree.
\<close>

section \<open>Sections\<close>

datatype Section = Section (sec_name: string)

text \<open>\<open>operator<\<close> and \<open>operator==\<close> compare the names.\<close>

instantiation Section :: linorder
begin

definition less_Section :: "Section \<Rightarrow> Section \<Rightarrow> bool" where
  "less_Section a b \<longleftrightarrow> sec_name a < sec_name b"

definition less_eq_Section :: "Section \<Rightarrow> Section \<Rightarrow> bool" where
  "less_eq_Section a b \<longleftrightarrow> sec_name a \<le> sec_name b"

instance
  by standard (auto simp: less_Section_def less_eq_Section_def intro: Section.expand)

end

definition Section_call :: "Section \<Rightarrow> string \<Rightarrow> string" where
  "Section_call s key = sec_name s @ ''.'' @ key"

section \<open>Keys\<close>

record 't Key =
  key_section :: Section
  key_enum :: 't
  key_name :: string

definition Key_eq :: "'t Key \<Rightarrow> 't Key \<Rightarrow> bool" where
  "Key_eq a b \<longleftrightarrow> key_section a = key_section b \<and> key_enum a = key_enum b \<and> key_name a = key_name b"

text \<open>The lookup loop; \<open>to_int\<close> is the \<open>static_cast<int>\<close> of the enumeration.\<close>

fun KeyManager_call :: "('t \<Rightarrow> int) \<Rightarrow> 't Key list \<Rightarrow> Section \<Rightarrow> 't \<Rightarrow> exn + string" where
  "KeyManager_call to_int [] sec k =
     Inl (InvalidArgument
       (''Key '' @ show_int (to_int k) @ '' does not found in '' @ sec_name sec @ '' section config keys''))"
| "KeyManager_call to_int (item # keys) sec k =
     (if sec = key_section item \<and> k = key_enum item
      then Inr (Section_call (key_section item) (key_name item))
      else KeyManager_call to_int keys sec k)"

definition AddKey :: "'t Key \<Rightarrow> 't Key list \<Rightarrow> 't Key list" where
  "AddKey key keys = (if \<exists>item \<in> set keys. Key_eq item key then keys else keys @ [key])"

text \<open>
  The move assignments of \<open>KeyManager\<close> and of \<open>Key\<close>: their bodies are the assignment itself,
  \<open>*this = std::move(rhs)\<close>, on arguments of the same types.
\<close>

partial_function (option) KeyManager_move_assign :: "'t Key list \<Rightarrow> 't Key list \<Rightarrow> 't Key list option" where
  "KeyManager_move_assign this rhs = KeyManager_move_assign this rhs"

partial_function (option) Key_move_assign :: "'t Key \<Rightarrow> 't Key \<Rightarrow> 't Key option" where
  "Key_move_assign this rhs = Key_move_assign this rhs"

section \<open>Lemmas\<close>

lemma Key_eq_iff: "Key_eq a b \<longleftrightarrow> a = b"
  by (cases a; cases b) (auto simp: Key_eq_def)

lemma KeyManager_call_find:
  "KeyManager_call to_int keys sec k =
     (case List.find (\<lambda>i. sec = key_section i \<and> k = key_enum i) keys of
        Some i \<Rightarrow> Inr (Section_call sec (key_name i))
      | None \<Rightarrow> KeyManager_call to_int [] sec k)"
  by (induction to_int keys sec k rule: KeyManager_call.induct) auto

lemma KeyManager_call_error:
  "KeyManager_call to_int keys sec k = Inl e \<longleftrightarrow>
     (\<forall>i \<in> set keys. \<not> (sec = key_section i \<and> k = key_enum i)) \<and>
     e = InvalidArgument (''Key '' @ show_int (to_int k) @ '' does not found in '' @ sec_name sec @
       '' section config keys'')"
  by (induction to_int keys sec k rule: KeyManager_call.induct) auto

text \<open>
  Looking up a key. The manager returns the dotted name of the first key with that
  section and enumerator, and throws \<open>std::invalid_argument\<close> exactly when there is none;
  adding a key leaves every lookup that succeeded as it was, adds no duplicate, and makes
  a lookup of a new pair succeed.
\<close>

theorem KeyManager_lookup:
  "(\<forall>e. KeyManager_call f keys sec k = Inl e \<longrightarrow>
      (\<exists>m. e = InvalidArgument m) \<and> (\<forall>i \<in> set keys. (key_section i, key_enum i) \<noteq> (sec, k))) \<and>
   (\<forall>s. KeyManager_call f keys sec k = Inr s \<longrightarrow>
      (\<exists>i \<in> set keys. key_section i = sec \<and> key_enum i = k \<and> s = sec_name sec @ ''.'' @ key_name i) \<and>
      KeyManager_call f (AddKey key keys) sec k = Inr s) \<and>
   (distinct keys \<longrightarrow> distinct (AddKey key keys)) \<and>
   set (AddKey key keys) = insert key (set keys) \<and>
   KeyManager_call f (AddKey key keys) (key_section key) (key_enum key) \<noteq>
     KeyManager_call f [] (key_section key) (key_enum key)"
proof -
  let ?p = "\<lambda>i. sec = key_section i \<and> k = key_enum i"
  have found: "KeyManager_call f (keys @ [key]) sec k = Inr s"
    if "KeyManager_call f keys sec k = Inr s" for s
    using that by (induction f keys sec k rule: KeyManager_call.induct) auto
  have name: "\<exists>i \<in> set keys. key_section i = sec \<and> key_enum i = k \<and> s = sec_name sec @ ''.'' @ key_name i"
    if "KeyManager_call f keys sec k = Inr s" for s
    using that
    by (induction f keys sec k rule: KeyManager_call.induct) (auto simp: Section_call_def split: if_splits)
  have new: "KeyManager_call f (AddKey key keys) (key_section key) (key_enum key) \<noteq>
      KeyManager_call f [] (key_section key) (key_enum key)"
  proof
    assume "KeyManager_call f (AddKey key keys) (key_section key) (key_enum key) =
      KeyManager_call f [] (key_section key) (key_enum key)"
    then have "KeyManager_call f (AddKey key keys) (key_section key) (key_enum key) =
      Inl (InvalidArgument (''Key '' @ show_int (f (key_enum key)) @ '' does not found in '' @
        sec_name (key_section key) @ '' section config keys''))" by simp
    then show False unfolding KeyManager_call_error by (auto simp: AddKey_def Key_eq_iff split: if_splits)
  qed
  have none: "(\<exists>m. e = InvalidArgument m) \<and> (\<forall>i \<in> set keys. (key_section i, key_enum i) \<noteq> (sec, k))"
    if "KeyManager_call f keys sec k = Inl e" for e
    using that unfolding KeyManager_call_error by auto
  show ?thesis
    using found name new none by (auto simp: AddKey_def Key_eq_iff)
qed

theorem KeyManager_lookup_witness:
  "KeyManager_call int (AddKey \<lparr>key_section = Section ''b'', key_enum = 2, key_name = ''y''\<rparr>
       [\<lparr>key_section = Section ''a'', key_enum = 1, key_name = ''x''\<rparr>]) (Section ''a'') 1 = Inr ''a.x''"
  using KeyManager_lookup [of int "[\<lparr>key_section = Section ''a'', key_enum = 1, key_name = ''x''\<rparr>]"
      "Section ''a''" 1 "\<lparr>key_section = Section ''b'', key_enum = 2, key_name = ''y''\<rparr>"]
  by (simp add: Section_call_def)

text \<open>
  Moving a key or a key manager by assignment never returns: the operators call
  themselves with the same arguments.
\<close>

theorem move_assign_diverges:
  "KeyManager_move_assign this rhs = None \<and> Key_move_assign this' rhs' = None"
proof -
  have False if "KeyManager_move_assign this rhs = Some y" for y
    by (rule KeyManager_move_assign.raw_induct [where P = "\<lambda>_ _ _. False", OF _ that]) blast
  moreover have False if "Key_move_assign this' rhs' = Some y" for y
    by (rule Key_move_assign.raw_induct [where P = "\<lambda>_ _ _. False", OF _ that]) blast
  ultimately show ?thesis by (meson option.exhaust)
qed

end
