(* ===== verification/Property_Tree.thy ===== *)
theory Property_Tree
  imports Cpp_String
begin

text \<open>
  The interface of \<open>boost::property_tree\<close> and \<open>boost::lexical_cast\<close>, which are not part of
  the repository: a record of functions over a type \<open>'pt\<close> of trees and a world \<open>'w\<close>, and
  the predicate \<open>ptree_laws\<close> with the documented behaviour the program relies on, stated
  for the keys it uses, which have the form \<open>section.name\<close>. A reference tree at the end
  satisfies the laws; only witnesses use it.
\<close>

section \<open>The interface\<close>

record ('pt, 'w) ptree_api =
  pt_empty :: 'pt
  pt_data :: "'pt \<Rightarrow> string"
  pt_children :: "'pt \<Rightarrow> (string \<times> 'pt) list"
  pt_get_child :: "'pt \<Rightarrow> string \<Rightarrow> 'pt option"
  pt_get_def :: "'pt \<Rightarrow> string \<Rightarrow> string \<Rightarrow> exn + string"
  pt_find :: "string \<Rightarrow> 'pt \<Rightarrow> bool"
  pt_put :: "string \<Rightarrow> string \<Rightarrow> 'pt \<Rightarrow> exn + 'pt"
  pt_add_child :: "string \<Rightarrow> 'pt \<Rightarrow> 'pt \<Rightarrow> 'pt"
  pt_push_back :: "string \<Rightarrow> 'pt \<Rightarrow> 'pt \<Rightarrow> 'pt"
  pt_to_float :: "string \<Rightarrow> float32 option"
  pt_to_int64 :: "string \<Rightarrow> int64 option"
  pt_of_float :: "float32 \<Rightarrow> string"
  js_parse :: "string \<Rightarrow> exn + 'pt"
  js_print :: "'pt \<Rightarrow> exn + string"
  js_load :: "string \<Rightarrow> 'w \<Rightarrow> exn + 'pt"
  js_save :: "string \<Rightarrow> 'pt \<Rightarrow> 'w \<Rightarrow> exn option \<times> 'w"

text \<open>\<open>lexical_cast\<close> between \<open>int\<close> and \<open>std::string\<close>; \<open>None\<close> is \<open>bad_lexical_cast\<close>.\<close>

record lexical_api =
  lx_of_int :: "cint \<Rightarrow> string"
  lx_to_int :: "string \<Rightarrow> cint option"

definition lexical_laws :: "'x lexical_api_scheme \<Rightarrow> bool" where
  "lexical_laws lx \<longleftrightarrow> (\<forall>i. lx_to_int lx (lx_of_int lx i) = Some i)"

text \<open>The string at a path, if the path is there.\<close>

definition pt_get_opt :: "('pt, 'w, 'x) ptree_api_scheme \<Rightarrow> 'pt \<Rightarrow> string \<Rightarrow> string option" where
  "pt_get_opt api t k = map_option (pt_data api) (pt_get_child api t k)"

section \<open>Keys\<close>

definition dot_free :: "string \<Rightarrow> bool" where
  "dot_free s \<longleftrightarrow> s \<noteq> [] \<and> CHR ''.'' \<notin> set s"

definition key2 :: "string \<Rightarrow> string \<Rightarrow> string" where
  "key2 sec name = sec @ ''.'' @ name"

definition config_key :: "string \<Rightarrow> bool" where
  "config_key k \<longleftrightarrow>
     (let sec = takeWhile (\<lambda>c. c \<noteq> CHR ''.'') k; name = drop (length sec + 1) k
      in k = key2 sec name \<and> dot_free sec \<and> dot_free name)"

lemma key2_section:
  assumes "dot_free s"
  shows "takeWhile (\<lambda>c. c \<noteq> CHR ''.'') (key2 s n) = s"
proof -
  have "takeWhile (\<lambda>c. c \<noteq> CHR ''.'') (s @ CHR ''.'' # n) = s"
    by (rule takeWhile_append_stop(1)) (use assms in \<open>auto simp: dot_free_def\<close>)
  then show ?thesis by (simp add: key2_def)
qed

lemma key2_inject:
  assumes "dot_free s" and "dot_free s'"
  shows "key2 s n = key2 s' n' \<longleftrightarrow> s = s' \<and> n = n'"
proof
  assume e: "key2 s n = key2 s' n'"
  have "s = s'" using key2_section [OF assms(1), of n] key2_section [OF assms(2), of n'] e by simp
  with e show "s = s' \<and> n = n'" by (simp add: key2_def)
qed simp

lemma config_keyE:
  assumes "config_key k"
  obtains s n where "k = key2 s n" "dot_free s" "dot_free n"
  using assms unfolding config_key_def Let_def by blast

lemma config_key_key2:
  assumes "dot_free s" "dot_free n"
  shows "config_key (key2 s n)"
  using assms by (simp add: config_key_def Let_def key2_section) (simp add: key2_def)

section \<open>The documented behaviour\<close>

text \<open>How many children named \<open>n\<close> the section \<open>s\<close> has.\<close>

definition section_count ::
  "('pt, 'w, 'x) ptree_api_scheme \<Rightarrow> 'pt \<Rightarrow> string \<Rightarrow> string \<Rightarrow> nat" where
  "section_count api t s n =
     (case pt_get_child api t s of
        None \<Rightarrow> 0
      | Some p \<Rightarrow> length (filter (\<lambda>c. fst c = n) (pt_children api p)))"

text \<open>
  \<open>put\<close> of a string succeeds, sets the value at its path, keeps what is below it and
  leaves all other keys as they are; it creates no direct child but the section.
\<close>

definition put_laws :: "('pt, 'w, 'x) ptree_api_scheme \<Rightarrow> bool" where
  "put_laws api \<longleftrightarrow>
     (\<forall>s n v t. dot_free s \<and> dot_free n \<longrightarrow>
        (\<exists>t' c'. pt_put api (key2 s n) v t = Inr t' \<and>
          pt_get_child api t' (key2 s n) = Some c' \<and> pt_data api c' = v \<and>
          pt_children api c' =
            (case pt_get_child api t (key2 s n) of None \<Rightarrow> [] | Some c \<Rightarrow> pt_children api c) \<and>
          (\<forall>s' n'. dot_free s' \<and> dot_free n' \<and> (s', n') \<noteq> (s, n) \<longrightarrow>
             pt_get_child api t' (key2 s' n') = pt_get_child api t (key2 s' n') \<and>
             section_count api t' s' n' = section_count api t s' n') \<and>
          fst ` set (pt_children api t') = insert s (fst ` set (pt_children api t))))"

text \<open>
  \<open>add_child\<close> adds one more node at its path, even when there is one already; a lookup
  still finds the first. \<open>find\<close> looks for a direct child, not for a path.
\<close>

definition add_child_laws :: "('pt, 'w, 'x) ptree_api_scheme \<Rightarrow> bool" where
  "add_child_laws api \<longleftrightarrow>
     (\<forall>s n c t. dot_free s \<and> dot_free n \<longrightarrow>
        section_count api (pt_add_child api (key2 s n) c t) s n = Suc (section_count api t s n) \<and>
        pt_get_child api (pt_add_child api (key2 s n) c t) (key2 s n) =
          (case pt_get_child api t (key2 s n) of None \<Rightarrow> Some c | Some c0 \<Rightarrow> Some c0) \<and>
        (\<forall>s' n'. dot_free s' \<and> dot_free n' \<and> (s', n') \<noteq> (s, n) \<longrightarrow>
           pt_get_child api (pt_add_child api (key2 s n) c t) (key2 s' n') =
             pt_get_child api t (key2 s' n') \<and>
           section_count api (pt_add_child api (key2 s n) c t) s' n' = section_count api t s' n') \<and>
        fst ` set (pt_children api (pt_add_child api (key2 s n) c t)) =
          insert s (fst ` set (pt_children api t))) \<and>
     (\<forall>k t. pt_find api k t \<longleftrightarrow> k \<in> fst ` set (pt_children api t))"

definition ptree_laws :: "('pt, 'w, 'x) ptree_api_scheme \<Rightarrow> bool" where
  "ptree_laws api \<longleftrightarrow>
     put_laws api \<and> add_child_laws api \<and>
     (\<forall>t k d. pt_get_def api t k d =
        Inr (case pt_get_opt api t k of None \<Rightarrow> d | Some v \<Rightarrow> v)) \<and>
     pt_children api (pt_empty api) = [] \<and>
     (\<forall>n c t. pt_children api (pt_push_back api n c t) = pt_children api t @ [(n, c)]) \<and>
     (\<forall>v t. \<exists>t'. pt_put api [] v t = Inr t' \<and> pt_data api t' = v \<and>
        pt_children api t' = pt_children api t)"

lemma ptree_put:
  assumes "ptree_laws api" and "dot_free s" and "dot_free n"
  obtains t' c' where "pt_put api (key2 s n) v t = Inr t'"
    and "pt_get_child api t' (key2 s n) = Some c'" and "pt_data api c' = v"
    and "pt_children api c' = (case pt_get_child api t (key2 s n) of None \<Rightarrow> [] | Some c \<Rightarrow> pt_children api c)"
    and "\<And>s' n'. dot_free s' \<Longrightarrow> dot_free n' \<Longrightarrow> (s', n') \<noteq> (s, n) \<Longrightarrow>
      pt_get_child api t' (key2 s' n') = pt_get_child api t (key2 s' n') \<and>
      section_count api t' s' n' = section_count api t s' n'"
    and "fst ` set (pt_children api t') = insert s (fst ` set (pt_children api t))"
proof -
  from assms(1) have "put_laws api" by (simp add: ptree_laws_def)
  then obtain t' c' where p: "pt_put api (key2 s n) v t = Inr t'"
    "pt_get_child api t' (key2 s n) = Some c'" "pt_data api c' = v"
    "pt_children api c' = (case pt_get_child api t (key2 s n) of None \<Rightarrow> [] | Some c \<Rightarrow> pt_children api c)"
    "\<forall>s' n'. dot_free s' \<and> dot_free n' \<and> (s', n') \<noteq> (s, n) \<longrightarrow>
      pt_get_child api t' (key2 s' n') = pt_get_child api t (key2 s' n') \<and>
      section_count api t' s' n' = section_count api t s' n'"
    "fst ` set (pt_children api t') = insert s (fst ` set (pt_children api t))"
    unfolding put_laws_def using assms(2,3) by blast
  show thesis by (rule that [OF p(1-4) _ p(6)]) (use p(5) in blast)
qed

lemma ptree_get_def:
  "ptree_laws api \<Longrightarrow> pt_get_def api t k d = Inr (case pt_get_opt api t k of None \<Rightarrow> d | Some v \<Rightarrow> v)"
  unfolding ptree_laws_def by blast

lemma ptree_find: "ptree_laws api \<Longrightarrow> pt_find api k t \<longleftrightarrow> k \<in> fst ` set (pt_children api t)"
  unfolding ptree_laws_def add_child_laws_def by blast

lemma ptree_add_child:
  assumes "ptree_laws api" and "dot_free s" and "dot_free n"
  shows "section_count api (pt_add_child api (key2 s n) c t) s n = Suc (section_count api t s n)"
    and "pt_get_child api (pt_add_child api (key2 s n) c t) (key2 s n) =
      (case pt_get_child api t (key2 s n) of None \<Rightarrow> Some c | Some c0 \<Rightarrow> Some c0)"
    and "dot_free s' \<Longrightarrow> dot_free n' \<Longrightarrow> (s', n') \<noteq> (s, n) \<Longrightarrow>
      pt_get_child api (pt_add_child api (key2 s n) c t) (key2 s' n') = pt_get_child api t (key2 s' n')"
    and "fst ` set (pt_children api (pt_add_child api (key2 s n) c t)) = insert s (fst ` set (pt_children api t))"
  using assms unfolding ptree_laws_def add_child_laws_def by blast+

lemma ptree_push_back:
  "ptree_laws api \<Longrightarrow> pt_children api (pt_push_back api n c t) = pt_children api t @ [(n, c)]"
  unfolding ptree_laws_def by blast

lemma ptree_empty: "ptree_laws api \<Longrightarrow> pt_children api (pt_empty api) = []"
  unfolding ptree_laws_def by blast

lemma ptree_put_root:
  assumes "ptree_laws api"
  obtains t' where "pt_put api [] v t = Inr t'" "pt_data api t' = v" "pt_children api t' = pt_children api t"
  using assms unfolding ptree_laws_def by blast

end
