(* ===== verification/Config.thy ===== *)
theory Config
  imports Filesystem Property_Tree Std_Map
begin

text \<open>
  Models \<open>Daemon/config/config.cpp\<close> and the class \<open>Config\<close> of \<open>config.h\<close>: the property
  tree of one configuration file with its mutex, the reading and writing operations, the
  constructor, and the manager that shares one object per path. The property tree, its
  JSON files and \<open>lexical_cast\<close> are the parameters of \<open>Property_Tree\<close>.

  The mutex is a \<open>std::mutex\<close>, not a recursive one: locking it while this thread holds it
  never returns, which is the outcome \<open>Hang\<close>.
\<close>

record 'pt Config =
  root :: 'pt
  mtx_locked :: bool
  configPath :: string
  configFolder :: string

type_synonym ('pt, 'w) cfg = "'pt Config \<times> 'w"

section \<open>The mutex\<close>

definition lock_guard :: "(('pt, 'w) cfg, 'a) prog \<Rightarrow> (('pt, 'w) cfg, 'a) prog" where
  "lock_guard m s =
     (case s of (c, w) \<Rightarrow>
        if mtx_locked c then (Hang, (c, w))
        else (case m (c\<lparr>mtx_locked := True\<rparr>, w) of
                (Hang, s') \<Rightarrow> (Hang, s')
              | (r, (c', w')) \<Rightarrow> (r, (c'\<lparr>mtx_locked := False\<rparr>, w'))))"

section \<open>Writing\<close>

definition cant_write :: "string \<Rightarrow> exn" where
  "cant_write what = RuntimeError (''Can't write json file : '' @ what)"

definition save_root :: "('pt, 'w, 'x) ptree_api_scheme \<Rightarrow> (('pt, 'w) cfg, unit) prog" where
  "save_root api s =
     (case s of (c, w) \<Rightarrow>
        (case js_save api (configPath c) (root c) w of
           (None, w') \<Rightarrow> (Ret (), (c, w'))
         | (Some e, w') \<Rightarrow> (Throw e, (c, w'))))"

definition set_root :: "('pt \<Rightarrow> exn + 'pt) \<Rightarrow> (('pt, 'w) cfg, unit) prog" where
  "set_root f s =
     (case s of (c, w) \<Rightarrow>
        (case f (root c) of
           Inl e \<Rightarrow> (Throw e, (c, w))
         | Inr r \<Rightarrow> (Ret (), (c\<lparr>root := r\<rparr>, w))))"

text \<open>The two handlers of the writers; \<open>text\<close> is the middle part of the message.\<close>

definition write_handler :: "string \<Rightarrow> exn \<Rightarrow> ('s, unit) prog" where
  "write_handler text e =
     (case e of
        PtreeBadData what \<Rightarrow> raise (RuntimeError (''Can't add ('' @ text @ what))
      | JsonParserError what \<Rightarrow> raise (cant_write what)
      | _ \<Rightarrow> raise e)"

definition quoted :: "string \<Rightarrow> string" where
  "quoted s = [CHR 0x22] @ s @ [CHR 0x22]"

definition WriteString ::
  "('pt, 'w, 'x) ptree_api_scheme \<Rightarrow> string \<Rightarrow> string \<Rightarrow> (('pt, 'w) cfg, unit) prog" where
  "WriteString api key value =
     catchp (lock_guard (thenp (set_root (pt_put api key value)) (save_root api)))
       (write_handler (quoted key @ '':'' @ quoted value @ '' : ''))"

definition WriteInt ::
  "('pt, 'w, 'x) ptree_api_scheme \<Rightarrow> 'y lexical_api_scheme \<Rightarrow> string \<Rightarrow> cint \<Rightarrow>
     (('pt, 'w) cfg, unit) prog" where
  "WriteInt api lx key value = WriteString api key (lx_of_int lx value)"

text \<open>The array under construction: one nameless child per value.\<close>

fun array_tree ::
  "('pt, 'w, 'x) ptree_api_scheme \<Rightarrow> string list \<Rightarrow> 'pt \<Rightarrow> exn + 'pt" where
  "array_tree api [] child = Inr child"
| "array_tree api (value # values) child =
     (case pt_put api [] value (pt_empty api) of
        Inl e \<Rightarrow> Inl e
      | Inr obj \<Rightarrow> array_tree api values (pt_push_back api [] obj child))"

definition add_array :: "('pt, 'w, 'x) ptree_api_scheme \<Rightarrow> string \<Rightarrow> string list \<Rightarrow> 'pt \<Rightarrow> exn + 'pt" where
  "add_array api key values r =
     (case array_tree api values (pt_empty api) of
        Inl e \<Rightarrow> Inl e
      | Inr child \<Rightarrow> Inr (if \<not> pt_find api key r then pt_add_child api key child r else r))"

definition WriteArray ::
  "('pt, 'w, 'x) ptree_api_scheme \<Rightarrow> string \<Rightarrow> string list \<Rightarrow> (('pt, 'w) cfg, unit) prog" where
  "WriteArray api key values =
     catchp (lock_guard (thenp (set_root (add_array api key values)) (save_root api)))
       (write_handler (quoted key @ '': array_of_values ''))"

section \<open>Reading\<close>

definition GetString ::
  "('pt, 'w, 'x) ptree_api_scheme \<Rightarrow> string \<Rightarrow> string \<Rightarrow> (('pt, 'w) cfg, string) prog" where
  "GetString api key defValue =
     lock_guard
       (catchp (bindp (gets (\<lambda>s. pt_get_def api (root (fst s)) key defValue)) lift_sum)
         (\<lambda>e. case e of
            PtreeBadPath _ \<Rightarrow> thenp (WriteString api key defValue) (ret defValue)
          | _ \<Rightarrow> raise e))"

definition GetInt ::
  "('pt, 'w, 'x) ptree_api_scheme \<Rightarrow> 'y lexical_api_scheme \<Rightarrow> string \<Rightarrow> cint \<Rightarrow>
     (('pt, 'w) cfg, cint) prog" where
  "GetInt api lx key defValue =
     bindp (GetString api key (lx_of_int lx defValue))
       (\<lambda>v. case lx_to_int lx v of None \<Rightarrow> raise BadLexicalCast | Some i \<Rightarrow> ret i)"

definition GetArray ::
  "('pt, 'w, 'x) ptree_api_scheme \<Rightarrow> string \<Rightarrow> string list \<Rightarrow> (('pt, 'w) cfg, string list) prog" where
  "GetArray api key defValue =
     lock_guard
       (bindp (gets (\<lambda>s. pt_get_child api (root (fst s)) key))
         (\<lambda>child. case child of
            Some t \<Rightarrow>
              (let res = map (\<lambda>item. pt_data api (snd item)) (pt_children api t)
               in ret (if res = [] then defValue else res))
          | None \<Rightarrow> thenp (WriteArray api key defValue) (ret defValue)))"

definition GetRootObjects :: "('pt, 'w, 'x) ptree_api_scheme \<Rightarrow> 'pt Config \<Rightarrow> string list" where
  "GetRootObjects api c = map fst (pt_children api (root c))"

definition GetFolder :: "'pt Config \<Rightarrow> string" where
  "GetFolder c = configFolder c"

definition GetConfigPath :: "'pt Config \<Rightarrow> string" where
  "GetConfigPath c = configPath c"

section \<open>Opening a configuration\<close>

text \<open>\<open>Init\<close>: the folder is made, and the file read if there is one.\<close>

definition Config_Init ::
  "('w, 'x) posix_scheme \<Rightarrow> ('pt, 'w, 'y) ptree_api_scheme \<Rightarrow> (('pt, 'w) cfg, unit) prog" where
  "Config_Init os api s =
     (case s of (c, w) \<Rightarrow>
        let w1 = CreateFolder os (GetFolder c) w
        in if px_stat os (c_str (GetConfigPath c)) w1 = None then (Ret (), (c, w1))
           else (case js_load api (GetConfigPath c) w1 of
                   Inl _ \<Rightarrow> (Throw (RuntimeError (''Can't parse config file : '' @ GetConfigPath c)), (c, w1))
                 | Inr r \<Rightarrow> (Ret (), (c\<lparr>root := r\<rparr>, w1))))"

text \<open>The constructor: the members, then \<open>Init\<close>; an exception leaves no object.\<close>

definition new_Config ::
  "('w, 'x) posix_scheme \<Rightarrow> ('pt, 'w, 'y) ptree_api_scheme \<Rightarrow> string \<Rightarrow> string \<Rightarrow>
     ('w, 'pt Config) prog" where
  "new_Config os api folder name w =
     (case Config_Init os api
         (\<lparr>root = pt_empty api, mtx_locked = False, configPath = folder @ ''/'' @ name, configFolder = folder\<rparr>, w) of
        (Ret _, (c, w')) \<Rightarrow> (Ret c, w')
      | (Throw e, (c, w')) \<Rightarrow> (Throw e, w')
      | (Hang, (c, w')) \<Rightarrow> (Hang, w'))"

section \<open>The manager\<close>

text \<open>
  The \<open>shared_ptr\<close>s of the manager's map are addresses into a list of the objects made so
  far, so that two lookups that return the same address share one object.
\<close>

record 'pt ConfigManager =
  configs :: "(string, nat) smap"
  cfg_objects :: "'pt Config list"

text \<open>\<open>GetInstance\<close>: the manager is a local static, empty when it is made.\<close>

definition new_manager :: "'a ConfigManager" where
  "new_manager = \<lparr>configs = [], cfg_objects = []\<rparr>"

definition kDefFolder :: string where
  "kDefFolder = ''.''"

definition GetConfig ::
  "('w, 'x) posix_scheme \<Rightarrow> ('pt, 'w, 'y) ptree_api_scheme \<Rightarrow> string \<Rightarrow> string \<Rightarrow>
     ('pt ConfigManager \<times> 'w, nat) prog" where
  "GetConfig os api folder name s =
     (case s of (m, w) \<Rightarrow>
        let path = folder @ ''/'' @ name
        in case smap_find (configs m) path of
             Some r \<Rightarrow> (Ret r, (m, w))
           | None \<Rightarrow>
               (case new_Config os api folder name w of
                  (Ret cfg, w') \<Rightarrow>
                    (let r = length (cfg_objects m);
                         m' = m\<lparr>configs := smap_emplace path r (configs m),
                                cfg_objects := cfg_objects m @ [cfg]\<rparr>
                     in case smap_find (configs m') path of
                          Some r' \<Rightarrow> (Ret r', (m', w'))
                        | None \<Rightarrow> (Throw (OutOfRange ''map::at''), (m', w')))
                | (Throw e, w') \<Rightarrow> (Throw e, (m, w'))
                | (Hang, w') \<Rightarrow> (Hang, (m, w'))))"

definition GetConfig_default ::
  "('w, 'x) posix_scheme \<Rightarrow> ('pt, 'w, 'y) ptree_api_scheme \<Rightarrow> string \<Rightarrow>
     ('pt ConfigManager \<times> 'w, nat) prog" where
  "GetConfig_default os api name = GetConfig os api kDefFolder name"

end
