(* ===== verification/Config_Store.thy ===== *)
theory Config_Store
  imports Prelude
begin

text \<open>
  The interface between the daemon's configuration and the class \<open>Config\<close>: string values
  under keys, a read with a default, and a write that may throw. The lemmas are about the
  pattern with which the daemon fills its configuration file: read a key with its default
  and write back what was read. \<open>Config_Lemmas\<close> interprets the locale on the model of
  \<open>GetString\<close> and \<open>WriteString\<close>.
\<close>

definition write_back ::
  "(string \<Rightarrow> string \<Rightarrow> ('s, string) prog) \<Rightarrow> (string \<Rightarrow> string \<Rightarrow> ('s, unit) prog) \<Rightarrow>
     string \<times> string \<Rightarrow> ('s, unit) prog" where
  "write_back get put kd = bindp (get (fst kd) (snd kd)) (put (fst kd))"

text \<open>Sequences of reads and writes, on a store and on a map; a read answers with its value.\<close>

datatype store_op = ReadOp string string | WriteOp string string

fun op_key :: "store_op \<Rightarrow> string" where
  "op_key (ReadOp k d) = k"
| "op_key (WriteOp k v) = k"

fun run_ops ::
  "(string \<Rightarrow> string \<Rightarrow> ('s, string) prog) \<Rightarrow> (string \<Rightarrow> string \<Rightarrow> ('s, unit) prog) \<Rightarrow>
     store_op list \<Rightarrow> 's \<Rightarrow> string option list \<times> 's" where
  "run_ops get put [] s = ([], s)"
| "run_ops get put (ReadOp k d # ops) s =
     (case get k d s of
        (r, s1) \<Rightarrow>
          (case run_ops get put ops s1 of
             (rs, s') \<Rightarrow> ((case r of Ret v \<Rightarrow> Some v | _ \<Rightarrow> None) # rs, s')))"
| "run_ops get put (WriteOp k v # ops) s =
     (case put k v s of
        (r, s1) \<Rightarrow> (case run_ops get put ops s1 of (rs, s') \<Rightarrow> (None # rs, s')))"

fun map_ops ::
  "store_op list \<Rightarrow> (string \<Rightarrow> string option) \<Rightarrow> string option list \<times> (string \<Rightarrow> string option)" where
  "map_ops [] m = ([], m)"
| "map_ops (ReadOp k d # ops) m =
     (case map_ops ops m of (rs, m') \<Rightarrow> (Some (case m k of None \<Rightarrow> d | Some v \<Rightarrow> v) # rs, m'))"
| "map_ops (WriteOp k v # ops) m = (case map_ops ops (m(k \<mapsto> v)) of (rs, m') \<Rightarrow> (None # rs, m'))"

locale config_store =
  fixes ok :: "'s \<Rightarrow> bool"
    and look :: "'s \<Rightarrow> string \<Rightarrow> string option"
    and key_ok :: "string \<Rightarrow> bool"
    and get :: "string \<Rightarrow> string \<Rightarrow> ('s, string) prog"
    and put :: "string \<Rightarrow> string \<Rightarrow> ('s, unit) prog"
  assumes get_value: "ok s \<Longrightarrow> get k d s = (Ret (case look s k of None \<Rightarrow> d | Some v \<Rightarrow> v), s)"
    and put_ok: "ok s \<Longrightarrow> key_ok k \<Longrightarrow> put k v s = (r, s') \<Longrightarrow> ok s'"
    and put_returns: "ok s \<Longrightarrow> put k v s \<noteq> (Hang, s')"
    and put_same: "ok s \<Longrightarrow> key_ok k \<Longrightarrow> put k v s = (r, s') \<Longrightarrow> look s' k = Some v"
    and put_other: "ok s \<Longrightarrow> key_ok k \<Longrightarrow> key_ok k' \<Longrightarrow> k' \<noteq> k \<Longrightarrow> put k v s = (r, s') \<Longrightarrow>
      look s' k' = look s k'"
begin

lemma get_after_put:
  assumes "ok s" and "key_ok k" and "put k v s = (r, s')"
  shows "get k d s' = (Ret v, s')"
  using get_value [OF put_ok [OF assms]] put_same [OF assms] by simp

lemma write_back_step:
  assumes "ok s" and "key_ok k" and "write_back get put (k, d) s = (r, s')"
  shows "ok s'" and "r \<noteq> Hang"
    and "look s' k = Some (case look s k of None \<Rightarrow> d | Some v \<Rightarrow> v)"
    and "key_ok k' \<Longrightarrow> k' \<noteq> k \<Longrightarrow> look s' k' = look s k'"
proof -
  have p: "put k (case look s k of None \<Rightarrow> d | Some v \<Rightarrow> v) s = (r, s')"
    using assms(1,3) by (simp add: write_back_def bindp_def get_value)
  show "ok s'" "r \<noteq> Hang" "look s' k = Some (case look s k of None \<Rightarrow> d | Some v \<Rightarrow> v)"
    and "key_ok k' \<Longrightarrow> k' \<noteq> k \<Longrightarrow> look s' k' = look s k'"
    using put_ok [OF assms(1,2) p] put_returns [OF assms(1)] p put_same [OF assms(1,2) p]
      put_other [OF assms(1,2) _ _ p] by auto
qed

text \<open>Filling in a list of keys: if all of it returns, every key has its value or its default.\<close>

lemma write_back_all:
  assumes "ok s" and "\<forall>kd \<in> set kds. key_ok (fst kd)" and "distinct (map fst kds)"
    and "forM (write_back get put) kds s = (r, s')"
  shows "ok s' \<and> r \<noteq> Hang \<and>
    (r = Ret () \<longrightarrow> (\<forall>(k, d) \<in> set kds. look s' k = Some (case look s k of None \<Rightarrow> d | Some v \<Rightarrow> v))) \<and>
    (\<forall>k. key_ok k \<and> k \<notin> fst ` set kds \<longrightarrow> look s' k = look s k)"
  using assms
proof (induction kds arbitrary: s)
  case Nil
  then show ?case by auto
next
  case (Cons kd kds)
  obtain k d where kd: "kd = (k, d)" by fastforce
  obtain r1 s1 where w: "write_back get put (k, d) s = (r1, s1)" by fastforce
  have k: "key_ok k" using Cons.prems(2) kd by simp
  note st = write_back_step [OF Cons.prems(1) k w]
  show ?case
  proof (cases r1)
    case (Ret u)
    then have rest: "forM (write_back get put) kds s1 = (r, s')"
      using Cons.prems(4) w by (simp add: kd thenp_def bindp_def)
    have ih: "ok s' \<and> r \<noteq> Hang \<and>
        (r = Ret () \<longrightarrow> (\<forall>(k, d) \<in> set kds. look s' k = Some (case look s1 k of None \<Rightarrow> d | Some v \<Rightarrow> v))) \<and>
        (\<forall>k. key_ok k \<and> k \<notin> fst ` set kds \<longrightarrow> look s' k = look s1 k)"
      using Cons.IH [OF st(1) _ _ rest] Cons.prems(2,3) by simp
    have nk: "k \<notin> fst ` set kds" using Cons.prems(3) kd by simp
    have same: "look s1 k' = look s k'" if "k' \<in> fst ` set kds" for k'
      using that nk Cons.prems(2) by (intro st(4)) auto
    have v: "look s' k' = Some (case look s k' of None \<Rightarrow> d' | Some v \<Rightarrow> v)"
      if "r = Ret ()" and "(k', d') \<in> set kds" for k' d'
    proof -
      have "k' \<in> fst ` set kds" using that(2) by force
      then show ?thesis using ih that same [of k'] by fastforce
    qed
    have o1: "look s' k = look s1 k" using ih k nk by blast
    have o2: "look s' k' = look s k'" if "key_ok k'" "k' \<notin> fst ` set (kd # kds)" for k'
      using ih st(4) [of k'] that kd by simp
    have all: "r = Ret () \<longrightarrow> (\<forall>(k', d') \<in> set (kd # kds).
        look s' k' = Some (case look s k' of None \<Rightarrow> d' | Some v \<Rightarrow> v))"
    proof (intro impI ballI; clarify)
      fix k' d'
      assume r: "r = Ret ()" and "(k', d') \<in> set (kd # kds)"
      then consider "k' = k" "d' = d" | "(k', d') \<in> set kds" using kd by auto
      then show "look s' k' = Some (case look s k' of None \<Rightarrow> d' | Some v \<Rightarrow> v)"
        by cases (use o1 st(3) v [OF r] in auto)
    qed
    from ih have "ok s'" "r \<noteq> Hang" by simp_all
    with all o2 show ?thesis by blast
  next
    case (Throw e)
    then have "r = Throw e \<and> s' = s1" using Cons.prems(4) w by (simp add: kd thenp_def bindp_def)
    with st show ?thesis by (auto simp: kd)
  next
    case Hang
    with st(2) show ?thesis by simp
  qed
qed

text \<open>
  Any sequence of reads and writes behaves as on a map from keys to values, whether the
  writes return or throw.
\<close>

lemma run_ops_refines:
  assumes "ok s" and "\<forall>x \<in> set ops. key_ok (op_key x)" and "run_ops get put ops s = (rs, s')"
  shows "ok s' \<and> rs = fst (map_ops ops (look s)) \<and>
    (\<forall>k. key_ok k \<longrightarrow> look s' k = snd (map_ops ops (look s)) k)"
proof -
  have "ok s' \<and> rs = fst (map_ops ops m) \<and> (\<forall>k. key_ok k \<longrightarrow> look s' k = snd (map_ops ops m) k)"
    if "\<forall>k. key_ok k \<longrightarrow> look s k = m k" for m
    using assms that
  proof (induction ops arbitrary: s rs m)
    case Nil
    then show ?case by simp
  next
    case (Cons x ops)
    show ?case
    proof (cases x)
      case (ReadOp k d)
      obtain rs1 where "run_ops get put ops s = (rs1, s')"
        "rs = Some (case look s k of None \<Rightarrow> d | Some v \<Rightarrow> v) # rs1"
        using Cons.prems(1,3) ReadOp by (auto simp: get_value split: prod.splits)
      moreover have "look s k = m k" using Cons.prems(2,4) ReadOp by simp
      ultimately show ?thesis
        using Cons.IH [OF Cons.prems(1) _ _ Cons.prems(4)] Cons.prems(2) ReadOp by (auto split: prod.split)
    next
      case (WriteOp k v)
      obtain r1 s1 where p: "put k v s = (r1, s1)" by fastforce
      obtain rs1 where t: "run_ops get put ops s1 = (rs1, s')" "rs = None # rs1"
        using Cons.prems(3) WriteOp p by (auto split: prod.splits)
      have k: "key_ok k" using Cons.prems(2) WriteOp by simp
      define m1 where "m1 = m(k \<mapsto> v)"
      have m: "\<forall>k'. key_ok k' \<longrightarrow> look s1 k' = m1 k'" unfolding m1_def
        using put_same [OF Cons.prems(1) k p] put_other [OF Cons.prems(1) k _ _ p] Cons.prems(4) by simp
      show ?thesis
        using Cons.IH [OF put_ok [OF Cons.prems(1) k p] _ t(1) m] Cons.prems(2) t(2) WriteOp
        by (simp add: m1_def [symmetric] split: prod.split)
    qed
  qed
  then show ?thesis by blast
qed

end

end
