(* ===== verification/Config_Lemmas.thy ===== *)
theory Config_Lemmas
  imports Config Config_Store
begin

text \<open>
  Lemmas on \<open>Config\<close> and \<open>ConfigManager\<close>: what the writers and the readers compute when
  the mutex is free, the interpretation of \<open>config_store\<close> on \<open>GetString\<close> and
  \<open>WriteString\<close>, and the invariant of the manager.
\<close>

section \<open>The mutex\<close>

lemma lock_guard_locked: "mtx_locked c \<Longrightarrow> lock_guard m (c, w) = (Hang, (c, w))"
  by (simp add: lock_guard_def)

lemma lock_guard_releases:
  "lock_guard m s = (r, (c', w')) \<Longrightarrow> r \<noteq> Hang \<Longrightarrow> \<not> mtx_locked c'"
  by (auto simp: lock_guard_def split: prod.splits if_splits outcome.splits)

lemma unlocked_id [simp]: "\<not> mtx_locked c \<Longrightarrow> c\<lparr>mtx_locked := False\<rparr> = c"
  by (cases c) simp

lemma unlocked_root [simp]: "\<not> mtx_locked c \<Longrightarrow> c\<lparr>root := t, mtx_locked := False\<rparr> = c\<lparr>root := t\<rparr>"
  by (cases c) simp

section \<open>Writing\<close>

definition save_result :: "'a Config \<times> 'w \<Rightarrow> 'a \<Rightarrow> exn option \<times> 'w \<Rightarrow> unit outcome \<times> ('a Config \<times> 'w)" where
  "save_result s t r =
     ((case fst r of None \<Rightarrow> Ret () | Some e \<Rightarrow> Throw e), ((fst s)\<lparr>root := t\<rparr>, snd r))"

lemma locked_save:
  assumes "\<not> mtx_locked c" and "f (root c) = Inr t"
  shows "lock_guard (thenp (set_root f) (save_root api)) (c, w) =
    save_result (c, w) t (js_save api (configPath c) t w)"
  using assms
  by (cases c)
    (auto simp: lock_guard_def thenp_def bindp_def set_root_def save_root_def save_result_def
      split: prod.splits option.splits)

text \<open>What a handler turns an exception into.\<close>

definition handled :: "string \<Rightarrow> exn \<Rightarrow> exn" where
  "handled text e =
     (case e of
        PtreeBadData what \<Rightarrow> RuntimeError (''Can't add ('' @ text @ what)
      | JsonParserError what \<Rightarrow> cant_write what
      | _ \<Rightarrow> e)"

lemma write_handler_handled: "write_handler text e = raise (handled text e)"
  by (simp add: write_handler_def handled_def split: exn.split)

lemma catch_save:
  "catchp m (write_handler text) s =
     (case m s of
        (Throw e, s') \<Rightarrow> (Throw (handled text e), s')
      | rs \<Rightarrow> rs)"
  by (auto simp: catchp_def write_handler_handled split: prod.splits outcome.splits)

lemma WriteString_run:
  assumes "\<not> mtx_locked c" and "pt_put api k v (root c) = Inr t"
  shows "WriteString api k v (c, w) =
    (case js_save api (configPath c) t w of
       (None, w') \<Rightarrow> (Ret (), (c\<lparr>root := t\<rparr>, w'))
     | (Some e, w') \<Rightarrow> (Throw (handled (quoted k @ '':'' @ quoted v @ '' : '') e), (c\<lparr>root := t\<rparr>, w')))"
  using locked_save [of c "pt_put api k v" t api w] assms
  by (simp add: WriteString_def catch_save save_result_def split: prod.splits option.splits)

lemma WriteArray_run:
  assumes "\<not> mtx_locked c" and "add_array api k vs (root c) = Inr t"
  shows "WriteArray api k vs (c, w) =
    (case js_save api (configPath c) t w of
       (None, w') \<Rightarrow> (Ret (), (c\<lparr>root := t\<rparr>, w'))
     | (Some e, w') \<Rightarrow> (Throw (handled (quoted k @ '': array_of_values '') e), (c\<lparr>root := t\<rparr>, w')))"
  using locked_save [of c "add_array api k vs" t api w] assms
  by (simp add: WriteArray_def catch_save save_result_def split: prod.splits option.splits)

lemma array_tree_result:
  assumes "ptree_laws api"
  shows "\<exists>t. array_tree api vs child = Inr t \<and>
    map (pt_data api \<circ> snd) (pt_children api t) = map (pt_data api \<circ> snd) (pt_children api child) @ vs"
proof (induction vs arbitrary: child)
  case Nil
  then show ?case by simp
next
  case (Cons v vs)
  obtain ob where ob: "pt_put api [] v (pt_empty api) = Inr ob" "pt_data api ob = v"
    using ptree_put_root [OF assms] by metis
  with Cons.IH [of "pt_push_back api [] ob child"] show ?case
    by (auto simp: ptree_push_back [OF assms])
qed

lemma add_array_result:
  assumes "ptree_laws api"
  obtains child where "map (pt_data api \<circ> snd) (pt_children api child) = vs"
    and "add_array api k vs r =
      Inr (if k \<in> fst ` set (pt_children api r) then r else pt_add_child api k child r)"
proof -
  obtain t where t: "array_tree api vs (pt_empty api) = Inr t"
    "map (pt_data api \<circ> snd) (pt_children api t) = vs"
    using array_tree_result [OF assms, of vs "pt_empty api"] by (auto simp: ptree_empty [OF assms])
  show thesis
    by (rule that [OF t(2)]) (simp add: add_array_def t(1) ptree_find [OF assms])
qed

section \<open>Reading\<close>

lemma GetString_run:
  assumes "\<not> mtx_locked c" and "ptree_laws api"
  shows "GetString api k d (c, w) =
    (Ret (case pt_get_opt api (root c) k of None \<Rightarrow> d | Some v \<Rightarrow> v), (c, w))"
  using assms(1)
  by (cases c)
    (simp add: GetString_def lock_guard_def catchp_def bindp_def ptree_get_def [OF assms(2)])

lemma GetInt_run:
  assumes "\<not> mtx_locked c" and "ptree_laws api"
  shows "GetInt api lx k d (c, w) =
    (case lx_to_int lx (case pt_get_opt api (root c) k of None \<Rightarrow> lx_of_int lx d | Some v \<Rightarrow> v) of
       None \<Rightarrow> (Throw BadLexicalCast, (c, w))
     | Some i \<Rightarrow> (Ret i, (c, w)))"
  by (simp add: GetInt_def bindp_def GetString_run [OF assms] split: option.split)

lemma GetArray_found:
  assumes "\<not> mtx_locked c" and "pt_get_child api (root c) k = Some t"
  shows "GetArray api k d (c, w) =
    (Ret (if pt_children api t = [] then d else map (pt_data api \<circ> snd) (pt_children api t)), (c, w))"
  using assms by (cases c) (simp add: GetArray_def lock_guard_def bindp_def Let_def comp_def)

text \<open>Without the key \<open>GetArray\<close> calls \<open>Write\<close>, which locks the mutex once more.\<close>

lemma WriteArray_locked: "mtx_locked c \<Longrightarrow> WriteArray api k vs (c, w) = (Hang, (c, w))"
  by (simp add: WriteArray_def catch_save lock_guard_locked)

lemma WriteString_locked: "mtx_locked c \<Longrightarrow> WriteString api k v (c, w) = (Hang, (c, w))"
  by (simp add: WriteString_def catch_save lock_guard_locked)

lemma GetArray_missing:
  assumes "\<not> mtx_locked c" and "pt_get_child api (root c) k = None"
  shows "GetArray api k d (c, w) = (Hang, (c\<lparr>mtx_locked := True\<rparr>, w))"
  using assms by (cases c) (simp add: GetArray_def lock_guard_def thenp_def bindp_def WriteArray_locked)

section \<open>The store\<close>

definition cfg_ok :: "('a, 'w, 'x) ptree_api_scheme \<Rightarrow> 'a Config \<times> 'w \<Rightarrow> bool" where
  "cfg_ok api s \<longleftrightarrow> ptree_laws api \<and> \<not> mtx_locked (fst s)"

definition cfg_look :: "('a, 'w, 'x) ptree_api_scheme \<Rightarrow> 'a Config \<times> 'w \<Rightarrow> string \<Rightarrow> string option" where
  "cfg_look api s k = pt_get_opt api (root (fst s)) k"

lemma WriteString_store:
  assumes "ptree_laws api" and "\<not> mtx_locked c" and "config_key k"
    and "WriteString api k v (c, w) = (r, (c', w'))"
  shows "\<exists>t. c' = c\<lparr>root := t\<rparr> \<and> r \<noteq> Hang \<and> pt_get_opt api t k = Some v \<and>
    (\<forall>k'. config_key k' \<and> k' \<noteq> k \<longrightarrow> pt_get_child api t k' = pt_get_child api (root c) k') \<and>
    map_option (pt_children api) (pt_get_child api t k) =
      Some (case pt_get_child api (root c) k of None \<Rightarrow> [] | Some x \<Rightarrow> pt_children api x) \<and>
    fst ` set (pt_children api t) =
      insert (takeWhile (\<lambda>ch. ch \<noteq> CHR ''.'') k) (fst ` set (pt_children api (root c))) \<and>
    (\<forall>s n. dot_free s \<and> dot_free n \<and> key2 s n \<noteq> k \<longrightarrow>
      section_count api t s n = section_count api (root c) s n)"
proof -
  obtain s n where k: "k = key2 s n" "dot_free s" "dot_free n" using assms(3) by (rule config_keyE)
  obtain t ch where t: "pt_put api (key2 s n) v (root c) = Inr t"
    "pt_get_child api t (key2 s n) = Some ch" "pt_data api ch = v"
    "pt_children api ch = (case pt_get_child api (root c) (key2 s n) of None \<Rightarrow> [] | Some c \<Rightarrow> pt_children api c)"
    "\<And>s' n'. dot_free s' \<Longrightarrow> dot_free n' \<Longrightarrow> (s', n') \<noteq> (s, n) \<Longrightarrow>
      pt_get_child api t (key2 s' n') = pt_get_child api (root c) (key2 s' n') \<and>
      section_count api t s' n' = section_count api (root c) s' n'"
    "fst ` set (pt_children api t) = insert s (fst ` set (pt_children api (root c)))"
    using ptree_put [OF assms(1) k(2,3), where v = v and t = "root c"] by blast
  have run: "c' = c\<lparr>root := t\<rparr> \<and> r \<noteq> Hang"
    using assms(4) WriteString_run [OF assms(2), of api k v t w] t(1) k(1)
    by (auto split: prod.splits option.splits)
  have other: "pt_get_child api t k' = pt_get_child api (root c) k'"
    if k': "config_key k'" "k' \<noteq> k" for k'
  proof -
    obtain s' n' where e: "k' = key2 s' n'" "dot_free s'" "dot_free n'"
      using k'(1) by (rule config_keyE)
    then show ?thesis using t(5) [OF e(2,3)] k'(2) k(1) by auto
  qed
  have count: "section_count api t s' n' = section_count api (root c) s' n'"
    if "dot_free s'" "dot_free n'" "key2 s' n' \<noteq> k" for s' n'
    using t(5) [OF that(1,2)] that(3) k(1) by auto
  show ?thesis
    using run t(2-4,6) other count k(1) key2_section [OF k(2), of n]
    by (intro exI [of _ t]) (simp add: pt_get_opt_def)
qed

interpretation store: config_store "cfg_ok api" "cfg_look api" config_key "GetString api" "WriteString api"
  for api :: "('a, 'w, 'x) ptree_api_scheme"
proof unfold_locales
  fix s :: "'a Config \<times> 'w" and k d
  assume "cfg_ok api s"
  then show "GetString api k d s = (Ret (case cfg_look api s k of None \<Rightarrow> d | Some v \<Rightarrow> v), s)"
    by (cases s) (simp add: GetString_run cfg_ok_def cfg_look_def)
next
  fix s s' :: "'a Config \<times> 'w" and k v r
  assume s: "cfg_ok api s" "config_key k" "WriteString api k v s = (r, s')"
  obtain c w c' w' where e: "s = (c, w)" "s' = (c', w')" by fastforce
  obtain t where t: "c' = c\<lparr>root := t\<rparr>" "pt_get_opt api t k = Some v"
    "\<forall>k'. config_key k' \<and> k' \<noteq> k \<longrightarrow> pt_get_child api t k' = pt_get_child api (root c) k'"
    using WriteString_store [of api c k v w r c' w'] s e by (auto simp: cfg_ok_def)
  show "cfg_ok api s'" using s(1) t(1) e by (simp add: cfg_ok_def)
  show "cfg_look api s' k = Some v" using t e by (simp add: cfg_look_def)
  show "cfg_look api s' k' = cfg_look api s k'" if "config_key k'" "k' \<noteq> k" for k'
    using t that e by (simp add: cfg_look_def pt_get_opt_def)
next
  fix s s' :: "'a Config \<times> 'w" and k v
  assume s: "cfg_ok api s"
  obtain c w where e: "s = (c, w)" by fastforce
  have "\<not> mtx_locked c" using s e by (simp add: cfg_ok_def)
  then show "WriteString api k v s \<noteq> (Hang, s')"
    unfolding e
    by (cases c)
      (auto simp: WriteString_def catch_save lock_guard_def thenp_def bindp_def set_root_def
        save_root_def split: prod.splits sum.splits option.splits outcome.splits)
qed

end
