(* ===== verification/Demo_Tree.thy ===== *)
theory Demo_Tree
  imports Property_Tree
begin

text \<open>
  A concrete property tree and a concrete decimal conversion that satisfy the contracts of
  \<open>Property_Tree\<close>. The witnesses of the configuration and of the client use them; the
  model of the program does not.
\<close>

section \<open>Trees\<close>

datatype rtree = RT (rt_data: string) (rt_children: "(string \<times> rtree) list")

function split_dots :: "string \<Rightarrow> string list" where
  "split_dots s =
     (if s = [] then []
      else takeWhile (\<lambda>c. c \<noteq> CHR ''.'') s # split_dots (drop 1 (dropWhile (\<lambda>c. c \<noteq> CHR ''.'') s)))"
  by pat_completeness auto
termination
proof (relation "measure length", simp)
  fix s :: string
  assume "s \<noteq> []"
  then have "length (drop 1 (dropWhile (\<lambda>c. c \<noteq> CHR ''.'') s)) < length s"
    using length_dropWhile_le [of "\<lambda>c. c \<noteq> CHR ''.''" s] by (cases s) (auto simp: less_Suc_eq_le)
  then show "(drop 1 (dropWhile (\<lambda>c. c \<noteq> CHR ''.'') s), s) \<in> measure length" by simp
qed

declare split_dots.simps [simp del]

fun upd_first :: "'k \<Rightarrow> ('a \<Rightarrow> 'a) \<Rightarrow> 'a \<Rightarrow> ('k \<times> 'a) list \<Rightarrow> ('k \<times> 'a) list" where
  "upd_first x f e [] = [(x, f e)]"
| "upd_first x f e ((y, c) # r) = (if x = y then (y, f c) # r else (y, c) # upd_first x f e r)"

fun walk :: "string list \<Rightarrow> rtree \<Rightarrow> rtree option" where
  "walk [] t = Some t"
| "walk (x # xs) t = (case map_of (rt_children t) x of None \<Rightarrow> None | Some c \<Rightarrow> walk xs c)"

fun put_path :: "string list \<Rightarrow> string \<Rightarrow> rtree \<Rightarrow> rtree" where
  "put_path [] v t = RT v (rt_children t)"
| "put_path (x # xs) v t =
     RT (rt_data t) (upd_first x (put_path xs v) (RT [] []) (rt_children t))"

fun add_path :: "string list \<Rightarrow> rtree \<Rightarrow> rtree \<Rightarrow> rtree" where
  "add_path [] c t = t"
| "add_path [x] c t = RT (rt_data t) (rt_children t @ [(x, c)])"
| "add_path (x # xs) c t =
     RT (rt_data t) (upd_first x (add_path xs c) (RT [] []) (rt_children t))"

text \<open>The text format of the demonstration: one \<open>name=value\<close> per line.\<close>

definition parse_pair :: "string \<Rightarrow> (string \<times> rtree) option" where
  "parse_pair l =
     (case find_char CHR ''='' l of None \<Rightarrow> None | Some i \<Rightarrow> Some (take i l, RT (drop (i + 1) l) []))"

fun demo_lines :: "nat \<Rightarrow> string \<Rightarrow> string list" where
  "demo_lines 0 s = []"
| "demo_lines (Suc n) s = (case getline s of None \<Rightarrow> [] | Some (l, r) \<Rightarrow> l # demo_lines n r)"

definition demo_parse :: "string \<Rightarrow> exn + rtree" where
  "demo_parse s =
     (if s = [] then Inl (JsonParserError ''unexpected end of input'')
      else Inr (RT [] (List.map_filter parse_pair (demo_lines (length s) s))))"

text \<open>Reading decimal numbers back.\<close>

fun parse_nat :: "nat \<Rightarrow> string \<Rightarrow> nat option" where
  "parse_nat a [] = Some a"
| "parse_nat a (c # cs) =
     (case find_char c digits10 of None \<Rightarrow> None | Some d \<Rightarrow> parse_nat (10 * a + d) cs)"

definition parse_int :: "string \<Rightarrow> int option" where
  "parse_int s =
     (case s of
        [] \<Rightarrow> None
      | c # cs \<Rightarrow>
          if c = CHR ''-'' then (if cs = [] then None else map_option (\<lambda>n. - int n) (parse_nat 0 cs))
          else map_option int (parse_nat 0 s))"

definition demo_lex :: lexical_api where
  "demo_lex = \<lparr>lx_of_int = (\<lambda>i. show_int (sint i)), lx_to_int = (\<lambda>s. map_option of_int (parse_int s))\<rparr>"

type_synonym demo_disk = "(string \<times> rtree) list"

definition rtree_api ::
  "(string \<Rightarrow> 'w \<Rightarrow> exn + rtree) \<Rightarrow> (string \<Rightarrow> rtree \<Rightarrow> 'w \<Rightarrow> exn option \<times> 'w) \<Rightarrow>
     (rtree, 'w) ptree_api" where
  "rtree_api ld sv = \<lparr>
     pt_empty = RT [] [],
     pt_data = rt_data,
     pt_children = rt_children,
     pt_get_child = (\<lambda>t k. walk (split_dots k) t),
     pt_get_def = (\<lambda>t k d. Inr (case walk (split_dots k) t of None \<Rightarrow> d | Some c \<Rightarrow> rt_data c)),
     pt_find = (\<lambda>k t. map_of (rt_children t) k \<noteq> None),
     pt_put = (\<lambda>k v t. Inr (put_path (split_dots k) v t)),
     pt_add_child = (\<lambda>k c t. add_path (split_dots k) c t),
     pt_push_back = (\<lambda>n c t. RT (rt_data t) (rt_children t @ [(n, c)])),
     pt_to_float = (\<lambda>s. map_option of_int (parse_int s)),
     pt_to_int64 = (\<lambda>s. map_option of_int (parse_int s)),
     pt_of_float = (\<lambda>f. show_nat (unat f)),
     js_parse = demo_parse,
     js_print = (\<lambda>t. Inr (concat (map (\<lambda>c. fst c @ ''='' @ rt_data (snd c) @ [NL]) (rt_children t)))),
     js_load = ld,
     js_save = sv\<rparr>"

definition demo_tree :: "(rtree, demo_disk) ptree_api" where
  "demo_tree = rtree_api
     (\<lambda>p w. case map_of w p of None \<Rightarrow> Inl (JsonParserError ''cannot open file'') | Some t \<Rightarrow> Inr t)
     (\<lambda>p t w. (None, (p, t) # w))"

section \<open>The laws\<close>

lemma split_dots_Nil [simp]: "split_dots [] = []"
  by (subst split_dots.simps) simp

lemma split_dots_free: "dot_free s \<Longrightarrow> split_dots s = [s]"
proof -
  assume s: "dot_free s"
  have a: "\<forall>x \<in> set s. x \<noteq> CHR ''.''" using s by (auto simp: dot_free_def)
  then have t: "takeWhile (\<lambda>c. c \<noteq> CHR ''.'') s = s" by (rule takeWhile_snoc_all)
  have d: "dropWhile (\<lambda>c. c \<noteq> CHR ''.'') s = []" using a by simp
  have "split_dots s = takeWhile (\<lambda>c. c \<noteq> CHR ''.'') s #
      split_dots (drop 1 (dropWhile (\<lambda>c. c \<noteq> CHR ''.'') s))"
    using s by (subst split_dots.simps) (simp add: dot_free_def)
  then show ?thesis unfolding t d by simp
qed

lemma split_dots_key2:
  assumes "dot_free s" "dot_free n"
  shows "split_dots (key2 s n) = [s, n]"
proof -
  have "dropWhile (\<lambda>c. c \<noteq> CHR ''.'') (s @ CHR ''.'' # n) = CHR ''.'' # n"
    by (rule takeWhile_append_stop(2)) (use assms in \<open>auto simp: dot_free_def\<close>)
  then show ?thesis
    using key2_section [OF assms(1), of n] split_dots_free [OF assms(2)]
    by (subst split_dots.simps) (simp add: key2_def)
qed

lemma map_of_upd_first:
  "map_of (upd_first x f e xs) y =
     (if y = x then Some (f (case map_of xs x of None \<Rightarrow> e | Some c \<Rightarrow> c)) else map_of xs y)"
  by (induction x f e xs rule: upd_first.induct) auto

lemma fst_upd_first: "fst ` set (upd_first x f e xs) = insert x (fst ` set xs)"
  by (induction x f e xs rule: upd_first.induct) auto

lemma count_upd_first:
  "length (filter (\<lambda>c. fst c = m) (upd_first x f e xs)) =
     length (filter (\<lambda>c. fst c = m) xs) +
     (if m = x \<and> map_of xs x = None then 1 else 0)"
  by (induction x f e xs rule: upd_first.induct) auto

lemma demo_put: "put_laws (rtree_api ld sv)"
  unfolding put_laws_def
proof (intro allI impI, elim conjE)
  fix s n v t
  assume sn: "dot_free s" "dot_free n"
  let ?t' = "put_path [s, n] v t"
  let ?c = "case map_of (rt_children t) s of None \<Rightarrow> RT [] [] | Some c \<Rightarrow> c"
  let ?c' = "RT v (rt_children (case map_of (rt_children ?c) n of None \<Rightarrow> RT [] [] | Some d \<Rightarrow> d))"
  have put: "pt_put (rtree_api ld sv) (key2 s n) v t = Inr ?t'"
    by (simp add: rtree_api_def split_dots_key2 [OF sn])
  have get: "pt_get_child (rtree_api ld sv) ?t' (key2 s n) = Some ?c'"
    by (simp add: rtree_api_def split_dots_key2 [OF sn] map_of_upd_first)
  have ch: "pt_children (rtree_api ld sv) ?c' =
      (case pt_get_child (rtree_api ld sv) t (key2 s n) of None \<Rightarrow> [] | Some c \<Rightarrow> pt_children (rtree_api ld sv) c)"
    by (simp add: rtree_api_def split_dots_key2 [OF sn] split: option.splits)
  have other: "pt_get_child (rtree_api ld sv) ?t' (key2 s' n') = pt_get_child (rtree_api ld sv) t (key2 s' n') \<and>
      section_count (rtree_api ld sv) ?t' s' n' = section_count (rtree_api ld sv) t s' n'"
    if "dot_free s'" "dot_free n'" "(s', n') \<noteq> (s, n)" for s' n'
    using that
    by (auto simp: rtree_api_def split_dots_key2 split_dots_free section_count_def map_of_upd_first
        count_upd_first split: option.splits)
  show "\<exists>t' c'. pt_put (rtree_api ld sv) (key2 s n) v t = Inr t' \<and>
      pt_get_child (rtree_api ld sv) t' (key2 s n) = Some c' \<and> pt_data (rtree_api ld sv) c' = v \<and>
      pt_children (rtree_api ld sv) c' =
        (case pt_get_child (rtree_api ld sv) t (key2 s n) of None \<Rightarrow> [] | Some c \<Rightarrow> pt_children (rtree_api ld sv) c) \<and>
      (\<forall>s' n'. dot_free s' \<and> dot_free n' \<and> (s', n') \<noteq> (s, n) \<longrightarrow>
         pt_get_child (rtree_api ld sv) t' (key2 s' n') = pt_get_child (rtree_api ld sv) t (key2 s' n') \<and>
         section_count (rtree_api ld sv) t' s' n' = section_count (rtree_api ld sv) t s' n') \<and>
      fst ` set (pt_children (rtree_api ld sv) t') = insert s (fst ` set (pt_children (rtree_api ld sv) t))"
    using put get ch other
    by (intro exI [of _ ?t'] exI [of _ ?c']) (auto simp: rtree_api_def fst_upd_first)
qed

lemma demo_find: "pt_find (rtree_api ld sv) k t \<longleftrightarrow> k \<in> fst ` set (pt_children (rtree_api ld sv) t)"
  by (simp add: rtree_api_def map_of_eq_None_iff)

lemma demo_add_path:
  assumes "dot_free s" "dot_free n"
  shows "pt_add_child (rtree_api ld sv) (key2 s n) c t =
    RT (rt_data t) (upd_first s (\<lambda>p. RT (rt_data p) (rt_children p @ [(n, c)])) (RT [] []) (rt_children t))"
proof -
  have "add_path [n] c = (\<lambda>p. RT (rt_data p) (rt_children p @ [(n, c)]))" by (rule ext) simp
  then show ?thesis by (simp add: rtree_api_def split_dots_key2 [OF assms])
qed

lemma demo_get2:
  assumes "dot_free s" "dot_free n"
  shows "pt_get_child (rtree_api ld sv) t (key2 s n) =
    (case map_of (rt_children t) s of None \<Rightarrow> None | Some p \<Rightarrow> map_of (rt_children p) n)"
  by (auto simp: rtree_api_def split_dots_key2 [OF assms] split: option.split)

lemma demo_count:
  assumes "dot_free s"
  shows "section_count (rtree_api ld sv) t s n =
    (case map_of (rt_children t) s of
       None \<Rightarrow> 0 | Some p \<Rightarrow> length (filter (\<lambda>c. fst c = n) (rt_children p)))"
  by (auto simp: section_count_def rtree_api_def split_dots_free [OF assms] split: option.split)

lemma demo_add_child: "add_child_laws (rtree_api ld sv)"
  unfolding add_child_laws_def
proof (intro conjI allI impI; (elim conjE)?)
  fix s n :: string and c t
  assume sn: "dot_free s" "dot_free n"
  show "section_count (rtree_api ld sv) (pt_add_child (rtree_api ld sv) (key2 s n) c t) s n =
      Suc (section_count (rtree_api ld sv) t s n)"
    by (simp add: demo_count [OF sn(1)] demo_add_path [OF sn] map_of_upd_first split: option.split)
  show "pt_get_child (rtree_api ld sv) (pt_add_child (rtree_api ld sv) (key2 s n) c t) (key2 s n) =
      (case pt_get_child (rtree_api ld sv) t (key2 s n) of None \<Rightarrow> Some c | Some c0 \<Rightarrow> Some c0)"
    by (simp add: demo_get2 [OF sn] demo_add_path [OF sn] map_of_upd_first map_of_append map_add_def
        split: option.split)
  show "fst ` set (pt_children (rtree_api ld sv) (pt_add_child (rtree_api ld sv) (key2 s n) c t)) =
      insert s (fst ` set (pt_children (rtree_api ld sv) t))"
    using demo_add_path [OF sn, where c = c and t = t] fst_upd_first [of s _ "RT [] []" "rt_children t"]
    by (simp add: rtree_api_def)
  fix s' n' :: string
  assume sn': "dot_free s'" "dot_free n'" "(s', n') \<noteq> (s, n)"
  show "pt_get_child (rtree_api ld sv) (pt_add_child (rtree_api ld sv) (key2 s n) c t) (key2 s' n') =
      pt_get_child (rtree_api ld sv) t (key2 s' n')"
    using sn'(3)
    by (auto simp: demo_get2 [OF sn'(1,2)] demo_add_path [OF sn] map_of_upd_first map_of_append
        map_add_def split: option.split)
  show "section_count (rtree_api ld sv) (pt_add_child (rtree_api ld sv) (key2 s n) c t) s' n' =
      section_count (rtree_api ld sv) t s' n'"
    using sn'(3)
    by (auto simp: demo_count [OF sn'(1)] demo_add_path [OF sn] map_of_upd_first split: option.split)
next
  fix k t
  show "pt_find (rtree_api ld sv) k t = (k \<in> fst ` set (pt_children (rtree_api ld sv) t))" by (rule demo_find)
qed

lemma rtree_api_laws: "ptree_laws (rtree_api ld sv)"
  using demo_put demo_add_child
  by (auto simp: ptree_laws_def pt_get_opt_def rtree_api_def split: option.split)

lemma demo_tree_laws: "ptree_laws demo_tree"
  unfolding demo_tree_def by (rule rtree_api_laws)

lemma demo_parser_errors: "js_parse (rtree_api ld sv) s = Inl e \<Longrightarrow> \<exists>m. e = JsonParserError m"
  by (auto simp: rtree_api_def demo_parse_def split: if_splits)

lemma digit_char_digits10: "d < 10 \<Longrightarrow> find_char (digit_char d) digits10 = Some d"
proof -
  assume d: "d < 10"
  then have "digit_char d = digits10 ! d"
    by (auto simp: digit_char_def digits10_def numeral_eq_Suc less_Suc_eq)
  then show ?thesis
    using find_char_nth [of digits10 d] d by (simp add: digits10_def)
qed

lemma parse_nat_append:
  "parse_nat a (xs @ [c]) =
     (case parse_nat a xs of None \<Rightarrow> None
      | Some m \<Rightarrow> map_option (\<lambda>d. 10 * m + d) (find_char c digits10))"
  by (induction xs arbitrary: a) (auto split: option.split)

lemma parse_show_nat: "parse_nat 0 (show_nat n) = Some n"
proof (induction n rule: show_nat.induct)
  case (1 n)
  show ?case
    using 1 digit_char_digits10 [of n] digit_char_digits10 [of "n mod 10"]
    by (subst show_nat.simps) (auto simp: parse_nat_append)
qed

lemma parse_show_int: "parse_int (show_int i) = Some i"
proof (cases "i < 0")
  case True
  then show ?thesis by (simp add: show_int_def parse_int_def parse_show_nat)
next
  case False
  obtain c cs where c: "show_nat (nat i) = c # cs" by (cases "show_nat (nat i)") auto
  then have "c \<in> set digits10" using show_nat_digits [of "nat i"] by auto
  then have "c \<noteq> CHR ''-''" by (auto simp: digits10_def)
  with False c parse_show_nat [of "nat i"] show ?thesis
    by (simp add: show_int_def parse_int_def del: parse_nat.simps)
qed

lemma demo_lex_laws: "lexical_laws demo_lex"
  by (simp add: lexical_laws_def demo_lex_def parse_show_int)

end
