(* ===== verification/Config_Properties.thy ===== *)
theory Config_Properties
  imports Config_Lemmas Demo_Tree
begin

text \<open>
  What \<open>Config\<close> and \<open>ConfigManager\<close> promise: what is written can be read back, the mutex
  is released on every way out, the manager shares one object per path; and the two
  readers whose fallback locks the mutex twice.
\<close>

section \<open>A configuration to run things on\<close>

definition demo_cfg :: "rtree Config" where
  "demo_cfg = \<lparr>root = RT [] [(''iex_api'', RT [] [(''url'', RT ''http://x'' [])])],
     mtx_locked = False, configPath = ''./daemon.cfg'', configFolder = ''.''\<rparr>"

definition demo_cfg_posix :: "demo_disk posix" where
  "demo_cfg_posix = \<lparr>
     px_stat = (\<lambda>p w. if p = ''.'' \<or> map_of w p \<noteq> None then Some 0 else None),
     px_mkdir = (\<lambda>p w. (False, w)),
     px_chmod = (\<lambda>p w. w),
     px_remove = (\<lambda>p w. (False, w)),
     px_open_read = (\<lambda>p w. None)\<rparr>"

section \<open>Reading and writing\<close>

text \<open>
  C3: A written value is read back. After \<open>WriteString\<close> on a free configuration, whether
  it returned or threw because the file could not be written, \<open>GetString\<close> of that key
  returns the value whatever the default, every other key reads as before, and the call
  came back with the mutex free; the only exception of its own is a \<open>runtime_error\<close>, raised
  when the JSON writer failed.
\<close>

theorem config_write_read:
  assumes "ptree_laws api" and "\<not> mtx_locked c" and "config_key k"
    and "WriteString api k v (c, w) = (r, (c', w'))"
  shows "r \<noteq> Hang \<and> \<not> mtx_locked c' \<and>
    GetString api k d (c', w') = (Ret v, (c', w')) \<and>
    (\<forall>k' d'. config_key k' \<and> k' \<noteq> k \<longrightarrow>
       fst (GetString api k' d' (c', w')) = fst (GetString api k' d' (c, w))) \<and>
    (\<forall>what. fst (js_save api (configPath c) (root c') w) = Some (JsonParserError what) \<longrightarrow>
       r = Throw (RuntimeError (''Can't write json file : '' @ what)))"
proof -
  have ok: "cfg_ok api (c, w)" using assms(1,2) by (simp add: cfg_ok_def)
  have ok': "cfg_ok api (c', w')" by (rule store.put_ok [OF ok assms(3,4)])
  have other: "fst (GetString api k' d' (c', w')) = fst (GetString api k' d' (c, w))"
    if "config_key k' \<and> k' \<noteq> k" for k' d'
    using store.get_value [OF ok, of k' d'] store.get_value [OF ok', of k' d'] that
      store.put_other [OF ok assms(3) _ _ assms(4), of k'] by simp
  obtain s n where k: "k = key2 s n" "dot_free s" "dot_free n" using assms(3) by (rule config_keyE)
  obtain t where t: "pt_put api k v (root c) = Inr t"
    using ptree_put [OF assms(1) k(2,3), where v = v and t = "root c"] k(1) by metis
  have save: "r = Throw (RuntimeError (''Can't write json file : '' @ what))"
    if "fst (js_save api (configPath c) (root c') w) = Some (JsonParserError what)" for what
    using that assms(4) WriteString_run [where c = c and api = api and w = w, OF assms(2) t]
    by (auto simp: handled_def cant_write_def split: prod.splits option.splits)
  show ?thesis
    using store.put_returns [OF ok, of k v] assms(4) ok' other save
      store.get_after_put [OF ok assms(3,4), of d] by (auto simp: cfg_ok_def)
qed

theorem config_write_read_witness:
  "\<exists>r c' w'. WriteString demo_tree ''iex_api.tocken'' ''T1'' (demo_cfg, []) = (r, (c', w')) \<and>
     GetString demo_tree ''iex_api.tocken'' ''none'' (c', w') = (Ret ''T1'', (c', w'))"
proof -
  obtain r c' w' where w: "WriteString demo_tree ''iex_api.tocken'' ''T1'' (demo_cfg, []) = (r, (c', w'))"
    using prod_cases3 by blast
  have k: "config_key ''iex_api.tocken''" by code_simp
  have l: "\<not> mtx_locked demo_cfg" by (simp add: demo_cfg_def)
  show ?thesis using config_write_read [OF demo_tree_laws l k w, of "''none''"] w by blast
qed

text \<open>
  The configuration is a map. Any sequence of \<open>GetString\<close> and \<open>WriteString\<close> calls on
  dotted keys answers as the same sequence on a map from keys to values, and leaves the
  configuration with the values of that map, even where the file could not be written.
\<close>

theorem config_refines_map:
  assumes "ptree_laws api" and "\<not> mtx_locked c" and "\<forall>x \<in> set ops. config_key (op_key x)"
    and "run_ops (GetString api) (WriteString api) ops (c, w) = (rs, (c', w'))"
  shows "\<not> mtx_locked c' \<and> rs = fst (map_ops ops (pt_get_opt api (root c))) \<and>
    (\<forall>k. config_key k \<longrightarrow> pt_get_opt api (root c') k = snd (map_ops ops (pt_get_opt api (root c))) k)"
proof -
  have ok: "cfg_ok api (c, w)" using assms(1,2) by (simp add: cfg_ok_def)
  have look: "cfg_look api (c, w) = pt_get_opt api (root c)" by (rule ext) (simp add: cfg_look_def)
  show ?thesis
    using store.run_ops_refines [OF ok assms(3,4)] by (simp add: look) (simp add: cfg_ok_def cfg_look_def)
qed

definition demo_ops :: "store_op list" where
  "demo_ops = [WriteOp ''iex_api.url'' ''u'', ReadOp ''iex_api.url'' ''d'', ReadOp ''iex_api.tocken'' ''d'']"

theorem config_refines_map_witness:
  "\<exists>s'. run_ops (GetString demo_tree) (WriteString demo_tree) demo_ops (demo_cfg, []) =
     ([None, Some ''u'', Some ''d''], s')"
proof -
  obtain rs c' w' where r: "run_ops (GetString demo_tree) (WriteString demo_tree) demo_ops (demo_cfg, []) = (rs, (c', w'))"
    by (metis prod.exhaust)
  have l: "\<not> mtx_locked demo_cfg" by (simp add: demo_cfg_def)
  have k: "\<forall>x \<in> set demo_ops. config_key (op_key x)" by code_simp
  have "fst (map_ops demo_ops (pt_get_opt demo_tree (root demo_cfg))) = [None, Some ''u'', Some ''d'']" by code_simp
  then show ?thesis using config_refines_map [OF demo_tree_laws l k r] r by metis
qed

text \<open>
  Integers survive the configuration file: what \<open>WriteInt\<close> wrote, \<open>GetInt\<close> reads back,
  and \<open>GetInt\<close> of a key that is not there is its default, without a write.
\<close>

theorem config_int_roundtrip:
  assumes "ptree_laws api" and "lexical_laws lx" and "\<not> mtx_locked c" and "config_key k"
    and "WriteInt api lx k i (c, w) = (r, s')"
  shows "r \<noteq> Hang \<and> GetInt api lx k d s' = (Ret i, s') \<and>
    (pt_get_child api (root c) k = None \<longrightarrow> GetInt api lx k d (c, w) = (Ret d, (c, w)))"
proof -
  have ok: "cfg_ok api (c, w)" using assms(1,3) by (simp add: cfg_ok_def)
  have w: "WriteString api k (lx_of_int lx i) (c, w) = (r, s')" using assms(5) by (simp add: WriteInt_def)
  have lx: "lx_to_int lx (lx_of_int lx j) = Some j" for j using assms(2) by (simp add: lexical_laws_def)
  have "GetInt api lx k d s' = (Ret i, s')"
    using store.get_after_put [OF ok assms(4) w, of "lx_of_int lx d"] lx by (simp add: GetInt_def bindp_def)
  moreover have "GetInt api lx k d (c, w) = (Ret d, (c, w))" if "pt_get_child api (root c) k = None"
    using that by (simp add: GetInt_run [OF assms(3,1)] pt_get_opt_def lx)
  ultimately show ?thesis using store.put_returns [OF ok, of k "lx_of_int lx i" s'] w by auto
qed

theorem config_int_roundtrip_witness:
  "\<exists>r s'. WriteInt demo_tree demo_lex ''iex_api.t'' (- 3) (demo_cfg, []) = (r, s') \<and>
     GetInt demo_tree demo_lex ''iex_api.t'' 0 s' = (Ret (- 3), s')"
proof -
  obtain r s' where w: "WriteInt demo_tree demo_lex ''iex_api.t'' (- 3) (demo_cfg, []) = (r, s')"
    by (cases "WriteInt demo_tree demo_lex ''iex_api.t'' (- 3) (demo_cfg, [])") blast
  have k: "config_key ''iex_api.t''" by code_simp
  have l: "\<not> mtx_locked demo_cfg" by (simp add: demo_cfg_def)
  show ?thesis using config_int_roundtrip [OF demo_tree_laws demo_lex_laws l k w, of 0] w by blast
qed

section \<open>The mutex\<close>

text \<open>The six operations of a configuration, to state what holds for each of them.\<close>

datatype cfg_op =
    OpGetString string string
  | OpWriteString string string
  | OpGetInt string cint
  | OpWriteInt string cint
  | OpGetArray string "string list"
  | OpWriteArray string "string list"

fun run_op ::
  "('a, 'w, 'x) ptree_api_scheme \<Rightarrow> 'y lexical_api_scheme \<Rightarrow> cfg_op \<Rightarrow> ('a Config \<times> 'w, unit) prog" where
  "run_op api lx (OpGetString k d) = thenp (GetString api k d) (ret ())"
| "run_op api lx (OpWriteString k v) = WriteString api k v"
| "run_op api lx (OpGetInt k d) = thenp (GetInt api lx k d) (ret ())"
| "run_op api lx (OpWriteInt k v) = WriteInt api lx k v"
| "run_op api lx (OpGetArray k d) = thenp (GetArray api k d) (ret ())"
| "run_op api lx (OpWriteArray k v) = WriteArray api k v"

lemma guarded_op:
  "catchp (lock_guard m) (write_handler text) s = (r, (c', w')) \<Longrightarrow> r \<noteq> Hang \<Longrightarrow> \<not> mtx_locked c'"
  unfolding catch_save
  by (auto split: prod.splits outcome.splits dest: lock_guard_releases)

text \<open>
  C24: Every operation gives the mutex back. Whatever the property tree and the JSON writer
  do, an operation that comes back, with a value or with an exception, leaves the mutex
  free, and an operation entered while the mutex is held never comes back and changes
  nothing.
\<close>

theorem config_mutex_released:
  "(\<forall>c w r c' w'. run_op api lx cmd (c, w) = (r, (c', w')) \<and> r \<noteq> Hang \<longrightarrow> \<not> mtx_locked c') \<and>
   (\<forall>c w. mtx_locked c \<longrightarrow> run_op api lx cmd (c, w) = (Hang, (c, w)))"
proof -
  have a: "\<not> mtx_locked c'" if r: "run_op api lx cmd (c, w) = (r, (c', w'))" "r \<noteq> Hang" for c w r c' w'
  proof (cases cmd)
    case (OpGetInt k d)
    from r(1) show ?thesis unfolding OpGetInt
      using r(2)
      by (auto simp: thenp_def bindp_def GetInt_def GetString_def split: prod.splits outcome.splits option.splits
          dest: lock_guard_releases)
  qed (use r in \<open>auto simp: thenp_def bindp_def GetString_def GetArray_def WriteString_def WriteInt_def
        WriteArray_def split: prod.splits outcome.splits dest: lock_guard_releases guarded_op\<close>)
  have b: "run_op api lx cmd (c, w) = (Hang, (c, w))" if "mtx_locked c" for c w
    by (cases cmd)
      (simp_all add: thenp_def bindp_def GetString_def GetInt_def GetArray_def WriteInt_def
        WriteArray_locked WriteString_locked lock_guard_locked that)
  show ?thesis using a b by blast
qed

theorem config_mutex_released_witness:
  "run_op demo_tree demo_lex (OpGetString ''iex_api.url'' [])
     (demo_cfg\<lparr>mtx_locked := True\<rparr>, []) = (Hang, (demo_cfg\<lparr>mtx_locked := True\<rparr>, []))"
  using config_mutex_released [of demo_tree demo_lex "OpGetString ''iex_api.url'' []"] by simp

text \<open>
  The fallback of the readers locks the mutex twice. \<open>GetArray\<close> of a key that is not in
  the tree never returns, and keeps the mutex, so that every later operation hangs too;
  \<open>GetString\<close> would do the same if the tree reported a bad path instead of the default.
\<close>

theorem config_fallback_deadlock:
  assumes "\<not> mtx_locked c"
    and "pt_get_child api (root c) k = None"
    and "pt_get_def api' (root c) k' v' = Inl (PtreeBadPath what)"
  shows "GetArray api k d (c, w) = (Hang, (c\<lparr>mtx_locked := True\<rparr>, w)) \<and>
    run_op api lx cmd (snd (GetArray api k d (c, w))) = (Hang, snd (GetArray api k d (c, w))) \<and>
    GetString api' k' v' (c, w) = (Hang, (c\<lparr>mtx_locked := True\<rparr>, w))"
proof -
  have g: "GetArray api k d (c, w) = (Hang, (c\<lparr>mtx_locked := True\<rparr>, w))"
    by (rule GetArray_missing [OF assms(1,2)])
  moreover have "run_op api lx cmd (c\<lparr>mtx_locked := True\<rparr>, w) = (Hang, (c\<lparr>mtx_locked := True\<rparr>, w))"
    by (cases cmd)
      (simp_all add: thenp_def bindp_def GetString_def GetInt_def GetArray_def WriteInt_def
        WriteArray_locked WriteString_locked lock_guard_locked)
  moreover have "GetString api' k' v' (c, w) = (Hang, (c\<lparr>mtx_locked := True\<rparr>, w))"
    using assms(1,3)
    by (cases c) (simp add: GetString_def lock_guard_def catchp_def bindp_def thenp_def WriteString_locked)
  ultimately show ?thesis by simp
qed

theorem config_fallback_deadlock_witness:
  "fst (GetArray demo_tree ''iex_api.update_symbols'' [''aapl''] (demo_cfg, [])) = Hang"
proof -
  have a: "\<not> mtx_locked demo_cfg" by (simp add: demo_cfg_def)
  have b: "pt_get_child demo_tree (root demo_cfg) ''iex_api.update_symbols'' = None" by code_simp
  let ?api = "demo_tree\<lparr>pt_get_def := \<lambda>_ _ _. Inl (PtreeBadPath [])\<rparr>"
  have d: "pt_get_def ?api (root demo_cfg) [] [] = Inl (PtreeBadPath [])" by simp
  show ?thesis
    using conjunct1 [OF config_fallback_deadlock [OF a b d, of "[''aapl'']" "[]" demo_lex]] by simp
qed

section \<open>The manager\<close>

text \<open>
  The invariant: the map is sorted, and its addresses are those of objects with that path.
\<close>

definition manager_ok :: "'a ConfigManager \<Rightarrow> bool" where
  "manager_ok m \<longleftrightarrow>
     smap_ok (configs m) \<and>
     (\<forall>p a. smap_find (configs m) p = Some a \<longrightarrow>
        a < length (cfg_objects m) \<and> configPath (cfg_objects m ! a) = p)"

lemma manager_ok_new: "manager_ok new_manager"
  by (simp add: manager_ok_def new_manager_def smap_ok_def smap.find_empty)

lemma new_Config_cases:
  assumes "new_Config os api folder name w = (r, w')"
  shows "(\<exists>t. r = Ret \<lparr>root = t, mtx_locked = False, configPath = folder @ ''/'' @ name, configFolder = folder\<rparr>) \<or>
    r = Throw (RuntimeError (''Can't parse config file : '' @ folder @ ''/'' @ name))"
  using assms by (auto simp: new_Config_def Config_Init_def GetConfigPath_def Let_def split: if_splits sum.splits)

lemma GetConfig_present:
  "smap_find (configs m) (folder @ ''/'' @ name) = Some a \<Longrightarrow>
     GetConfig os api folder name (m, w) = (Ret a, (m, w))"
  by (simp add: GetConfig_def Let_def)

lemma GetConfig_absent:
  assumes "manager_ok m" and "smap_find (configs m) (folder @ ''/'' @ name) = None"
  shows "GetConfig os api folder name (m, w) =
    (case new_Config os api folder name w of
       (Ret cfg, w') \<Rightarrow>
         (Ret (length (cfg_objects m)),
           (m\<lparr>configs := smap_emplace (folder @ ''/'' @ name) (length (cfg_objects m)) (configs m),
              cfg_objects := cfg_objects m @ [cfg]\<rparr>, w'))
     | (Throw e, w') \<Rightarrow> (Throw e, (m, w'))
     | (Hang, w') \<Rightarrow> (Hang, (m, w')))"
proof -
  have "smap_ok (configs m)" using assms(1) by (simp add: manager_ok_def)
  then have f: "smap_find (smap_emplace (folder @ ''/'' @ name) x (configs m)) (folder @ ''/'' @ name) = Some x"
    for x using assms(2) smap.find_emplace_same by fastforce
  show ?thesis using assms(2) by (simp add: GetConfig_def Let_def f [simplified] split: prod.split outcome.split)
qed

lemma GetConfig_keeps_ok:
  assumes "manager_ok m" and "GetConfig os api folder name (m, w) = (r, (m', w'))"
  shows "manager_ok m'"
proof (cases "smap_find (configs m) (folder @ ''/'' @ name)")
  case (Some a)
  with assms show ?thesis by (simp add: GetConfig_present)
next
  case None
  let ?p = "folder @ ''/'' @ name"
  obtain rc wc where n: "new_Config os api folder name w = (rc, wc)" by fastforce
  show ?thesis
  proof (cases rc)
    case (Ret cfg)
    then have p: "configPath cfg = ?p" using new_Config_cases [OF n] by auto
    have sm: "smap_ok (configs m)" using assms(1) by (simp add: manager_ok_def)
    have m': "m' = m\<lparr>configs := smap_emplace ?p (length (cfg_objects m)) (configs m),
        cfg_objects := cfg_objects m @ [cfg]\<rparr>"
      using assms(2) GetConfig_absent [OF assms(1) None, of os api w] n Ret by simp
    show ?thesis
      unfolding manager_ok_def m'
      using assms(1) p smap.find_emplace_absent [OF sm None] smap.invar_emplace [OF sm]
      by (auto simp: manager_ok_def nth_append less_Suc_eq)
  qed (use assms GetConfig_absent [OF assms(1) None, of os api w] n in auto)
qed

text \<open>
  C34: One object per path. On a consistent manager \<open>GetConfig\<close> returns the address of an
  object for that path and leaves the manager consistent; a second lookup of the path, in
  whatever world, returns the same address and builds nothing; objects made earlier stay
  as they are; and a constructor that throws leaves no entry behind, so that the next
  lookup tries again.
\<close>

theorem manager_shares_configs:
  assumes "manager_ok m" and "GetConfig os api folder name (m, w) = (r, (m', w'))"
  shows "manager_ok m' \<and> r \<noteq> Hang \<and> take (length (cfg_objects m)) (cfg_objects m') = cfg_objects m \<and>
    (\<forall>a. r = Ret a \<longrightarrow>
       a < length (cfg_objects m') \<and> configPath (cfg_objects m' ! a) = folder @ ''/'' @ name \<and>
       (\<forall>w2. GetConfig os api folder name (m', w2) = (Ret a, (m', w2)))) \<and>
    (\<forall>e. r = Throw e \<longrightarrow>
       m' = m \<and> e = RuntimeError (''Can't parse config file : '' @ folder @ ''/'' @ name))"
proof (cases "smap_find (configs m) (folder @ ''/'' @ name)")
  case (Some a)
  then have g: "GetConfig os api folder name (m, w2) = (Ret a, (m, w2))" for w2 by (rule GetConfig_present)
  then have "r = Ret a" "m' = m" using assms(2) by auto
  then show ?thesis using assms(1) Some g by (auto simp: manager_ok_def)
next
  case None
  let ?p = "folder @ ''/'' @ name"
  have ok: "manager_ok m'" by (rule GetConfig_keeps_ok [OF assms])
  obtain rc wc where n: "new_Config os api folder name w = (rc, wc)" by fastforce
  note run = assms(2) GetConfig_absent [OF assms(1) None, of os api w] n
  show ?thesis
  proof (cases rc)
    case (Ret cfg)
    have sm: "smap_ok (configs m)" using assms(1) by (simp add: manager_ok_def)
    from run Ret have r: "r = Ret (length (cfg_objects m))"
      and m': "m' = m\<lparr>configs := smap_emplace ?p (length (cfg_objects m)) (configs m),
        cfg_objects := cfg_objects m @ [cfg]\<rparr>" by simp_all
    have f: "smap_find (configs m') ?p = Some (length (cfg_objects m))"
      using smap.find_emplace_same [OF sm] None by (simp add: m')
    have a: "length (cfg_objects m) < length (cfg_objects m') \<and>
        configPath (cfg_objects m' ! length (cfg_objects m)) = ?p"
      using ok f unfolding manager_ok_def by blast
    have old: "take (length (cfg_objects m)) (cfg_objects m') = cfg_objects m" by (simp add: m')
    have g: "GetConfig os api folder name (m', w2) = (Ret (length (cfg_objects m)), (m', w2))" for w2
      by (rule GetConfig_present [OF f])
    show ?thesis using ok a old g by (simp add: r)
  next
    case (Throw e)
    then have "r = Throw e" "m' = m" using run by simp_all
    then show ?thesis using Throw new_Config_cases [OF n] assms(1) by auto
  next
    case Hang
    then show ?thesis using new_Config_cases [OF n] by auto
  qed
qed

theorem manager_shares_configs_witness:
  "\<exists>r m' w'. GetConfig_default demo_cfg_posix demo_tree ''daemon.cfg'' (new_manager, []) = (r, (m', w')) \<and>
     manager_ok m'"
proof -
  obtain r m' w' where g: "GetConfig demo_cfg_posix demo_tree ''.'' ''daemon.cfg'' (new_manager, []) = (r, (m', w'))"
    using prod_cases3 by blast
  show ?thesis
    using manager_shares_configs [OF manager_ok_new g] g by (simp add: GetConfig_default_def kDefFolder_def)
qed

end
