(* ===== verification/Config_Daemon.thy ===== *)
theory Config_Daemon
  imports Config_Lemmas Key_Manager
begin

text \<open>
  Models \<open>Daemon/config/config_daemon.cpp\<close> and its header: the sections and keys of the
  daemon's configuration file, the getters with their defaults, and \<open>Init\<close>, which the
  constructor runs to write every setting back. An object of the class is the \<open>Config\<close> it
  points to; the getters are programs on that object and the world.
\<close>

section \<open>Keys and defaults\<close>

datatype eKeys =
    LOG_PATH
  | DB_PATH
  | INTERFACE
  | PORT
  | IEX_URL
  | IEX_TOCKEN
  | IEX_UPDATE_PRICE_SECOND
  | IEX_UPDATE_SYMBOLS

fun eKeys_int :: "eKeys \<Rightarrow> int" where
  "eKeys_int LOG_PATH = 0"
| "eKeys_int DB_PATH = 1"
| "eKeys_int INTERFACE = 2"
| "eKeys_int PORT = 3"
| "eKeys_int IEX_URL = 4"
| "eKeys_int IEX_TOCKEN = 5"
| "eKeys_int IEX_UPDATE_PRICE_SECOND = 6"
| "eKeys_int IEX_UPDATE_SYMBOLS = 7"

definition logFile :: string where
  "logFile = ''./log.txt''"

definition dbFile :: string where
  "dbFile = ''./peakwork.db''"

definition grpcInterface :: string where
  "grpcInterface = ''0.0.0.0''"

definition grpcPort :: string where
  "grpcPort = ''50050''"

definition updateTime :: cint where
  "updateTime = 3"

definition iexUrl :: string where
  "iexUrl = ''https://sandbox.iexapis.com''"

definition iexToken :: string where
  "iexToken = ''Tpk_cf32bcdd9dac4ee586469a167121bda2''"

definition updateSymbols :: "string list" where
  "updateSymbols = [''aapl'', ''fb'']"

definition sectionDaemon :: Section where
  "sectionDaemon = Section ''daemon''"

definition sectionGRPC :: Section where
  "sectionGRPC = Section ''grpc_server''"

definition sectionIEX :: Section where
  "sectionIEX = Section ''iex_api''"

definition mk_key :: "Section \<times> eKeys \<times> string \<Rightarrow> eKeys Key" where
  "mk_key t = \<lparr>key_section = fst t, key_enum = fst (snd t), key_name = snd (snd t)\<rparr>"

definition daemon_keys :: "eKeys Key list" where
  "daemon_keys = map mk_key
     [(sectionDaemon, LOG_PATH, ''log_path''),
      (sectionDaemon, DB_PATH, ''db_path''),
      (sectionGRPC, INTERFACE, ''interface''),
      (sectionGRPC, PORT, ''port''),
      (sectionIEX, IEX_URL, ''url''),
      (sectionIEX, IEX_TOCKEN, ''tocken''),
      (sectionIEX, IEX_UPDATE_PRICE_SECOND, ''update_price_timeout_sec''),
      (sectionIEX, IEX_UPDATE_SYMBOLS, ''update_symbols'')]"

text \<open>\<open>keys(section, key)\<close>.\<close>

definition keys_call :: "Section \<Rightarrow> eKeys \<Rightarrow> ('s, string) prog" where
  "keys_call sec k = lift_sum (KeyManager_call eKeys_int daemon_keys sec k)"

section \<open>Getters\<close>

definition GetDBPath :: "('a, 'w, 'x) ptree_api_scheme \<Rightarrow> (('a, 'w) cfg, string) prog" where
  "GetDBPath api = bindp (keys_call sectionDaemon DB_PATH) (\<lambda>k. GetString api k dbFile)"

definition GetLogPath :: "('a, 'w, 'x) ptree_api_scheme \<Rightarrow> (('a, 'w) cfg, string) prog" where
  "GetLogPath api = bindp (keys_call sectionDaemon LOG_PATH) (\<lambda>k. GetString api k logFile)"

definition GetGRPCServerInterface :: "('a, 'w, 'x) ptree_api_scheme \<Rightarrow> (('a, 'w) cfg, string) prog" where
  "GetGRPCServerInterface api =
     bindp (keys_call sectionGRPC INTERFACE) (\<lambda>k. GetString api k grpcInterface)"

definition GetGRPCServerPort :: "('a, 'w, 'x) ptree_api_scheme \<Rightarrow> (('a, 'w) cfg, string) prog" where
  "GetGRPCServerPort api = bindp (keys_call sectionGRPC PORT) (\<lambda>k. GetString api k grpcPort)"

definition GetIEXUrl :: "('a, 'w, 'x) ptree_api_scheme \<Rightarrow> (('a, 'w) cfg, string) prog" where
  "GetIEXUrl api = bindp (keys_call sectionIEX IEX_URL) (\<lambda>k. GetString api k iexUrl)"

definition GetIEXTocken :: "('a, 'w, 'x) ptree_api_scheme \<Rightarrow> (('a, 'w) cfg, string) prog" where
  "GetIEXTocken api = bindp (keys_call sectionIEX IEX_TOCKEN) (\<lambda>k. GetString api k iexToken)"

definition GetIEXUpdateTimeout ::
  "('a, 'w, 'x) ptree_api_scheme \<Rightarrow> 'y lexical_api_scheme \<Rightarrow> (('a, 'w) cfg, cint) prog" where
  "GetIEXUpdateTimeout api lx =
     bindp (keys_call sectionIEX IEX_UPDATE_PRICE_SECOND) (\<lambda>k. GetInt api lx k updateTime)"

definition GetIEXUpdateSymbols ::
  "('a, 'w, 'x) ptree_api_scheme \<Rightarrow> (('a, 'w) cfg, string list) prog" where
  "GetIEXUpdateSymbols api =
     bindp (keys_call sectionIEX IEX_UPDATE_PRICE_SECOND) (\<lambda>k. GetArray api k updateSymbols)"

section \<open>Initialisation\<close>

text \<open>One line of \<open>Init\<close>: the key, then the value to write under it.\<close>

definition init_line ::
  "Section \<Rightarrow> eKeys \<Rightarrow> ('s, 'v) prog \<Rightarrow> (string \<Rightarrow> 'v \<Rightarrow> ('s, unit) prog) \<Rightarrow> ('s, unit) prog" where
  "init_line sec k get put = bindp (keys_call sec k) (\<lambda>key. bindp get (put key))"

definition Daemon_Init ::
  "('a, 'w, 'x) ptree_api_scheme \<Rightarrow> 'y lexical_api_scheme \<Rightarrow> (('a, 'w) cfg, unit) prog" where
  "Daemon_Init api lx =
     thenp (init_line sectionDaemon LOG_PATH (GetLogPath api) (WriteString api))
    (thenp (init_line sectionDaemon DB_PATH (GetDBPath api) (WriteString api))
    (thenp (init_line sectionGRPC INTERFACE (GetGRPCServerInterface api) (WriteString api))
    (thenp (init_line sectionGRPC PORT (GetGRPCServerPort api) (WriteString api))
    (thenp (init_line sectionIEX IEX_URL (GetIEXUrl api) (WriteString api))
    (thenp (init_line sectionIEX IEX_TOCKEN (GetIEXTocken api) (WriteString api))
    (thenp (init_line sectionIEX IEX_UPDATE_PRICE_SECOND (GetIEXUpdateTimeout api lx) (WriteInt api lx))
           (init_line sectionIEX IEX_UPDATE_SYMBOLS (GetIEXUpdateSymbols api) (WriteArray api))))))))"

text \<open>The constructor: the shared configuration of \<open>daemon.cfg\<close>, then \<open>Init\<close> on it.\<close>

definition new_Daemon ::
  "('w, 'x) posix_scheme \<Rightarrow> ('a, 'w, 'y) ptree_api_scheme \<Rightarrow> 'z lexical_api_scheme \<Rightarrow>
     ('a ConfigManager \<times> 'w, nat) prog" where
  "new_Daemon os api lx s =
     (case GetConfig_default os api ''daemon.cfg'' s of
        (Ret a, (m, w)) \<Rightarrow>
          (case Daemon_Init api lx (cfg_objects m ! a, w) of
             (r, (c, w')) \<Rightarrow>
               ((case r of Ret _ \<Rightarrow> Ret a | Throw e \<Rightarrow> Throw e | Hang \<Rightarrow> Hang),
                (m\<lparr>cfg_objects := (cfg_objects m)[a := c]\<rparr>, w')))
      | (Throw e, s') \<Rightarrow> (Throw e, s')
      | (Hang, s') \<Rightarrow> (Hang, s'))"

text \<open>\<open>GetInstance\<close>: a local static, built by the first call that manages to.\<close>

definition Daemon_GetInstance ::
  "('w, 'x) posix_scheme \<Rightarrow> ('a, 'w, 'y) ptree_api_scheme \<Rightarrow> 'z lexical_api_scheme \<Rightarrow>
     (nat option \<times> 'a ConfigManager \<times> 'w, nat) prog" where
  "Daemon_GetInstance os api lx s =
     (case s of (inst, mw) \<Rightarrow>
        (case inst of
           Some a \<Rightarrow> (Ret a, s)
         | None \<Rightarrow>
             (case new_Daemon os api lx mw of
                (Ret a, mw') \<Rightarrow> (Ret a, (Some a, mw'))
              | (Throw e, mw') \<Rightarrow> (Throw e, (None, mw'))
              | (Hang, mw') \<Rightarrow> (Hang, (None, mw')))))"

section \<open>Lemmas\<close>

text \<open>The dotted keys, and the getters with their keys looked up.\<close>

lemma daemon_key_names:
  "keys_call sectionDaemon LOG_PATH = ret (key2 ''daemon'' ''log_path'')"
  "keys_call sectionDaemon DB_PATH = ret (key2 ''daemon'' ''db_path'')"
  "keys_call sectionGRPC INTERFACE = ret (key2 ''grpc_server'' ''interface'')"
  "keys_call sectionGRPC PORT = ret (key2 ''grpc_server'' ''port'')"
  "keys_call sectionIEX IEX_URL = ret (key2 ''iex_api'' ''url'')"
  "keys_call sectionIEX IEX_TOCKEN = ret (key2 ''iex_api'' ''tocken'')"
  "keys_call sectionIEX IEX_UPDATE_PRICE_SECOND = ret (key2 ''iex_api'' ''update_price_timeout_sec'')"
  "keys_call sectionIEX IEX_UPDATE_SYMBOLS = ret (key2 ''iex_api'' ''update_symbols'')"
  by (simp_all add: keys_call_def daemon_keys_def mk_key_def sectionDaemon_def sectionGRPC_def
      sectionIEX_def Section_call_def key2_def)

lemma bindp_ret [prog_simps]: "bindp (ret a) f = f a"
  by (rule ext) (simp add: bindp_def)

definition string_settings :: "(string \<times> string) list" where
  "string_settings =
     [(key2 ''daemon'' ''log_path'', logFile), (key2 ''daemon'' ''db_path'', dbFile),
      (key2 ''grpc_server'' ''interface'', grpcInterface), (key2 ''grpc_server'' ''port'', grpcPort),
      (key2 ''iex_api'' ''url'', iexUrl), (key2 ''iex_api'' ''tocken'', iexToken)]"

definition price_key :: string where
  "price_key = key2 ''iex_api'' ''update_price_timeout_sec''"

definition symbols_key :: string where
  "symbols_key = key2 ''iex_api'' ''update_symbols''"

lemma getters:
  "GetLogPath api = GetString api (key2 ''daemon'' ''log_path'') logFile"
  "GetDBPath api = GetString api (key2 ''daemon'' ''db_path'') dbFile"
  "GetGRPCServerInterface api = GetString api (key2 ''grpc_server'' ''interface'') grpcInterface"
  "GetGRPCServerPort api = GetString api (key2 ''grpc_server'' ''port'') grpcPort"
  "GetIEXUrl api = GetString api (key2 ''iex_api'' ''url'') iexUrl"
  "GetIEXTocken api = GetString api (key2 ''iex_api'' ''tocken'') iexToken"
  "GetIEXUpdateTimeout api lx = GetInt api lx price_key updateTime"
  "GetIEXUpdateSymbols api = GetArray api price_key updateSymbols"
  by (simp_all add: GetLogPath_def GetDBPath_def GetGRPCServerInterface_def GetGRPCServerPort_def
      GetIEXUrl_def GetIEXTocken_def GetIEXUpdateTimeout_def GetIEXUpdateSymbols_def price_key_def
      daemon_key_names bindp_ret)

lemma thenp_assoc: "thenp (thenp a b) c = thenp a (thenp b c)"
  by (simp add: thenp_def bindp_assoc)

lemma thenp_forM_Cons: "thenp (forM f (x # xs)) m = thenp (f x) (thenp (forM f xs) m)"
  by (simp add: thenp_assoc)

lemma thenp_ret [prog_simps]: "thenp (ret a) m = m"
  by (simp add: thenp_def bindp_ret)

text \<open>\<open>Init\<close> is a loop of \<open>write_back\<close>s over the string settings, then the last two lines.\<close>

lemma Daemon_Init_settings:
  "Daemon_Init api lx =
     thenp (forM (write_back (GetString api) (WriteString api)) string_settings)
       (thenp (bindp (GetInt api lx price_key updateTime) (WriteInt api lx price_key))
         (bindp (GetArray api price_key updateSymbols) (WriteArray api symbols_key)))"
  by (simp add: Daemon_Init_def init_line_def daemon_key_names getters bindp_ret string_settings_def
      thenp_forM_Cons write_back_def thenp_ret symbols_key_def price_key_def [symmetric]
      del: forM.simps(2))

lemma settings_keys: "\<forall>kd \<in> set string_settings. config_key (fst kd)"
  by code_simp

lemma settings_distinct: "distinct (map fst string_settings @ [price_key, symbols_key])"
  by code_simp

lemma price_key_ok: "config_key price_key" and symbols_key_ok: "config_key symbols_key"
  by code_simp+

end
