(* ===== verification/Daemon_Properties.thy ===== *)
theory Daemon_Properties
  imports Config_Daemon Config_Properties
begin

text \<open>
  What the daemon's configuration promises: every key the code asks for is known, \<open>Init\<close>
  never hangs and writes back every setting, and two things about the list of symbols that
  a user of the configuration file does not expect.
\<close>

section \<open>The last two lines of \<open>Init\<close>\<close>

definition root_names :: "('a, 'w, 'x) ptree_api_scheme \<Rightarrow> 'a Config \<Rightarrow> string set" where
  "root_names api c = fst ` set (pt_children api (root c))"

definition symbol_lists :: "('a, 'w, 'x) ptree_api_scheme \<Rightarrow> 'a Config \<Rightarrow> nat" where
  "symbol_lists api c = section_count api (root c) ''iex_api'' ''update_symbols''"

text \<open>The timeout that \<open>GetInt\<close> reads, if the text under the key is a number.\<close>

definition timeout_of :: "('a, 'w, 'x) ptree_api_scheme \<Rightarrow> 'y lexical_api_scheme \<Rightarrow> 'a Config \<Rightarrow> cint option" where
  "timeout_of api lx c =
     lx_to_int lx (case pt_get_opt api (root c) price_key of None \<Rightarrow> lx_of_int lx updateTime | Some v \<Rightarrow> v)"

lemma section_of_keys:
  "takeWhile (\<lambda>ch. ch \<noteq> CHR ''.'') price_key = ''iex_api''"
  "dot_free ''iex_api''" "dot_free ''update_symbols''" "key2 ''iex_api'' ''update_symbols'' \<noteq> price_key"
  "''iex_api'' \<noteq> symbols_key"
  by code_simp+

lemma write_symbols:
  assumes "ptree_laws api" and "\<not> mtx_locked c"
    and "WriteArray api symbols_key vs (c, w) = (r, (c', w'))"
  shows "r \<noteq> Hang" and "\<not> mtx_locked c'"
    and "config_key k \<Longrightarrow> k \<noteq> symbols_key \<Longrightarrow> pt_get_child api (root c') k = pt_get_child api (root c) k"
    and "symbols_key \<notin> root_names api c \<Longrightarrow> symbol_lists api c' = Suc (symbol_lists api c)"
proof -
  obtain ch where add: "add_array api symbols_key vs (root c) =
      Inr (if symbols_key \<in> fst ` set (pt_children api (root c)) then root c
           else pt_add_child api symbols_key ch (root c))"
    by (rule add_array_result [OF assms(1), where k = symbols_key and vs = vs and r = "root c"])
  define t where "t = (if symbols_key \<in> fst ` set (pt_children api (root c)) then root c
    else pt_add_child api symbols_key ch (root c))"
  have run: "r \<noteq> Hang \<and> c' = c\<lparr>root := t\<rparr>"
    using assms(3) WriteArray_run [OF assms(2) add [folded t_def], where w = w]
    by (auto split: prod.splits option.splits)
  from run show "r \<noteq> Hang" "\<not> mtx_locked c'" using assms(2) by simp_all
  show "symbol_lists api c' = Suc (symbol_lists api c)" if "symbols_key \<notin> root_names api c"
    using run that ptree_add_child(1) [OF assms(1) section_of_keys(2,3)]
    by (simp add: t_def root_names_def symbol_lists_def symbols_key_def)
  assume k: "config_key k" "k \<noteq> symbols_key"
  obtain s n where sn: "k = key2 s n" "dot_free s" "dot_free n" using k(1) by (rule config_keyE)
  then have "(s, n) \<noteq> (''iex_api'', ''update_symbols'')" using k(2) by (auto simp: symbols_key_def)
  then have "pt_get_child api (pt_add_child api symbols_key ch (root c)) k = pt_get_child api (root c) k"
    using ptree_add_child(3) [OF assms(1) section_of_keys(2,3) sn(2,3)] sn(1) by (simp add: symbols_key_def)
  then show "pt_get_child api (root c') k = pt_get_child api (root c) k" using run by (simp add: t_def)
qed

lemma init_tail:
  assumes "ptree_laws api" and "\<not> mtx_locked c"
    and "thenp (bindp (GetInt api lx price_key updateTime) (WriteInt api lx price_key))
      (bindp (GetArray api price_key updateSymbols) (WriteArray api symbols_key)) (c, w) = (r, (c', w'))"
  shows "r \<noteq> Hang \<and> \<not> mtx_locked c' \<and>
    (r = Ret () \<longrightarrow>
      (\<exists>i. timeout_of api lx c = Some i \<and> pt_get_opt api (root c') price_key = Some (lx_of_int lx i)) \<and>
      (\<forall>k. config_key k \<and> k \<notin> {price_key, symbols_key} \<longrightarrow>
         pt_get_child api (root c') k = pt_get_child api (root c) k) \<and>
      map_option (pt_children api) (pt_get_child api (root c') price_key) =
        Some (case pt_get_child api (root c) price_key of None \<Rightarrow> [] | Some x \<Rightarrow> pt_children api x) \<and>
      (symbols_key \<notin> root_names api c \<longrightarrow> symbol_lists api c' = Suc (symbol_lists api c)))"
proof (cases "timeout_of api lx c")
  case None
  then have "GetInt api lx price_key updateTime (c, w) = (Throw BadLexicalCast, (c, w))"
    by (simp add: GetInt_run [OF assms(2,1)] timeout_of_def)
  then show ?thesis using assms(2,3) by (auto simp: thenp_def bindp_def)
next
  case (Some i)
  then have gi: "GetInt api lx price_key updateTime (c, w) = (Ret i, (c, w))"
    by (simp add: GetInt_run [OF assms(2,1)] timeout_of_def)
  obtain r1 c1 w1 where wi: "WriteString api price_key (lx_of_int lx i) (c, w) = (r1, (c1, w1))"
    by (metis prod.exhaust)
  obtain t where t: "c1 = c\<lparr>root := t\<rparr>" "r1 \<noteq> Hang" "pt_get_opt api t price_key = Some (lx_of_int lx i)"
    "\<forall>k'. config_key k' \<and> k' \<noteq> price_key \<longrightarrow> pt_get_child api t k' = pt_get_child api (root c) k'"
    "map_option (pt_children api) (pt_get_child api t price_key) =
      Some (case pt_get_child api (root c) price_key of None \<Rightarrow> [] | Some x \<Rightarrow> pt_children api x)"
    "fst ` set (pt_children api t) = insert ''iex_api'' (fst ` set (pt_children api (root c)))"
    "section_count api t ''iex_api'' ''update_symbols'' = section_count api (root c) ''iex_api'' ''update_symbols''"
    using WriteString_store [OF assms(1,2) price_key_ok wi] section_of_keys by metis
  show ?thesis
  proof (cases r1)
    case (Ret u)
    obtain x where x: "pt_get_child api (root c1) price_key = Some x" using t(1,5) by fastforce
    have l1: "\<not> mtx_locked c1" using t(1) assms(2) by simp
    obtain vs where ga: "GetArray api price_key updateSymbols (c1, w1) = (Ret vs, (c1, w1))"
      using GetArray_found [OF l1 x] by metis
    have wa: "WriteArray api symbols_key vs (c1, w1) = (r, (c', w'))"
      using assms(3) gi wi Ret ga by (simp add: thenp_def bindp_def WriteInt_def)
    note ws = write_symbols [OF assms(1) l1 wa]
    have pk: "pt_get_child api (root c') price_key = pt_get_child api t price_key"
      using ws(3) [OF price_key_ok] settings_distinct t(1) by simp
    have other: "pt_get_child api (root c') k = pt_get_child api (root c) k"
      if "config_key k \<and> k \<notin> {price_key, symbols_key}" for k
      using ws(3) [of k] t(1,4) that by simp
    have sym: "symbol_lists api c' = Suc (symbol_lists api c)" if "symbols_key \<notin> root_names api c"
      using ws(4) t(1,6,7) that section_of_keys(5) by (simp add: root_names_def symbol_lists_def)
    show ?thesis
      using ws(1,2) Some t(3,5) pk other sym by (simp add: pt_get_opt_def)
  next
    case (Throw e)
    then have "r = Throw e \<and> c' = c1" using assms(3) gi wi by (simp add: thenp_def bindp_def WriteInt_def)
    then show ?thesis using t(1) assms(2) by simp
  qed (use t(2) in simp)
qed

section \<open>All of \<open>Init\<close>\<close>

lemma settings_keep:
  assumes "ptree_laws api" and "\<not> mtx_locked c"
    and "forM (write_back (GetString api) (WriteString api)) string_settings (c, w) = (r, (c', w'))"
  shows "pt_get_child api (root c') price_key = pt_get_child api (root c) price_key \<and>
    symbol_lists api c' = symbol_lists api c \<and>
    (symbols_key \<notin> root_names api c \<longrightarrow> symbols_key \<notin> root_names api c')"
proof -
  let ?P = "\<lambda>(x, u). \<not> mtx_locked x \<and> pt_get_child api (root x) price_key = pt_get_child api (root c) price_key \<and>
    symbol_lists api x = symbol_lists api c \<and>
    (symbols_key \<notin> root_names api c \<longrightarrow> symbols_key \<notin> root_names api x)"
  have step: "?P s'" if kd: "kd \<in> set string_settings" and p: "?P s"
    and wb: "write_back (GetString api) (WriteString api) kd s = (r0, s')" for kd s r0 s'
  proof -
    obtain x u x' u' where e: "s = (x, u)" "s' = (x', u')" by fastforce
    have l: "\<not> mtx_locked x" using p e by simp
    have k: "config_key (fst kd)" "fst kd \<noteq> price_key" "fst kd \<noteq> symbols_key"
      using settings_keys settings_distinct kd by force+
    obtain v where v: "WriteString api (fst kd) v (x, u) = (r0, (x', u'))"
      using wb e by (auto simp: write_back_def bindp_def GetString_run [OF l assms(1)])
    obtain t where t: "x' = x\<lparr>root := t\<rparr>"
      "\<forall>k'. config_key k' \<and> k' \<noteq> fst kd \<longrightarrow> pt_get_child api t k' = pt_get_child api (root x) k'"
      "fst ` set (pt_children api t) =
        insert (takeWhile (\<lambda>ch. ch \<noteq> CHR ''.'') (fst kd)) (fst ` set (pt_children api (root x)))"
      "\<forall>s n. dot_free s \<and> dot_free n \<and> key2 s n \<noteq> fst kd \<longrightarrow>
        section_count api t s n = section_count api (root x) s n"
      using WriteString_store [OF assms(1) l k(1) v] by metis
    have sec: "takeWhile (\<lambda>ch. ch \<noteq> CHR ''.'') (fst kd) \<noteq> symbols_key"
    proof
      assume a: "takeWhile (\<lambda>ch. ch \<noteq> CHR ''.'') (fst kd) = symbols_key"
      have "CHR ''.'' \<in> set symbols_key" by code_simp
      with a show False by (metis (mono_tags, lifting) set_takeWhileD)
    qed
    have c: "section_count api t ''iex_api'' ''update_symbols'' =
        section_count api (root x) ''iex_api'' ''update_symbols''"
      using t(4) section_of_keys(2,3) k(3) by (metis symbols_key_def)
    show ?thesis
      using p e t(1,3) l sec c t(2) k(2) price_key_ok by (auto simp: root_names_def symbol_lists_def)
  qed
  have "?P (c', w')"
    by (rule forM_invariant [where P = ?P, OF _ assms(3) step]) (use assms(2) in auto)
  then show ?thesis by simp
qed

lemma Daemon_Init_effect:
  assumes "ptree_laws api" and "\<not> mtx_locked c" and "Daemon_Init api lx (c, w) = (r, (c', w'))"
  shows "r \<noteq> Hang \<and> \<not> mtx_locked c' \<and>
    (r = Ret () \<longrightarrow>
      (\<forall>(k, d) \<in> set string_settings. pt_get_opt api (root c') k =
         Some (case pt_get_opt api (root c) k of None \<Rightarrow> d | Some v \<Rightarrow> v)) \<and>
      (\<exists>i. timeout_of api lx c = Some i \<and> pt_get_opt api (root c') price_key = Some (lx_of_int lx i)) \<and>
      map_option (pt_children api) (pt_get_child api (root c') price_key) =
        Some (case pt_get_child api (root c) price_key of None \<Rightarrow> [] | Some x \<Rightarrow> pt_children api x) \<and>
      (symbols_key \<notin> root_names api c \<longrightarrow> symbol_lists api c' = Suc (symbol_lists api c)))"
proof -
  have ok: "cfg_ok api (c, w)" using assms(1,2) by (simp add: cfg_ok_def)
  obtain r1 c1 w1 where f: "forM (write_back (GetString api) (WriteString api)) string_settings (c, w) =
      (r1, (c1, w1))" by (metis prod.exhaust)
  have d: "distinct (map fst string_settings)" using settings_distinct by simp
  note all = store.write_back_all [OF ok settings_keys d f]
  have l1: "\<not> mtx_locked c1" using all by (simp add: cfg_ok_def)
  note keep = settings_keep [OF assms(1,2) f]
  show ?thesis
  proof (cases r1)
    case (Ret u)
    then have tail: "thenp (bindp (GetInt api lx price_key updateTime) (WriteInt api lx price_key))
      (bindp (GetArray api price_key updateSymbols) (WriteArray api symbols_key)) (c1, w1) = (r, (c', w'))"
      using assms(3) f by (simp add: Daemon_Init_settings thenp_Ret)
    note it = init_tail [OF assms(1) l1 tail]
    have str: "pt_get_opt api (root c') k = Some (case pt_get_opt api (root c) k of None \<Rightarrow> d | Some v \<Rightarrow> v)"
      if "r = Ret ()" "(k, d) \<in> set string_settings" for k d
    proof -
      have k: "config_key k" "k \<notin> {price_key, symbols_key}"
        using settings_keys settings_distinct that(2) by force+
      have "pt_get_opt api (root c1) k = Some (case pt_get_opt api (root c) k of None \<Rightarrow> d | Some v \<Rightarrow> v)"
        using all Ret that(2) by (auto simp: cfg_look_def)
      moreover have "pt_get_opt api (root c') k = pt_get_opt api (root c1) k"
        using it that(1) k by (simp add: pt_get_opt_def)
      ultimately show ?thesis by simp
    qed
    have to: "timeout_of api lx c1 = timeout_of api lx c"
      using keep by (simp add: timeout_of_def pt_get_opt_def)
    show ?thesis using it str keep by (auto simp: to)
  next
    case (Throw e)
    then have "r = Throw e \<and> c' = c1" using assms(3) f by (simp add: Daemon_Init_settings thenp_Throw)
    then show ?thesis using l1 by simp
  qed (use all in simp)
qed

section \<open>Properties\<close>

text \<open>
  Every key the daemon asks for is in its key list: the eight lookups return eight
  different dotted names of the form \<open>section.name\<close> and never throw, and each enumerator
  is known in one section only.
\<close>

theorem daemon_keys_total:
  "map (\<lambda>(sec, k). KeyManager_call eKeys_int daemon_keys sec k)
     [(sectionDaemon, LOG_PATH), (sectionDaemon, DB_PATH), (sectionGRPC, INTERFACE), (sectionGRPC, PORT),
      (sectionIEX, IEX_URL), (sectionIEX, IEX_TOCKEN), (sectionIEX, IEX_UPDATE_PRICE_SECOND),
      (sectionIEX, IEX_UPDATE_SYMBOLS)] =
   map Inr (map fst string_settings @ [price_key, symbols_key]) \<and>
   distinct (map fst string_settings @ [price_key, symbols_key]) \<and>
   distinct (map key_enum daemon_keys) \<and>
   list_all config_key (map fst string_settings @ [price_key, symbols_key])"
  by code_simp


text \<open>An empty configuration.\<close>

definition fresh_cfg :: "rtree Config" where
  "fresh_cfg = \<lparr>root = RT [] [], mtx_locked = False, configPath = ''./daemon.cfg'', configFolder = ''.''\<rparr>"


text \<open>
  The symbols in the configuration file are not used. \<open>GetIEXUpdateSymbols\<close> looks under
  the key of the update timeout: when that key holds a plain value the answer is the built-in
  list, whatever else is in the file, and when it is missing the call never returns.
\<close>

theorem symbols_ignored:
  assumes "\<not> mtx_locked c"
  shows "(\<forall>x. pt_get_child api (root c) price_key = Some x \<and> pt_children api x = [] \<longrightarrow>
      GetIEXUpdateSymbols api (c, w) = (Ret [''aapl'', ''fb''], (c, w))) \<and>
    (pt_get_child api (root c) price_key = None \<longrightarrow>
      GetIEXUpdateSymbols api (c, w) = (Hang, (c\<lparr>mtx_locked := True\<rparr>, w)))"
proof (intro conjI allI impI)
  fix x
  assume x: "pt_get_child api (root c) price_key = Some x \<and> pt_children api x = []"
  show "GetIEXUpdateSymbols api (c, w) = (Ret [''aapl'', ''fb''], (c, w))"
    using GetArray_found [OF assms conjunct1 [OF x], of updateSymbols w] x
    by (simp add: getters updateSymbols_def)
qed (simp add: getters GetArray_missing [OF assms])

definition user_cfg :: "rtree Config" where
  "user_cfg = \<lparr>root = RT [] [(''iex_api'', RT []
       [(''update_price_timeout_sec'', RT ''3'' []),
        (''update_symbols'', RT [] [([], RT ''tsla'' [])])])],
     mtx_locked = False, configPath = ''./daemon.cfg'', configFolder = ''.''\<rparr>"

theorem symbols_ignored_witness:
  "GetIEXUpdateSymbols demo_tree (user_cfg, []) = (Ret [''aapl'', ''fb''], (user_cfg, []))"
proof -
  have a: "\<not> mtx_locked user_cfg" by (simp add: user_cfg_def)
  have b: "pt_get_child demo_tree (root user_cfg) price_key = Some (RT ''3'' [])" by code_simp
  have c: "pt_children demo_tree (RT ''3'' []) = []" by code_simp
  show ?thesis using symbols_ignored [OF a, of demo_tree "[]"] b c by blast
qed

text \<open>
  Every start adds a list of symbols. \<open>Write\<close> asks with \<open>find\<close>, which knows no paths,
  whether the key is there; so every completed \<open>Init\<close> leaves one more node
  \<open>iex_api.update_symbols\<close> in the file than it found, unless the top level of the file has
  an entry with the whole dotted name.
\<close>

theorem Init_adds_symbols:
  assumes "ptree_laws api" and "\<not> mtx_locked c" and "Daemon_Init api lx (c, w) = (Ret (), (c', w'))"
    and "symbols_key \<notin> fst ` set (pt_children api (root c))"
  shows "section_count api (root c') ''iex_api'' ''update_symbols'' =
    Suc (section_count api (root c) ''iex_api'' ''update_symbols'')"
  using Daemon_Init_effect [OF assms(1-3)] assms(4) by (simp add: root_names_def symbol_lists_def)

theorem Init_adds_symbols_witness:
  "section_count demo_tree (root (fst (snd (Daemon_Init demo_tree demo_lex (user_cfg, [])))))
     ''iex_api'' ''update_symbols'' = 2"
proof -
  obtain r c' w' where i: "Daemon_Init demo_tree demo_lex (user_cfg, []) = (r, (c', w'))"
    by (metis prod.exhaust)
  have l: "\<not> mtx_locked user_cfg" by (simp add: user_cfg_def)
  have "fst (Daemon_Init demo_tree demo_lex (user_cfg, [])) = Ret ()" by code_simp
  then have r: "Daemon_Init demo_tree demo_lex (user_cfg, []) = (Ret (), (c', w'))" using i by simp
  have n: "symbols_key \<notin> fst ` set (pt_children demo_tree (root user_cfg))" by code_simp
  have "section_count demo_tree (root user_cfg) ''iex_api'' ''update_symbols'' = 1" by code_simp
  then show ?thesis using Init_adds_symbols [OF demo_tree_laws l r n] i by simp
qed

end
