(* ===== verification/Iex_Client.thy ===== *)
theory Iex_Client
  imports Config_Daemon Http_Transaction
begin

text \<open>
  Models \<open>Daemon/common_data/company_info.h\<close> and \<open>Daemon/rpc/iex/iex_client.cpp\<close>: the data of a
  company, the URLs of the IEX service, and the requests of the client. The client reads its
  settings from the daemon's configuration and fetches pages with \<open>PerformGet\<close>. What it
  needs from a fetch is the locale \<open>http_get\<close>, interpreted on \<open>PerformGet\<close> at the end.
  Log messages are left out.
\<close>

section \<open>Data\<close>

record Price =
  price :: float32
  dateTimestamp :: int64
  dateString :: string

record CompanyInfo =
  shortName :: string
  fullName :: string
  logo :: string
  priceList :: "Price list"

definition empty_info :: CompanyInfo where
  "empty_info = \<lparr>shortName = [], fullName = [], logo = [], priceList = []\<rparr>"

section \<open>Reading a property tree\<close>

definition bind_sum :: "exn + 'a \<Rightarrow> ('a \<Rightarrow> exn + 'b) \<Rightarrow> exn + 'b" where
  "bind_sum m f = (case m of Inl e \<Rightarrow> Inl e | Inr a \<Rightarrow> f a)"

text \<open>\<open>get<T>(path)\<close> without a default: \<open>ptree_bad_path\<close> or \<open>ptree_bad_data\<close>.\<close>

definition pt_get :: "('a, 'w, 'x) ptree_api_scheme \<Rightarrow> 'a \<Rightarrow> string \<Rightarrow> exn + string" where
  "pt_get api t k =
     (case pt_get_child api t k of
        None \<Rightarrow> Inl (PtreeBadPath (''No such node ('' @ k @ '')''))
      | Some c \<Rightarrow> Inr (pt_data api c))"

definition pt_get_as ::
  "('a, 'w, 'x) ptree_api_scheme \<Rightarrow> (string \<Rightarrow> 'v option) \<Rightarrow> 'a \<Rightarrow> string \<Rightarrow> exn + 'v" where
  "pt_get_as api conv t k =
     bind_sum (pt_get api t k)
       (\<lambda>s. case conv s of None \<Rightarrow> Inl (PtreeBadData ''conversion of data to type failed'') | Some v \<Rightarrow> Inr v)"

definition ParseCompanyInfo :: "('a, 'w, 'x) ptree_api_scheme \<Rightarrow> string \<Rightarrow> exn + CompanyInfo" where
  "ParseCompanyInfo api info =
     bind_sum (js_parse api info) (\<lambda>pt.
     bind_sum (pt_get api pt ''companyName'') (\<lambda>full.
     bind_sum (pt_get api pt ''symbol'') (\<lambda>short.
     bind_sum (pt_get_as api (pt_to_float api) pt ''latestPrice'') (\<lambda>p.
     bind_sum (pt_get_as api (pt_to_int64 api) pt ''latestUpdate'') (\<lambda>ts.
     bind_sum (pt_get api pt ''latestUpdate'') (\<lambda>ds.
       Inr \<lparr>shortName = short, fullName = full, logo = [],
            priceList = [\<lparr>price = p, dateTimestamp = ts, dateString = ds\<rparr>]\<rparr>))))))"

section \<open>URLs\<close>

definition GetBaseUrl :: "('a, 'w, 'x) ptree_api_scheme \<Rightarrow> (('a, 'w) cfg, string) prog" where
  "GetBaseUrl api = GetIEXUrl api"

definition GetTocken :: "('a, 'w, 'x) ptree_api_scheme \<Rightarrow> (('a, 'w) cfg, string) prog" where
  "GetTocken api = GetIEXTocken api"

definition CreateUrl ::
  "('a, 'w, 'x) ptree_api_scheme \<Rightarrow> string \<Rightarrow> string \<Rightarrow> (('a, 'w) cfg, string) prog" where
  "CreateUrl api companySymbol ty =
     bindp (GetBaseUrl api) (\<lambda>base.
     bindp (GetTocken api) (\<lambda>tocken.
       ret (base @ ''/stable/stock/'' @ companySymbol @ ''/'' @ ty @ ''?token='' @ tocken)))"

text \<open>
  The free function \<open>callback\<close>, which nobody calls: the product of the two sizes wraps around,
  and a product beyond the data would be read out of bounds.
\<close>

definition iex_callback :: "string \<Rightarrow> size_t \<Rightarrow> size_t \<Rightarrow> string \<Rightarrow> (size_t \<times> string) option" where
  "iex_callback data sz num out =
     (let totalBytes = sz * num
      in if unat totalBytes \<le> length data then Some (totalBytes, out @ take (unat totalBytes) data) else None)"

section \<open>Requests\<close>

text \<open>A program on the world, run beside the configuration.\<close>

definition on_world :: "('w, 'r) prog \<Rightarrow> ('c \<times> 'w, 'r) prog" where
  "on_world m s = (case m (snd s) of (r, w') \<Rightarrow> (r, (fst s, w')))"

text \<open>\<open>catch (const HTTPException &)\<close> that logs and returns a value.\<close>

definition catch_http :: "'r \<Rightarrow> ('s, 'r) prog \<Rightarrow> ('s, 'r) prog" where
  "catch_http v m = catchp m (\<lambda>e. if is_HTTPException e then ret v else raise e)"

definition logo_from ::
  "('a, 'w, 'x) ptree_api_scheme \<Rightarrow> (string \<Rightarrow> ('w, string) prog) \<Rightarrow> string \<Rightarrow>
     (('a, 'w) cfg, string) prog" where
  "logo_from api fetch short =
     catch_http []
       (bindp (CreateUrl api short ''logo'') (\<lambda>url.
        bindp (on_world (fetch url)) (\<lambda>data.
        bindp (lift_sum (js_parse api data)) (\<lambda>pt.
          lift_sum (pt_get api pt ''url'')))))"

text \<open>The body that the three overloads of \<open>GetCompanyInfo\<close> share; \<open>ty\<close> is the URL part.\<close>

definition info_from ::
  "('a, 'w, 'x) ptree_api_scheme \<Rightarrow> (string \<Rightarrow> ('w, string) prog) \<Rightarrow> string \<Rightarrow> string \<Rightarrow>
     (('a, 'w) cfg, CompanyInfo) prog" where
  "info_from api fetch short ty =
     catch_http empty_info
       (bindp (CreateUrl api short ty) (\<lambda>url.
        bindp (on_world (fetch url)) (\<lambda>data.
        bindp (lift_sum (ParseCompanyInfo api data)) (\<lambda>info.
        bindp (logo_from api fetch short) (\<lambda>l.
          ret (info\<lparr>logo := l\<rparr>))))))"

definition GetCompanyLogoLink ::
  "('a, 'w, 'x) ptree_api_scheme \<Rightarrow> ('w, 'y) curl_api_scheme \<Rightarrow> string \<Rightarrow> (('a, 'w) cfg, string) prog" where
  "GetCompanyLogoLink api cu short = logo_from api (PerformGet cu) short"

definition GetCompanyInfo ::
  "('a, 'w, 'x) ptree_api_scheme \<Rightarrow> ('w, 'y) curl_api_scheme \<Rightarrow> string \<Rightarrow>
     (('a, 'w) cfg, CompanyInfo) prog" where
  "GetCompanyInfo api cu short = info_from api (PerformGet cu) short ''quote''"

definition GetCompanyInfo_frame ::
  "('a, 'w, 'x) ptree_api_scheme \<Rightarrow> ('w, 'y) curl_api_scheme \<Rightarrow> string \<Rightarrow> string \<Rightarrow>
     (('a, 'w) cfg, CompanyInfo) prog" where
  "GetCompanyInfo_frame api cu short timeFrame = info_from api (PerformGet cu) short (''chart/'' @ timeFrame)"

definition GetCompanyInfo_date ::
  "('a, 'w, 'x) ptree_api_scheme \<Rightarrow> ('w, 'y) curl_api_scheme \<Rightarrow> string \<Rightarrow> string \<Rightarrow> string \<Rightarrow>
     (('a, 'w) cfg, CompanyInfo) prog" where
  "GetCompanyInfo_date api cu short timeFrame date =
     info_from api (PerformGet cu) short (''chart/'' @ timeFrame @ ''/'' @ date)"

section \<open>Lemmas\<close>

text \<open>The URL a client with a free configuration builds.\<close>

definition iex_url :: "('a, 'w, 'x) ptree_api_scheme \<Rightarrow> 'a Config \<Rightarrow> string \<Rightarrow> string \<Rightarrow> string" where
  "iex_url api c short ty =
     (case pt_get_opt api (root c) (key2 ''iex_api'' ''url'') of None \<Rightarrow> iexUrl | Some v \<Rightarrow> v) @
     ''/stable/stock/'' @ short @ ''/'' @ ty @ ''?token='' @
     (case pt_get_opt api (root c) (key2 ''iex_api'' ''tocken'') of None \<Rightarrow> iexToken | Some v \<Rightarrow> v)"

lemma CreateUrl_run:
  assumes "ptree_laws api" and "\<not> mtx_locked c"
  shows "CreateUrl api short ty (c, w) = (Ret (iex_url api c short ty), (c, w))"
  by (simp add: CreateUrl_def GetBaseUrl_def GetTocken_def getters bindp_def
      GetString_run [OF assms(2,1)] iex_url_def)

lemma on_world_apply: "on_world m (c, w) = (fst (m w), (c, snd (m w)))"
  by (simp add: on_world_def split: prod.split)

text \<open>One step of a client program after the other.\<close>

lemmas client_steps = catch_http_def catchp_def bindp_def on_world_apply

text \<open>Exceptions of reading a reply.\<close>

fun is_parse_error :: "exn \<Rightarrow> bool" where
  "is_parse_error (JsonParserError _) = True"
| "is_parse_error (PtreeBadPath _) = True"
| "is_parse_error (PtreeBadData _) = True"
| "is_parse_error _ = False"

definition parser_errors :: "('a, 'w, 'x) ptree_api_scheme \<Rightarrow> bool" where
  "parser_errors api \<longleftrightarrow> (\<forall>s e. js_parse api s = Inl e \<longrightarrow> (\<exists>m. e = JsonParserError m))"

lemma parse_error_not_network: "is_parse_error e \<Longrightarrow> \<not> is_NetworkException e"
  by (cases e rule: is_parse_error.cases) auto

text \<open>What a client call can end with.\<close>

definition escapes :: "exn \<Rightarrow> bool" where
  "escapes e \<longleftrightarrow> \<not> is_HTTPException e \<and> (is_NetworkException e \<or> is_parse_error e)"

lemma parser_errorsD: "parser_errors api \<Longrightarrow> js_parse api s = Inl e \<Longrightarrow> is_parse_error e"
  by (auto simp: parser_errors_def) (metis is_parse_error.simps(1))

lemma bind_sum_Inl: "bind_sum m f = Inl e \<longleftrightarrow> m = Inl e \<or> (\<exists>a. m = Inr a \<and> f a = Inl e)"
  by (auto simp: bind_sum_def split: sum.splits)

lemma bind_sum_Inr: "bind_sum m f = Inr b \<longleftrightarrow> (\<exists>a. m = Inr a \<and> f a = Inr b)"
  by (auto simp: bind_sum_def split: sum.splits)

lemma pt_get_error: "pt_get api t k = Inl e \<Longrightarrow> is_parse_error e"
  by (auto simp: pt_get_def split: option.splits)

lemma pt_get_as_error: "pt_get_as api conv t k = Inl e \<Longrightarrow> is_parse_error e"
  by (auto simp: pt_get_as_def bind_sum_Inl dest: pt_get_error split: option.splits)

lemma ParseCompanyInfo_error:
  "parser_errors api \<Longrightarrow> ParseCompanyInfo api s = Inl e \<Longrightarrow> is_parse_error e"
  by (auto simp: ParseCompanyInfo_def bind_sum_Inl dest: pt_get_error pt_get_as_error parser_errorsD)

section \<open>The interface of a fetch\<close>

locale http_get =
  fixes fetch :: "string \<Rightarrow> ('w, string) prog"
  assumes fetch_returns: "fst (fetch url w) \<noteq> Hang"
    and fetch_throws: "fst (fetch url w) = Throw e \<Longrightarrow> is_NetworkException e"
begin

lemma logo_outcome:
  fixes api :: "('a, 'w, 'x) ptree_api_scheme"
  assumes "ptree_laws api" and "parser_errors api" and "\<not> mtx_locked c"
    and "logo_from api fetch short (c, w) = (r, (c', w'))"
  shows "r \<noteq> Hang \<and> c' = c \<and> (\<forall>e. r = Throw e \<longrightarrow> escapes e)"
proof (cases "fetch (iex_url api c short ''logo'') w")
  case (Pair r1 w1)
  note run = assms(4) CreateUrl_run [OF assms(1,3)] Pair
  show ?thesis
  proof (cases r1)
    case (Ret data)
    then show ?thesis
      using run pt_get_error [of api] parser_errorsD [OF assms(2)]
      by (auto simp: logo_from_def client_steps escapes_def
          lift_sum_def split: sum.splits if_splits)
  next
    case (Throw e)
    then have "is_NetworkException e" using fetch_throws [of _ w] Pair by (metis fst_conv)
    then show ?thesis
      using run Throw
      by (auto simp: logo_from_def client_steps escapes_def
          split: if_splits)
  next
    case Hang
    then show ?thesis using fetch_returns [of _ w] Pair by (metis fst_conv)
  qed
qed

lemma info_outcome:
  fixes api :: "('a, 'w, 'x) ptree_api_scheme"
  assumes "ptree_laws api" and "parser_errors api" and "\<not> mtx_locked c"
    and "info_from api fetch short ty (c, w) = (r, (c', w'))"
  shows "r \<noteq> Hang \<and> c' = c \<and> (\<forall>e. r = Throw e \<longrightarrow> escapes e)"
proof (cases "fetch (iex_url api c short ty) w")
  case (Pair r1 w1)
  note run = assms(4) CreateUrl_run [OF assms(1,3)] Pair
  show ?thesis
  proof (cases r1)
    case (Ret data)
    show ?thesis
    proof (cases "ParseCompanyInfo api data")
      case (Inl e)
      then have "is_parse_error e" by (rule ParseCompanyInfo_error [OF assms(2)])
      then show ?thesis
        using run Ret Inl HTTPException_is_NetworkException [of e] parse_error_not_network [of e]
        by (auto simp: info_from_def client_steps escapes_def
            split: if_splits)
    next
      case (Inr info)
      obtain r2 c2 w2 where l: "logo_from api fetch short (c, w1) = (r2, (c2, w2))"
        by (metis prod.exhaust)
      then show ?thesis
        using run Ret Inr logo_outcome [OF assms(1-3) l]
        by (cases r2) (auto simp: info_from_def client_steps
            escapes_def)
    qed
  next
    case (Throw e)
    then have "is_NetworkException e" using fetch_throws [of _ w] Pair by (metis fst_conv)
    then show ?thesis
      using run Throw
      by (auto simp: info_from_def client_steps escapes_def
          split: if_splits)
  next
    case Hang
    then show ?thesis using fetch_returns [of _ w] Pair by (metis fst_conv)
  qed
qed

end

interpretation iex: http_get "PerformGet cu" for cu :: "('w, 'y) curl_api_scheme"
proof unfold_locales
  fix url w
  show "fst (PerformGet cu url w) \<noteq> Hang"
    by (cases rule: PerformGet_cases [of cu url w]) simp_all
next
  fix url w e
  assume "fst (PerformGet cu url w) = Throw e"
  then show "is_NetworkException e"
    by (cases rule: PerformGet_cases [of cu url w])
      (auto simp: transport_exn_network split: if_splits)
qed

end
