(* ===== verification/Iex_Properties.thy ===== *)
theory Iex_Properties
  imports Iex_Client Daemon_Properties Http_Properties
begin

text \<open>
  What the IEX client promises: a reply with the expected fields becomes a company with its
  price and its logo, an HTTP failure becomes an empty company, and which exceptions still
  leave the client.
\<close>

section \<open>A concrete service for the witnesses\<close>

definition demo_web :: "(rtree, demo_net) ptree_api" where
  "demo_web = rtree_api (\<lambda>_ _. Inl (JsonParserError ''cannot open file'')) (\<lambda>_ _ w. (None, w))"

lemma demo_web_laws: "ptree_laws demo_web"
  unfolding demo_web_def by (rule rtree_api_laws)

lemma demo_web_errors: "parser_errors demo_web"
  unfolding demo_web_def parser_errors_def using demo_parser_errors by blast

definition quote_page :: string where
  "quote_page = ''companyName=Apple'' @ [NL] @ ''symbol=AAPL'' @ [NL] @ ''latestPrice=190'' @ [NL] @
     ''latestUpdate=1600'' @ [NL]"

definition logo_page :: string where
  "logo_page = ''url=http://l/a.png'' @ [NL]"

text \<open>The trees the pages are read as.\<close>

definition quote_tree :: rtree where
  "quote_tree = RT [] [(''companyName'', RT ''Apple'' []), (''symbol'', RT ''AAPL'' []),
     (''latestPrice'', RT ''190'' []), (''latestUpdate'', RT ''1600'' [])]"

definition logo_tree :: rtree where
  "logo_tree = RT [] [(''url'', RT ''http://l/a.png'' [])]"

section \<open>Replies\<close>

lemma catch_http_Ret: "m s = (Ret v, s') \<Longrightarrow> catch_http d m s = (Ret v, s')"
  by (simp add: catch_http_def catchp_def)

lemma catch_http_HTTP: "m s = (Throw (Net (HTTPException msg)), s') \<Longrightarrow> catch_http d m s = (Ret d, s')"
  by (simp add: catch_http_def catchp_def)

lemma ParseCompanyInfo_reads:
  assumes "js_parse api body = Inr t"
    and "pt_get_opt api t ''companyName'' = Some full" and "pt_get_opt api t ''symbol'' = Some short"
    and "pt_get_opt api t ''latestPrice'' = Some pr" and "pt_to_float api pr = Some p"
    and "pt_get_opt api t ''latestUpdate'' = Some up" and "pt_to_int64 api up = Some ts"
  shows "ParseCompanyInfo api body = Inr \<lparr>shortName = short, fullName = full, logo = [],
    priceList = [\<lparr>price = p, dateTimestamp = ts, dateString = up\<rparr>]\<rparr>"
  using assms
  by (auto simp: ParseCompanyInfo_def bind_sum_def pt_get_as_def pt_get_def pt_get_opt_def split: option.splits)

text \<open>
  A quote. When the service answers the quote and the logo request of a symbol with
  pages that hold the expected fields, \<open>GetCompanyInfo\<close> returns the company with exactly
  those values: one price, whose text date is the text of its time stamp, and the logo link.
  It makes these two requests and no other, with the token of the configuration, and leaves
  the configuration alone.
\<close>

theorem quote_reply:
  assumes "ptree_laws api" and "\<not> mtx_locked c"
    and "PerformGet cu (iex_url api c symb ''quote'') w = (Ret body, w1)"
    and "js_parse api body = Inr t"
    and "pt_get_opt api t ''companyName'' = Some full" and "pt_get_opt api t ''symbol'' = Some short"
    and "pt_get_opt api t ''latestPrice'' = Some pr" and "pt_to_float api pr = Some p"
    and "pt_get_opt api t ''latestUpdate'' = Some up" and "pt_to_int64 api up = Some ts"
    and "PerformGet cu (iex_url api c symb ''logo'') w1 = (Ret lbody, w2)"
    and "js_parse api lbody = Inr lt" and "pt_get_opt api lt ''url'' = Some link"
  shows "GetCompanyInfo api cu symb (c, w) =
    (Ret \<lparr>shortName = short, fullName = full, logo = link,
          priceList = [\<lparr>price = p, dateTimestamp = ts, dateString = up\<rparr>]\<rparr>, (c, w2))"
proof -
  have l: "logo_from api (PerformGet cu) symb (c, w1) = (Ret link, (c, w2))"
    unfolding logo_from_def
    by (rule catch_http_Ret)
      (use assms(11-13) in \<open>auto simp: bindp_def CreateUrl_run [OF assms(1,2)] on_world_apply pt_get_def
         pt_get_opt_def split: option.splits\<close>)
  show ?thesis
    unfolding GetCompanyInfo_def info_from_def
    by (rule catch_http_Ret)
      (simp add: bindp_def CreateUrl_run [OF assms(1,2)] on_world_apply assms(3)
         ParseCompanyInfo_reads [OF assms(4-10)] l)
qed

theorem quote_reply_witness:
  "GetCompanyInfo demo_web demo_curl ''aapl'' (fresh_cfg, ([(CURLE_OK, 200, quote_page), (CURLE_OK, 200, logo_page)], 0)) =
     (Ret \<lparr>shortName = ''AAPL'', fullName = ''Apple'', logo = ''http://l/a.png'',
           priceList = [\<lparr>price = 190, dateTimestamp = 1600, dateString = ''1600''\<rparr>]\<rparr>, (fresh_cfg, ([], 200)))"
proof -
  have l: "\<not> mtx_locked fresh_cfg" by (simp add: fresh_cfg_def)
  have g: "PerformGet demo_curl (iex_url demo_web fresh_cfg ''aapl'' ''quote'')
      ([(CURLE_OK, 200, quote_page), (CURLE_OK, 200, logo_page)], 0) = (Ret quote_page, ([(CURLE_OK, 200, logo_page)], 200))"
    by code_simp
  have h: "PerformGet demo_curl (iex_url demo_web fresh_cfg ''aapl'' ''logo'')
      ([(CURLE_OK, 200, logo_page)], 200) = (Ret logo_page, ([], 200))"
    by code_simp
  have t: "js_parse demo_web quote_page = Inr quote_tree" by code_simp
  have f: "pt_get_opt demo_web quote_tree ''companyName'' = Some ''Apple''"
    "pt_get_opt demo_web quote_tree ''symbol'' = Some ''AAPL''"
    "pt_get_opt demo_web quote_tree ''latestPrice'' = Some ''190''" "pt_to_float demo_web ''190'' = Some 190"
    "pt_get_opt demo_web quote_tree ''latestUpdate'' = Some ''1600''" "pt_to_int64 demo_web ''1600'' = Some 1600"
    by code_simp+
  have u: "js_parse demo_web logo_page = Inr logo_tree" "pt_get_opt demo_web logo_tree ''url'' = Some ''http://l/a.png''"
    by code_simp+
  show ?thesis by (rule quote_reply [OF demo_web_laws l g t f h u])
qed

text \<open>
  An HTTP failure is an empty company. When the first request of any of the three
  overloads fails with an \<open>HTTPException\<close>, the call returns the empty company and asks for
  nothing else; when only the request for the logo fails that way, the call returns the
  parsed company without a logo.
\<close>

theorem http_failure_empty:
  assumes "ptree_laws api" and "\<not> mtx_locked c"
  shows "(\<forall>msg w1. PerformGet cu (iex_url api c symb ''quote'') w = (Throw (Net (HTTPException msg)), w1) \<longrightarrow>
       GetCompanyInfo api cu symb (c, w) = (Ret empty_info, (c, w1))) \<and>
    (\<forall>msg w1. PerformGet cu (iex_url api c symb (''chart/'' @ tf)) w = (Throw (Net (HTTPException msg)), w1) \<longrightarrow>
       GetCompanyInfo_frame api cu symb tf (c, w) = (Ret empty_info, (c, w1))) \<and>
    (\<forall>msg w1. PerformGet cu (iex_url api c symb (''chart/'' @ tf @ ''/'' @ date)) w =
         (Throw (Net (HTTPException msg)), w1) \<longrightarrow>
       GetCompanyInfo_date api cu symb tf date (c, w) = (Ret empty_info, (c, w1))) \<and>
    (\<forall>body w1 info msg w2. PerformGet cu (iex_url api c symb ''quote'') w = (Ret body, w1) \<and>
         ParseCompanyInfo api body = Inr info \<and>
         PerformGet cu (iex_url api c symb ''logo'') w1 = (Throw (Net (HTTPException msg)), w2) \<longrightarrow>
       GetCompanyInfo api cu symb (c, w) = (Ret (info\<lparr>logo := []\<rparr>), (c, w2)))"
proof -
  have first: "info_from api (PerformGet cu) symb ty (c, w) = (Ret empty_info, (c, w1))"
    if "PerformGet cu (iex_url api c symb ty) w = (Throw (Net (HTTPException msg)), w1)" for ty msg w1
    unfolding info_from_def
    by (rule catch_http_HTTP) (simp add: bindp_def CreateUrl_run [OF assms] on_world_apply that)
  have second: "info_from api (PerformGet cu) symb ''quote'' (c, w) = (Ret (info\<lparr>logo := []\<rparr>), (c, w2))"
    if "PerformGet cu (iex_url api c symb ''quote'') w = (Ret body, w1)"
      "ParseCompanyInfo api body = Inr info"
      "PerformGet cu (iex_url api c symb ''logo'') w1 = (Throw (Net (HTTPException msg)), w2)"
    for body w1 info msg w2
  proof -
    have l: "logo_from api (PerformGet cu) symb (c, w1) = (Ret [], (c, w2))"
      unfolding logo_from_def
      by (rule catch_http_HTTP) (simp add: bindp_def CreateUrl_run [OF assms] on_world_apply that(3))
    show ?thesis
      unfolding info_from_def
      by (rule catch_http_Ret) (simp add: bindp_def CreateUrl_run [OF assms] on_world_apply that(1,2) l)
  qed
  show ?thesis
    using first second
    by (auto simp: GetCompanyInfo_def GetCompanyInfo_frame_def GetCompanyInfo_date_def)
qed

theorem http_failure_empty_witness:
  "GetCompanyInfo demo_web demo_curl ''x'' (fresh_cfg, ([(CURLE_OK, 404, ''Unknown symbol'')], 0)) =
     (Ret empty_info, (fresh_cfg, ([], 404)))"
proof -
  have l: "\<not> mtx_locked fresh_cfg" by (simp add: fresh_cfg_def)
  have g: "PerformGet demo_curl (iex_url demo_web fresh_cfg ''x'' ''quote'') ([(CURLE_OK, 404, ''Unknown symbol'')], 0) =
      (Throw (Net (HTTPException ''server response is 404 Unknown symbol'')), ([], 404))"
    by code_simp
  show ?thesis using http_failure_empty [OF demo_web_laws l, of demo_curl "''x''"] g by blast
qed

text \<open>
  C28: What leaves the client. Each overload of \<open>GetCompanyInfo\<close>, and the request for the
  logo, comes back and leaves the configuration as it was; an exception that leaves it is
  never an \<open>HTTPException\<close>: it is a network or certificate error, or the error of a reply
  that is not JSON or lacks a field.
\<close>

theorem client_exceptions:
  assumes "ptree_laws api" and "parser_errors api" and "\<not> mtx_locked c"
    and "call \<in> {GetCompanyInfo api cu symb, GetCompanyInfo_frame api cu symb tf,
      GetCompanyInfo_date api cu symb tf date}"
    and "call (c, w) = (r, (c', w'))"
  shows "r \<noteq> Hang \<and> c' = c \<and>
    (\<forall>e. r = Throw e \<longrightarrow> \<not> is_HTTPException e \<and> (is_NetworkException e \<or> is_parse_error e)) \<and>
    (\<forall>r2 c2 w2. GetCompanyLogoLink api cu symb (c, w) = (r2, (c2, w2)) \<longrightarrow>
      r2 \<noteq> Hang \<and> c2 = c \<and>
      (\<forall>e. r2 = Throw e \<longrightarrow> \<not> is_HTTPException e \<and> (is_NetworkException e \<or> is_parse_error e)))"
proof -
  obtain ty where "call = info_from api (PerformGet cu) symb ty"
    using assms(4) by (auto simp: GetCompanyInfo_def GetCompanyInfo_frame_def GetCompanyInfo_date_def)
  then show ?thesis
    using iex.info_outcome [OF assms(1-3)] iex.logo_outcome [OF assms(1-3)] assms(5)
    unfolding GetCompanyLogoLink_def escapes_def by blast
qed

theorem client_exceptions_witness:
  "\<exists>e. GetCompanyInfo demo_web demo_curl ''aapl'' (fresh_cfg, ([], 0)) = (Throw e, (fresh_cfg, ([], 0))) \<and>
     is_NetworkException e \<and> \<not> is_HTTPException e"
proof -
  have l: "\<not> mtx_locked fresh_cfg" by (simp add: fresh_cfg_def)
  have g: "GetCompanyInfo demo_web demo_curl ''aapl'' (fresh_cfg, ([], 0)) =
      (Throw (Net (NetworkException ''transfer failed'')), (fresh_cfg, ([], 0)))" by code_simp
  show ?thesis
    using client_exceptions [OF demo_web_laws demo_web_errors l insertI1 g] g by auto
qed

end
