(* ===== verification/Company_Service.thy ===== *)
theory Company_Service
  imports Iex_Client
begin

text \<open>
  Models the request handler of \<open>Daemon/rpc/grpc/peakwork_server.cpp\<close> and the interface
  \<open>IPeakworkService\<close> it calls. The interface is the locale \<open>company_service\<close>; the daemon's
  controller implements it and the theory \<open>Controller\<close> interprets it. The messages are those
  of the protocol file; \<open>time_limit_initialized\<close> is what \<open>IsInitialized\<close> of the generated
  code answers for the time limit.
\<close>

section \<open>Messages\<close>

record TimeFrame =
  tf_timeFrame :: string
  tf_date :: string

record GetCompanyRequest =
  rq_company :: "string list"
  rq_time_limit :: TimeFrame
  time_limit_initialized :: bool

datatype grpc_status = Status_OK | Status_CANCELLED

text \<open>The status and the data of the JSON message, if one was set.\<close>

type_synonym grpc_answer = "grpc_status \<times> string option"

section \<open>The answer\<close>

text \<open>The JSON object of one company: name, logo, and the array of its prices.\<close>

definition company_json :: "('a, 'w, 'x) ptree_api_scheme \<Rightarrow> CompanyInfo \<Rightarrow> exn + 'a" where
  "company_json api info =
     bind_sum (pt_put api ''name'' (fullName info) (pt_empty api)) (\<lambda>c1.
     bind_sum (pt_put api ''logo'' (logo info) c1) (\<lambda>c2.
     bind_sum (array_tree api (map (\<lambda>p. pt_of_float api (price p)) (priceList info)) (pt_empty api)) (\<lambda>prices.
       Inr (pt_add_child api ''prices'' prices c2))))"

fun companies_json :: "('a, 'w, 'x) ptree_api_scheme \<Rightarrow> CompanyInfo list \<Rightarrow> 'a \<Rightarrow> exn + 'a" where
  "companies_json api [] jsonResult = Inr jsonResult"
| "companies_json api (info # infos) jsonResult =
     bind_sum (company_json api info) (\<lambda>company.
       companies_json api infos (pt_push_back api [] company jsonResult))"

definition request_frame :: "GetCompanyRequest \<Rightarrow> string" where
  "request_frame rq = (if time_limit_initialized rq then tf_timeFrame (rq_time_limit rq) else [])"

definition request_date :: "GetCompanyRequest \<Rightarrow> string" where
  "request_date rq = (if time_limit_initialized rq then tf_date (rq_time_limit rq) else [])"

text \<open>\<open>serve\<close> is the virtual call \<open>handler->GetCompanyInfo\<close>.\<close>

definition rpc_GetCompanyInfo ::
  "('a, 'v, 'x) ptree_api_scheme \<Rightarrow> (string list \<Rightarrow> string \<Rightarrow> string \<Rightarrow> ('s, CompanyInfo list) prog) \<Rightarrow>
     GetCompanyRequest \<Rightarrow> ('s, grpc_answer) prog" where
  "rpc_GetCompanyInfo api serve rq =
     catchp
       (bindp (serve (rq_company rq) (request_frame rq) (request_date rq)) (\<lambda>infos.
        bindp (lift_sum (companies_json api infos (pt_empty api))) (\<lambda>j.
        bindp (lift_sum (js_print api j)) (\<lambda>data.
          ret (Status_OK, Some data)))))
       (\<lambda>e. ret (Status_CANCELLED, None))"

section \<open>Lemmas\<close>

lemma companies_json_children:
  assumes "ptree_laws api" and "companies_json api infos j = Inr j'"
  shows "\<exists>objs. list_all2 (\<lambda>info ob. company_json api info = Inr ob) infos objs \<and>
    pt_children api j' = pt_children api j @ map (Pair []) objs"
  using assms(2)
proof (induction infos arbitrary: j)
  case Nil
  then show ?case by (intro exI [of _ "[]"]) simp
next
  case (Cons info infos)
  obtain ob where ob: "company_json api info = Inr ob"
    and r: "companies_json api infos (pt_push_back api [] ob j) = Inr j'"
    using Cons.prems by (auto simp: bind_sum_Inr)
  obtain objs where "list_all2 (\<lambda>info ob. company_json api info = Inr ob) infos objs"
    "pt_children api j' = pt_children api (pt_push_back api [] ob j) @ map (Pair []) objs"
    using Cons.IH [OF r] by blast
  then show ?case
    using ob by (intro exI [of _ "ob # objs"]) (simp add: ptree_push_back [OF assms(1)])
qed

lemma rpc_never_throws: "fst (rpc_GetCompanyInfo api serve rq s) \<noteq> Throw e"
  by (auto simp: rpc_GetCompanyInfo_def catchp_def split: prod.splits outcome.splits)

lemma rpc_ok:
  assumes "rpc_GetCompanyInfo api serve rq s = (Ret (Status_OK, data), s')"
  obtains infos j d where "serve (rq_company rq) (request_frame rq) (request_date rq) s = (Ret infos, s')"
    and "companies_json api infos (pt_empty api) = Inr j" and "js_print api j = Inr d" and "data = Some d"
  using assms
  by (auto simp: rpc_GetCompanyInfo_def lift_sum_def elim!: catchp_RetE bindp_RetE split: sum.splits)

lemma rpc_cancelled:
  assumes "serve (rq_company rq) (request_frame rq) (request_date rq) s = (Throw e, s')"
  shows "rpc_GetCompanyInfo api serve rq s = (Ret (Status_CANCELLED, None), s')"
  by (simp add: rpc_GetCompanyInfo_def catchp_def bindp_def assms)

section \<open>The interface\<close>

text \<open>
  A service returns one answer per company asked for; \<open>exns\<close> are the exceptions it may
  raise, and \<open>ok\<close> is the condition on the state under which it promises this.
\<close>

locale company_service =
  fixes serve :: "string list \<Rightarrow> string \<Rightarrow> string \<Rightarrow> ('s, CompanyInfo list) prog"
    and ok :: "'s \<Rightarrow> bool"
    and exns :: "exn \<Rightarrow> bool"
  assumes serve_ok: "ok s \<Longrightarrow> serve cs tf d s = (r, s') \<Longrightarrow> ok s'"
    and serve_length: "ok s \<Longrightarrow> serve cs tf d s = (Ret infos, s') \<Longrightarrow> length infos = length cs"
    and serve_returns: "ok s \<Longrightarrow> serve cs tf d s \<noteq> (Hang, s')"
    and serve_exns: "ok s \<Longrightarrow> serve cs tf d s = (Throw e, s') \<Longrightarrow> exns e"
begin

lemma answer_complete:
  fixes api :: "('a, 'v, 'x) ptree_api_scheme"
  assumes "ptree_laws api" and "ok s" and "rpc_GetCompanyInfo api serve rq s = (out, s')"
  shows "ok s' \<and>
    (out = Ret (Status_CANCELLED, None) \<or>
     (\<exists>infos j data. out = Ret (Status_OK, Some data) \<and> js_print api j = Inr data \<and>
       serve (rq_company rq) (request_frame rq) (request_date rq) s = (Ret infos, s') \<and>
       length (pt_children api j) = length (rq_company rq) \<and>
       list_all2 (\<lambda>info ch. company_json api info = Inr (snd ch)) infos (pt_children api j)))"
proof -
  obtain r s1 where run: "serve (rq_company rq) (request_frame rq) (request_date rq) s = (r, s1)"
    by fastforce
  have s1: "ok s1" by (rule serve_ok [OF assms(2) run])
  show ?thesis
  proof (cases r)
    case (Ret infos)
    note run = run [unfolded this]
    show ?thesis
    proof (cases "companies_json api infos (pt_empty api)")
      case (Inl e)
      then show ?thesis
        using assms(3) run s1 by (simp add: rpc_GetCompanyInfo_def catchp_def bindp_def)
    next
      case (Inr j)
      obtain objs where ob: "list_all2 (\<lambda>info ob. company_json api info = Inr ob) infos objs"
        "pt_children api j = map (Pair []) objs"
        using companies_json_children [OF assms(1) Inr] by (auto simp: ptree_empty [OF assms(1)])
      have len: "length (pt_children api j) = length (rq_company rq)"
        using ob serve_length [OF assms(2) run] by (simp add: list_all2_lengthD)
      have l2: "list_all2 (\<lambda>info ch. company_json api info = Inr (snd ch)) infos (pt_children api j)"
        using ob by (simp add: list.rel_map)
      show ?thesis
        using assms(3) run s1 Inr len l2
        by (cases "js_print api j") (auto simp: rpc_GetCompanyInfo_def catchp_def bindp_def)
    qed
  next
    case (Throw e)
    then show ?thesis using rpc_cancelled [of serve rq s e s1 api] run assms(3) s1 by simp
  next
    case Hang
    then show ?thesis using serve_returns [OF assms(2)] run by blast
  qed
qed

end

end
