(* ===== verification/Rpc_Service.thy ===== *)
theory Rpc_Service
  imports Company_Service
begin

text \<open>
  Models \<open>Daemon/rpc/rpc.cpp\<close> and the life cycle of the server in
  \<open>Daemon/rpc/grpc/peakwork_server.cpp\<close>: starting and stopping the service, and the choice of
  the client's overload. The gRPC library is a record of functions on the world; a server is
  its handle. A handler pointer is a number, \<open>None\<close> the null pointer. The mutex of the service
  is held for the whole of \<open>Start\<close> and \<open>Stop\<close>, which therefore are single steps here.
\<close>

section \<open>The gRPC library\<close>

record 'w grpc_api =
  gr_build :: "string \<Rightarrow> 'w \<Rightarrow> nat option \<times> 'w"
  gr_shutdown :: "nat \<Rightarrow> 'w \<Rightarrow> 'w"
  gr_wait :: "nat \<Rightarrow> 'w \<Rightarrow> 'w"
  gr_destroy :: "nat \<Rightarrow> 'w \<Rightarrow> 'w"

section \<open>The server\<close>

record PeakworkServiceImpl =
  server :: "nat option"
  handler :: nat

definition new_PeakworkServiceImpl :: "nat \<Rightarrow> PeakworkServiceImpl" where
  "new_PeakworkServiceImpl h = \<lparr>server = None, handler = h\<rparr>"

definition server_address :: "('a, 'w, 'x) ptree_api_scheme \<Rightarrow> (('a, 'w) cfg, string) prog" where
  "server_address api =
     bindp (GetGRPCServerInterface api) (\<lambda>i. bindp (GetGRPCServerPort api) (\<lambda>p. ret (i @ '':'' @ p)))"

text \<open>Assigning to the \<open>unique_ptr\<close> destroys the server it held before.\<close>

definition PeakworkService_Start ::
  "('a, 'w, 'x) ptree_api_scheme \<Rightarrow> ('w, 'y) grpc_api_scheme \<Rightarrow>
     (PeakworkServiceImpl \<times> ('a, 'w) cfg, unit) prog" where
  "PeakworkService_Start api gr s =
     (case server_address api (snd s) of
        (Ret addr, (c, w)) \<Rightarrow>
          (case gr_build gr addr w of
             (srv, w1) \<Rightarrow>
               (let w2 = (case server (fst s) of None \<Rightarrow> w1 | Some old \<Rightarrow> gr_destroy gr old w1)
                in (Ret (), ((fst s)\<lparr>server := srv\<rparr>, (c, w2)))))
      | (Throw e, cw) \<Rightarrow> (Throw e, (fst s, cw))
      | (Hang, cw) \<Rightarrow> (Hang, (fst s, cw)))"

definition PeakworkService_Stop ::
  "('w, 'y) grpc_api_scheme \<Rightarrow> PeakworkServiceImpl \<times> 'w \<Rightarrow> PeakworkServiceImpl \<times> 'w" where
  "PeakworkService_Stop gr s =
     (case server (fst s) of
        None \<Rightarrow> s
      | Some srv \<Rightarrow> ((fst s)\<lparr>server := None\<rparr>, gr_wait gr srv (gr_shutdown gr srv (snd s))))"

definition PeakworkService_destroy ::
  "('w, 'y) grpc_api_scheme \<Rightarrow> PeakworkServiceImpl \<times> 'w \<Rightarrow> 'w" where
  "PeakworkService_destroy gr s = snd (PeakworkService_Stop gr s)"

section \<open>The service\<close>

record RPCService =
  userHandler :: "nat option"
  grpcServer :: "PeakworkServiceImpl option"
  isStarted :: bool

definition new_RPCService :: RPCService where
  "new_RPCService = \<lparr>userHandler = None, grpcServer = None, isStarted = False\<rparr>"

text \<open>\<open>reset\<close> on the server pointer: the new object is there before the old one is destroyed.\<close>

definition reset_server ::
  "('w, 'y) grpc_api_scheme \<Rightarrow> PeakworkServiceImpl \<Rightarrow> RPCService \<times> 'w \<Rightarrow> RPCService \<times> 'w" where
  "reset_server gr svc s =
     ((fst s)\<lparr>grpcServer := Some svc\<rparr>,
      (case grpcServer (fst s) of
         None \<Rightarrow> snd s
       | Some old \<Rightarrow> PeakworkService_destroy gr (old, snd s)))"

definition RPCService_Start ::
  "('a, 'w, 'x) ptree_api_scheme \<Rightarrow> ('w, 'y) grpc_api_scheme \<Rightarrow> nat \<Rightarrow>
     (RPCService \<times> ('a, 'w) cfg, unit) prog" where
  "RPCService_Start api gr h s =
     (case s of (rpc, (c, w)) \<Rightarrow>
        if isStarted rpc then (Ret (), s)
        else
          (let svc = new_PeakworkServiceImpl h in
           case reset_server gr svc (rpc\<lparr>userHandler := Some h\<rparr>, w) of
             (rpc1, w1) \<Rightarrow>
               (case PeakworkService_Start api gr (svc, (c, w1)) of
                  (Ret _, (svc', cw)) \<Rightarrow> (Ret (), (rpc1\<lparr>grpcServer := Some svc', isStarted := True\<rparr>, cw))
                | (Throw e, (svc', cw)) \<Rightarrow> (Throw e, (rpc1\<lparr>grpcServer := Some svc'\<rparr>, cw))
                | (Hang, (svc', cw)) \<Rightarrow> (Hang, (rpc1\<lparr>grpcServer := Some svc'\<rparr>, cw)))))"

text \<open>\<open>release\<close> drops the pointer without destroying the object behind it.\<close>

definition RPCService_Stop :: "RPCService \<Rightarrow> RPCService" where
  "RPCService_Stop rpc = rpc\<lparr>grpcServer := None, userHandler := None, isStarted := False\<rparr>"

definition RPCService_destroy :: "RPCService \<Rightarrow> RPCService" where
  "RPCService_destroy rpc = RPCService_Stop rpc"

definition GetHTTPCompanyInfo ::
  "('a, 'w, 'x) ptree_api_scheme \<Rightarrow> ('w, 'y) curl_api_scheme \<Rightarrow> string \<Rightarrow> string \<Rightarrow> string \<Rightarrow>
     (('a, 'w) cfg, CompanyInfo) prog" where
  "GetHTTPCompanyInfo api cu short timeFrame date =
     (if timeFrame = [] \<and> date = [] then GetCompanyInfo api cu short
      else if date = [] then GetCompanyInfo_frame api cu short timeFrame
      else GetCompanyInfo_date api cu short timeFrame date)"

section \<open>Lemmas\<close>

lemma server_address_run:
  assumes "ptree_laws api" and "\<not> mtx_locked c"
  shows "\<exists>addr. \<forall>w. server_address api (c, w) = (Ret addr, (c, w))"
  by (simp add: server_address_def getters bindp_def GetString_run [OF assms(2,1)])

definition rpc_address :: "('a, 'w, 'x) ptree_api_scheme \<Rightarrow> 'a Config \<Rightarrow> string" where
  "rpc_address api c =
     (case pt_get_opt api (root c) (key2 ''grpc_server'' ''interface'') of None \<Rightarrow> grpcInterface | Some v \<Rightarrow> v) @ '':'' @
     (case pt_get_opt api (root c) (key2 ''grpc_server'' ''port'') of None \<Rightarrow> grpcPort | Some v \<Rightarrow> v)"

lemma server_address_value:
  assumes "ptree_laws api" and "\<not> mtx_locked c"
  shows "server_address api (c, w) = (Ret (rpc_address api c), (c, w))"
  by (simp add: server_address_def getters bindp_def GetString_run [OF assms(2,1)] rpc_address_def)

text \<open>The state between two starts: no object is kept, or one that never got a server.\<close>

definition rpc_idle :: "RPCService \<Rightarrow> bool" where
  "rpc_idle rpc \<longleftrightarrow> \<not> isStarted rpc \<and> (case grpcServer rpc of None \<Rightarrow> True | Some svc \<Rightarrow> server svc = None)"

lemma reset_idle: "rpc_idle rpc \<Longrightarrow> reset_server gr svc (rpc\<lparr>userHandler := h\<rparr>, w) =
    (rpc\<lparr>userHandler := h, grpcServer := Some svc\<rparr>, w)"
  by (auto simp: rpc_idle_def reset_server_def PeakworkService_destroy_def PeakworkService_Stop_def split: option.splits)

lemma RPCService_Start_run:
  assumes "ptree_laws api" and "\<not> mtx_locked c" and "rpc_idle rpc"
  shows "RPCService_Start api gr h (rpc, (c, w)) =
    (Ret (), (\<lparr>userHandler = Some h,
               grpcServer = Some \<lparr>server = fst (gr_build gr (rpc_address api c) w), handler = h\<rparr>,
               isStarted = True\<rparr>,
      (c, snd (gr_build gr (rpc_address api c) w))))"
  using assms(3) reset_idle [OF assms(3), of gr "new_PeakworkServiceImpl h" "Some h" w]
  by (cases rpc)
    (simp add: RPCService_Start_def Let_def PeakworkService_Start_def new_PeakworkServiceImpl_def
      server_address_value [OF assms(1,2)] rpc_idle_def split: prod.split)

lemma Stop_idle: "rpc_idle (RPCService_Stop rpc)"
  by (simp add: rpc_idle_def RPCService_Stop_def)

text \<open>The reachable states of the service, whatever the sequence of starts and stops.\<close>

inductive rpc_reach ::
  "('a, 'w, 'x) ptree_api_scheme \<Rightarrow> ('w, 'y) grpc_api_scheme \<Rightarrow> RPCService \<times> ('a, 'w) cfg \<Rightarrow> bool"
  for api gr where
  rpc_new: "rpc_reach api gr (new_RPCService, cw)"
| rpc_start: "rpc_reach api gr s \<Longrightarrow> RPCService_Start api gr h s = (r, s') \<Longrightarrow> rpc_reach api gr s'"
| rpc_stop: "rpc_reach api gr (rpc, cw) \<Longrightarrow> rpc_reach api gr (RPCService_Stop rpc, cw)"
| rpc_world: "rpc_reach api gr (rpc, (c, w)) \<Longrightarrow> rpc_reach api gr (rpc, (c', w'))"

definition rpc_inv :: "RPCService \<Rightarrow> bool" where
  "rpc_inv rpc \<longleftrightarrow>
     (if isStarted rpc
      then (\<exists>h srv. userHandler rpc = Some h \<and> grpcServer rpc = Some \<lparr>server = srv, handler = h\<rparr>)
      else rpc_idle rpc)"

lemma PeakworkService_Start_cases:
  assumes "PeakworkService_Start api gr (svc, (c, w)) = (r, (svc', cw))"
  shows "(r = Ret () \<and> (\<exists>srv. svc' = svc\<lparr>server := srv\<rparr>)) \<or> (r \<noteq> Ret () \<and> svc' = svc)"
  using assms
  by (auto simp: PeakworkService_Start_def Let_def split: prod.splits outcome.splits)

lemma RPCService_Start_inv:
  assumes "rpc_inv rpc" and "RPCService_Start api gr h (rpc, (c, w)) = (r, (rpc', cw))"
  shows "rpc_inv rpc'"
proof (cases "isStarted rpc")
  case True
  then show ?thesis using assms by (simp add: RPCService_Start_def)
next
  case False
  then have idle: "rpc_idle rpc" using assms(1) by (simp add: rpc_inv_def)
  obtain r1 svc1 cw1 where st: "PeakworkService_Start api gr (new_PeakworkServiceImpl h, (c, w)) = (r1, (svc1, cw1))"
    by (metis prod.exhaust)
  have re: "reset_server gr (new_PeakworkServiceImpl h) (rpc\<lparr>userHandler := Some h\<rparr>, w) =
      (rpc\<lparr>userHandler := Some h, grpcServer := Some (new_PeakworkServiceImpl h)\<rparr>, w)"
    by (rule reset_idle [OF idle])
  have run: "rpc' = (if r1 = Ret () then rpc\<lparr>userHandler := Some h, grpcServer := Some svc1, isStarted := True\<rparr>
      else rpc\<lparr>userHandler := Some h, grpcServer := Some svc1\<rparr>)"
    using assms(2) False by (cases r1) (auto simp: RPCService_Start_def Let_def re st)
  show ?thesis
    using run False PeakworkService_Start_cases [OF st]
    by (auto simp: rpc_inv_def rpc_idle_def new_PeakworkServiceImpl_def)
qed

lemma rpc_reach_inv: "rpc_reach api gr s \<Longrightarrow> rpc_inv (fst s)"
proof (induction rule: rpc_reach.induct)
  case (rpc_new cw)
  then show ?case by (simp add: rpc_inv_def rpc_idle_def new_RPCService_def)
next
  case (rpc_start s h r s')
  then show ?case
    using RPCService_Start_inv [of "fst s" api gr h "fst (snd s)" "snd (snd s)" r "fst s'" "snd s'"] by simp
next
  case (rpc_stop rpc cw)
  then show ?case using Stop_idle [of rpc] by (simp add: rpc_inv_def RPCService_Stop_def)
next
  case (rpc_world rpc c w c' w')
  then show ?case by simp
qed

end
