(* ===== verification/Sql_Api.thy ===== *)
theory Sql_Api
  imports Prelude
begin

text \<open>
  The interface of SQLiteCpp, which is not part of the repository: a record of functions on a
  world \<open>'w\<close>, and the behaviour of transactions the tables rely on. \<open>None\<close> as an error means
  that the call returned. A query is given by its text and the values bound to its
  parameters; \<open>sq_rows\<close> is the first column of the rows that successive \<open>executeStep\<close> calls
  deliver, with the exception that ended them, if one did.
\<close>

datatype sql_value = SqlNull | SqlInt int64 | SqlReal float32 | SqlText string

type_synonym sql_binds = "(string \<times> sql_value) list"

record 'w sql_api =
  sq_open :: "string \<Rightarrow> 'w \<Rightarrow> exn option \<times> 'w"
  sq_prepare :: "string \<Rightarrow> 'w \<Rightarrow> exn option"
  sq_bind :: "string \<Rightarrow> string \<Rightarrow> exn option"
  sq_exec :: "string \<Rightarrow> 'w \<Rightarrow> exn option \<times> 'w"
  sq_exec_stmt :: "string \<Rightarrow> sql_binds \<Rightarrow> 'w \<Rightarrow> exn option \<times> 'w"
  sq_exec_and_get :: "string \<Rightarrow> 'w \<Rightarrow> exn + sql_value"
  sq_rows :: "string \<Rightarrow> sql_binds \<Rightarrow> 'w \<Rightarrow> sql_value list \<times> exn option"
  sq_table_exists :: "string \<Rightarrow> 'w \<Rightarrow> exn + bool"
  sq_begin :: "'w \<Rightarrow> exn option \<times> 'w"
  sq_commit :: "'w \<Rightarrow> exn option \<times> 'w"
  sq_rollback :: "'w \<Rightarrow> exn option \<times> 'w"
  cl_string :: "sql_value \<Rightarrow> string"
  cl_int :: "sql_value \<Rightarrow> cint"
  cl_int64 :: "sql_value \<Rightarrow> int64"
  cl_uint :: "sql_value \<Rightarrow> uint32"

text \<open>A call as a program.\<close>

definition sql_call :: "('w \<Rightarrow> exn option \<times> 'w) \<Rightarrow> ('w, unit) prog" where
  "sql_call f w = (case f w of (None, w') \<Rightarrow> (Ret (), w') | (Some e, w') \<Rightarrow> (Throw e, w'))"

section \<open>Transactions\<close>

text \<open>
  \<open>db\<close> is the content of the database a connection sees, \<open>saved\<close> the content a rollback goes
  back to. Opening a transaction saves the content; nothing in it but a commit that works
  changes what is saved; a rollback restores it.
\<close>

definition txn_laws :: "('w, 'x) sql_api_scheme \<Rightarrow> ('w \<Rightarrow> 'd) \<Rightarrow> ('w \<Rightarrow> 'd) \<Rightarrow> bool" where
  "txn_laws sq db saved \<longleftrightarrow>
     (\<forall>w r w'. sq_begin sq w = (r, w') \<longrightarrow> db w' = db w \<and> (r = None \<longrightarrow> saved w' = db w)) \<and>
     (\<forall>cmd w r w'. sq_exec sq cmd w = (r, w') \<longrightarrow> saved w' = saved w) \<and>
     (\<forall>cmd bs w r w'. sq_exec_stmt sq cmd bs w = (r, w') \<longrightarrow> saved w' = saved w) \<and>
     (\<forall>w r w'. sq_commit sq w = (r, w') \<longrightarrow> db w' = db w \<and> (r \<noteq> None \<longrightarrow> saved w' = saved w)) \<and>
     (\<forall>w. db (snd (sq_rollback sq w)) = saved w)"

lemma txn_begin: "txn_laws sq db saved \<Longrightarrow> sq_begin sq w = (r, w') \<Longrightarrow> db w' = db w"
  and txn_begin_saved: "txn_laws sq db saved \<Longrightarrow> sq_begin sq w = (None, w') \<Longrightarrow> saved w' = db w"
  and txn_exec: "txn_laws sq db saved \<Longrightarrow> sq_exec sq cmd w = (r, w') \<Longrightarrow> saved w' = saved w"
  and txn_exec_stmt: "txn_laws sq db saved \<Longrightarrow> sq_exec_stmt sq cmd bs w = (r, w') \<Longrightarrow> saved w' = saved w"
  and txn_commit: "txn_laws sq db saved \<Longrightarrow> sq_commit sq w = (r, w') \<Longrightarrow> db w' = db w"
  and txn_commit_failed: "txn_laws sq db saved \<Longrightarrow> sq_commit sq w = (Some e, w') \<Longrightarrow> saved w' = saved w"
  and txn_rollback: "txn_laws sq db saved \<Longrightarrow> db (snd (sq_rollback sq w)) = saved w"
  unfolding txn_laws_def by blast+

end
