(* ===== verification/Itable.thy ===== *)
theory Itable
  imports Sql_Api Cpp_String "HOL-Library.Signed_Division"
begin

text \<open>
  Models \<open>Daemon/db/itable.h\<close> and \<open>itable.cpp\<close>: the operations all tables share. A table is its
  name; the shared connection is the world. The one static mutex of all tables is recursive
  and each operation holds it while it works, so an operation is one step here; \<open>Table_Code\<close>
  takes the operations apart and \<open>Table_Threads\<close> shows that this changes nothing.
\<close>

section \<open>Commands and transactions\<close>

definition run_transaction ::
  "('w, 'x) sql_api_scheme \<Rightarrow> ('w \<Rightarrow> exn option \<times> 'w) \<Rightarrow> ('w, unit) prog" where
  "run_transaction sq body w =
     (case sq_begin sq w of
        (Some e, w1) \<Rightarrow> (Throw e, w1)
      | (None, w1) \<Rightarrow>
          (case body w1 of
             (Some e, w2) \<Rightarrow> (Throw e, snd (sq_rollback sq w2))
           | (None, w2) \<Rightarrow>
               (case sq_commit sq w2 of
                  (Some e, w3) \<Rightarrow> (Throw e, snd (sq_rollback sq w3))
                | (None, w3) \<Rightarrow> (Ret (), w3))))"

definition RunTransaction :: "('w, 'x) sql_api_scheme \<Rightarrow> string \<Rightarrow> ('w, unit) prog" where
  "RunTransaction sq cmd = run_transaction sq (sq_exec sq cmd)"

definition RunTransaction_stmt ::
  "('w, 'x) sql_api_scheme \<Rightarrow> string \<Rightarrow> sql_binds \<Rightarrow> ('w, unit) prog" where
  "RunTransaction_stmt sq cmd binds = run_transaction sq (sq_exec_stmt sq cmd binds)"

text \<open>Preparing a statement and binding its parameters in order.\<close>

fun bind_all :: "('w, 'x) sql_api_scheme \<Rightarrow> string \<Rightarrow> sql_binds \<Rightarrow> ('w, unit) prog" where
  "bind_all sq cmd [] = ret ()"
| "bind_all sq cmd ((name, v) # bs) =
     (case sq_bind sq cmd name of Some e \<Rightarrow> raise e | None \<Rightarrow> bind_all sq cmd bs)"

definition make_statement ::
  "('w, 'x) sql_api_scheme \<Rightarrow> string \<Rightarrow> sql_binds \<Rightarrow> ('w, unit) prog" where
  "make_statement sq cmd binds w =
     (case sq_prepare sq cmd w of Some e \<Rightarrow> (Throw e, w) | None \<Rightarrow> bind_all sq cmd binds w)"

section \<open>The operations of a table\<close>

definition IsExist :: "('w, 'x) sql_api_scheme \<Rightarrow> string \<Rightarrow> ('w, bool) prog" where
  "IsExist sq name w =
     (case sq_table_exists sq name w of Inl e \<Rightarrow> (Throw e, w) | Inr b \<Rightarrow> (Ret b, w))"

definition Drop :: "('w, 'x) sql_api_scheme \<Rightarrow> string \<Rightarrow> ('w, unit) prog" where
  "Drop sq name = RunTransaction sq (''DROP TABLE IF EXISTS '' @ name)"

text \<open>\<open>RemoveAll\<close> builds its command and drops it.\<close>

definition RemoveAll :: "string \<Rightarrow> ('w, unit) prog" where
  "RemoveAll name = (let cmd = ''DELETE FROM '' @ name in ret ())"

definition exec_and_get :: "('w, 'x) sql_api_scheme \<Rightarrow> string \<Rightarrow> ('w, sql_value) prog" where
  "exec_and_get sq cmd w = (lift_sum (sq_exec_and_get sq cmd w)) w"

definition dquoted :: "string \<Rightarrow> string" where
  "dquoted s = [CHR 0x22] @ s @ [CHR 0x22]"

definition cell_query :: "string \<Rightarrow> string \<Rightarrow> string \<Rightarrow> string" where
  "cell_query name field compareValue =
     ''SELECT EXISTS(SELECT 1 FROM '' @ name @ '' '' @
     ''WHERE '' @ field @ '' = '' @ dquoted compareValue @ '' '' @ ''LIMIT 1)''"

definition IsCellPresent ::
  "('w, 'x) sql_api_scheme \<Rightarrow> string \<Rightarrow> string \<Rightarrow> string \<Rightarrow> ('w, bool) prog" where
  "IsCellPresent sq name field compareValue =
     bindp (exec_and_get sq (cell_query name field compareValue)) (\<lambda>v. ret (cl_int sq v \<noteq> 0))"

definition field_query :: "string \<Rightarrow> string \<Rightarrow> string \<Rightarrow> string" where
  "field_query name field filter_field =
     ''SELECT '' @ field @ '' FROM '' @ name @ '' '' @ ''WHERE '' @ filter_field @ '' = :compareValue''"

definition field_list_query :: "string \<Rightarrow> string \<Rightarrow> string" where
  "field_list_query name field = ''SELECT '' @ field @ '' FROM '' @ name"

definition CreateGetFieldQuery ::
  "('w, 'x) sql_api_scheme \<Rightarrow> string \<Rightarrow> string \<Rightarrow> string \<Rightarrow> sql_value \<Rightarrow> ('w, string \<times> sql_binds) prog" where
  "CreateGetFieldQuery sq name field filter_field v =
     (let cmd = field_query name field filter_field; bs = [('':compareValue'', v)]
      in thenp (make_statement sq cmd bs) (ret (cmd, bs)))"

definition CreateGetFieldQuery_list ::
  "('w, 'x) sql_api_scheme \<Rightarrow> string \<Rightarrow> string \<Rightarrow> ('w, string) prog" where
  "CreateGetFieldQuery_list sq name field =
     (let cmd = field_list_query name field in thenp (make_statement sq cmd []) (ret cmd))"

text \<open>
  The single value of a field: no row and two rows are \<open>logic_error\<close>s, a null is
  \<open>out_of_range\<close>; an error of a step is thrown when that step is taken. \<open>shown\<close> is the filter
  value as the message prints it.
\<close>

definition GetFieldValue ::
  "('w, 'x) sql_api_scheme \<Rightarrow> (sql_value \<Rightarrow> 'r) \<Rightarrow> string \<Rightarrow> string \<Rightarrow> string \<Rightarrow> sql_value \<Rightarrow>
     string \<Rightarrow> ('w, 'r) prog" where
  "GetFieldValue sq get_column name field filter_field v shown =
     bindp (CreateGetFieldQuery sq name field filter_field v) (\<lambda>q w.
       case sq_rows sq (fst q) (snd q) w of
         ([], None) \<Rightarrow> (Throw (LogicError ''There is no one results''), w)
       | ([], Some e) \<Rightarrow> (Throw e, w)
       | (x # xs, e) \<Rightarrow>
           if x = SqlNull then (Throw (OutOfRange ''Asked results is NULL''), w)
           else (case (xs, e) of
                   ([], None) \<Rightarrow> (Ret (get_column x), w)
                 | ([], Some e) \<Rightarrow> (Throw e, w)
                 | (_ # _, _) \<Rightarrow>
                     (Throw (LogicError (''There are more than one results for field='' @ filter_field @
                        '' and value='' @ shown)), w)))"

definition all_rows ::
  "('w, 'x) sql_api_scheme \<Rightarrow> (sql_value \<Rightarrow> 'r) \<Rightarrow> string \<Rightarrow> sql_binds \<Rightarrow> ('w, 'r list) prog" where
  "all_rows sq get_column cmd bs w =
     (case sq_rows sq cmd bs w of
        (vs, None) \<Rightarrow> (Ret (map get_column vs), w)
      | (vs, Some e) \<Rightarrow> (Throw e, w))"

definition GetFieldValueList ::
  "('w, 'x) sql_api_scheme \<Rightarrow> (sql_value \<Rightarrow> 'r) \<Rightarrow> string \<Rightarrow> string \<Rightarrow> ('w, 'r list) prog" where
  "GetFieldValueList sq get_column name field =
     bindp (CreateGetFieldQuery_list sq name field) (\<lambda>cmd. all_rows sq get_column cmd [])"

definition GetFieldValueList_where ::
  "('w, 'x) sql_api_scheme \<Rightarrow> (sql_value \<Rightarrow> 'r) \<Rightarrow> string \<Rightarrow> string \<Rightarrow> string \<Rightarrow> sql_value \<Rightarrow>
     ('w, 'r list) prog" where
  "GetFieldValueList_where sq get_column name field filter_field v =
     bindp (CreateGetFieldQuery sq name field filter_field v) (\<lambda>q. all_rows sq get_column (fst q) (snd q))"

definition update_query :: "string \<Rightarrow> string \<Rightarrow> string \<Rightarrow> string" where
  "update_query name field search_field =
     ''UPDATE '' @ name @ '' SET '' @ field @ '' = :newValue '' @ ''WHERE '' @ search_field @ '' = :searchValue''"

definition UpdateField ::
  "('w, 'x) sql_api_scheme \<Rightarrow> string \<Rightarrow> string \<Rightarrow> sql_value \<Rightarrow> string \<Rightarrow> sql_value \<Rightarrow> ('w, unit) prog" where
  "UpdateField sq name field new_value search_field search_value =
     (let cmd = update_query name field search_field;
          bs = [('':newValue'', new_value), ('':searchValue'', search_value)]
      in thenp (make_statement sq cmd bs) (RunTransaction_stmt sq cmd bs))"

definition remove_query :: "string \<Rightarrow> string \<Rightarrow> string" where
  "remove_query name search_field =
     ''DELETE FROM '' @ name @ '' '' @ ''WHERE '' @ search_field @ '' = :searchValue''"

definition RemoveRows ::
  "('w, 'x) sql_api_scheme \<Rightarrow> string \<Rightarrow> string \<Rightarrow> sql_value \<Rightarrow> ('w, unit) prog" where
  "RemoveRows sq name search_field search_value =
     (let cmd = remove_query name search_field; bs = [('':searchValue'', search_value)]
      in thenp (make_statement sq cmd bs) (RunTransaction_stmt sq cmd bs))"

text \<open>The overloads of \<open>GetColumnValue\<close>, one per type of the variable.\<close>

definition GetColumnValue_string :: "('w, 'x) sql_api_scheme \<Rightarrow> sql_value \<Rightarrow> string" where
  "GetColumnValue_string sq column = cl_string sq column"

definition GetColumnValue_int :: "('w, 'x) sql_api_scheme \<Rightarrow> sql_value \<Rightarrow> cint" where
  "GetColumnValue_int sq column = cl_int sq column"

definition GetColumnValue_int64 :: "('w, 'x) sql_api_scheme \<Rightarrow> sql_value \<Rightarrow> int64" where
  "GetColumnValue_int64 sq column = cl_int64 sq column"

definition GetColumnValue_uint :: "('w, 'x) sql_api_scheme \<Rightarrow> sql_value \<Rightarrow> uint32" where
  "GetColumnValue_uint sq column = cl_uint sq column"

definition GetColumnValue_bool :: "('w, 'x) sql_api_scheme \<Rightarrow> sql_value \<Rightarrow> bool" where
  "GetColumnValue_bool sq column \<longleftrightarrow> cl_int sq column \<noteq> 0"

text \<open>
  The time in milliseconds: \<open>duration_cast\<close> divides the nanoseconds of the system clock and
  rounds towards zero.
\<close>

definition GetTimestamp :: "('w \<Rightarrow> int64) \<Rightarrow> ('w, int64) prog" where
  "GetTimestamp clock w = (Ret (word_of_int (sint (clock w) sdiv 1000000)), w)"

section \<open>Lemmas\<close>

text \<open>A transaction that throws leaves the content of the database as it was.\<close>

lemma run_transaction_atomic:
  assumes "txn_laws sq db saved" and "\<And>w r w'. body w = (r, w') \<Longrightarrow> saved w' = saved w"
    and "run_transaction sq body w = (Throw e, w')"
  shows "db w' = db w"
proof -
  obtain b w1 where bg: "sq_begin sq w = (b, w1)" by fastforce
  note db1 = txn_begin [OF assms(1) bg]
  show ?thesis
  proof (cases b)
    case None
    note sv = txn_begin_saved [OF assms(1) bg [unfolded None]]
    obtain x w2 where bd: "body w1 = (x, w2)" by fastforce
    obtain k w3 where cm: "sq_commit sq w2 = (k, w3)" by fastforce
    show ?thesis
      using assms(3) bg None bd cm sv assms(2) [OF bd] txn_rollback [OF assms(1)]
        txn_commit_failed [OF assms(1), of w2]
      by (auto simp: run_transaction_def split: option.splits)
  qed (use assms(3) bg db1 in \<open>simp add: run_transaction_def\<close>)
qed

lemma run_transaction_returns: "fst (run_transaction sq body w) \<noteq> Hang"
  by (auto simp: run_transaction_def split: prod.splits option.splits)

lemma RunTransaction_atomic:
  "txn_laws sq db saved \<Longrightarrow> RunTransaction sq cmd w = (Throw e, w') \<Longrightarrow> db w' = db w"
  unfolding RunTransaction_def
  by (rule run_transaction_atomic [where saved = saved]) (auto dest: txn_exec)

lemma RunTransaction_stmt_atomic:
  "txn_laws sq db saved \<Longrightarrow> RunTransaction_stmt sq cmd bs w = (Throw e, w') \<Longrightarrow> db w' = db w"
  unfolding RunTransaction_stmt_def
  by (rule run_transaction_atomic [where saved = saved]) (auto dest: txn_exec_stmt)

lemma bind_all_world: "snd (bind_all sq cmd bs w) = w" "fst (bind_all sq cmd bs w) \<noteq> Hang"
  by (induction sq cmd bs rule: bind_all.induct) (auto split: option.splits)

lemma make_statement_world: "snd (make_statement sq cmd bs w) = w" "fst (make_statement sq cmd bs w) \<noteq> Hang"
  using bind_all_world [of sq cmd bs w] by (auto simp: make_statement_def split: option.splits)

text \<open>A prepared statement that is then run in a transaction.\<close>

lemma statement_atomic:
  assumes "txn_laws sq db saved"
    and "thenp (make_statement sq cmd bs) (RunTransaction_stmt sq cmd bs) w = (Throw e, w')"
  shows "db w' = db w"
proof (cases "make_statement sq cmd bs w")
  case (Pair r w1)
  then have w1: "w1 = w" using make_statement_world(1) [of sq cmd bs w] by simp
  show ?thesis
    using assms(2) Pair w1 RunTransaction_stmt_atomic [OF assms(1)]
    by (cases r) (auto simp: thenp_def bindp_def)
qed

text \<open>
  SQLite's integer columns have 64 bits; its 32-bit accessors give the low half of a value.
\<close>

definition column_laws :: "('w, 'x) sql_api_scheme \<Rightarrow> bool" where
  "column_laws sq \<longleftrightarrow>
     (\<forall>i. cl_int64 sq (SqlInt i) = i \<and> cl_int sq (SqlInt i) = ucast i \<and> cl_uint sq (SqlInt i) = ucast i)"

text \<open>
  A time stamp keeps the milliseconds of the clock; stored and read back it is the same in
  the 64-bit overload, and in the overload for \<open>int\<close> only when it fits.
\<close>

lemma sdiv_bounds:
  fixes t :: int
  assumes "- (2 ^ 63) \<le> t" and "t < 2 ^ 63"
  shows "- (2 ^ 63) \<le> t sdiv 1000000 \<and> t sdiv 1000000 < 2 ^ 63"
  using assms by (auto simp: signed_divide_int_def sgn_if)

lemma GetTimestamp_width:
  assumes "column_laws sq" and "GetTimestamp clock w = (Ret ts, w')"
  shows "sint ts = sint (clock w) sdiv 1000000 \<and>
    GetColumnValue_int64 sq (SqlInt ts) = ts \<and>
    (sint (GetColumnValue_int sq (SqlInt ts)) = sint ts \<longleftrightarrow> - (2 ^ 31) \<le> sint ts \<and> sint ts < 2 ^ 31)"
proof -
  have ts: "ts = word_of_int (sint (clock w) sdiv 1000000)" using assms(2) by (auto simp: GetTimestamp_def)
  have b: "- (2 ^ 63) \<le> sint (clock w)" "sint (clock w) < 2 ^ 63"
    using sint_greater_eq [of "clock w"] sint_lt [of "clock w"] by simp_all
  have s: "sint ts = sint (clock w) sdiv 1000000"
    using sdiv_bounds [OF b] unfolding ts by (simp add: signed_of_int signed_take_bit_int_eq_self_iff)
  have "sint (ucast ts :: 32 word) = signed_take_bit 31 (sint ts)"
    by (rule bit_eqI) (auto simp: bit_simps min_def)
  then show ?thesis
    using assms(1) s
    by (simp add: GetColumnValue_int64_def GetColumnValue_int_def column_laws_def signed_take_bit_int_eq_self_iff)
qed

end
