(* ===== verification/Db_Tables.thy ===== *)
theory Db_Tables
  imports Itable
begin

text \<open>
  Models the three tables of \<open>Daemon/db\<close>: \<open>table_companies.cpp\<close>, \<open>table_prices.cpp\<close> and
  \<open>table_db_version.cpp\<close>, each with its fields, the text of its commands and its operations.
\<close>

section \<open>Companies\<close>

datatype company_field = C_ID | C_UUID | C_NAME | C_LOGO

fun companies_fields :: "company_field \<Rightarrow> string" where
  "companies_fields C_ID = ''id''"
| "companies_fields C_UUID = ''uuid''"
| "companies_fields C_NAME = ''full_name''"
| "companies_fields C_LOGO = ''logo''"

definition companies_name :: string where
  "companies_name = ''companies''"

definition companies_create_cmd :: string where
  "companies_create_cmd =
     ''CREATE TABLE IF NOT EXISTS '' @ companies_name @
     ''('' @ companies_fields C_ID @ '' INTEGER PRIMARY KEY AUTOINCREMENT,'' @
     companies_fields C_UUID @ '' TEXT NOT NULL UNIQUE, '' @
     companies_fields C_NAME @ '' TEXT NOT NULL, '' @
     companies_fields C_LOGO @ '' TEXT '' @ '')''"

definition Companies_Create :: "('w, 'x) sql_api_scheme \<Rightarrow> ('w, unit) prog" where
  "Companies_Create sq = RunTransaction sq companies_create_cmd"

definition Companies_Init :: "('w, unit) prog" where
  "Companies_Init = ret ()"

definition companies_add_cmd :: string where
  "companies_add_cmd =
     ''INSERT OR IGNORE INTO '' @ companies_name @ '' '' @
     ''('' @ companies_fields C_UUID @ '', '' @ companies_fields C_NAME @ '', '' @ companies_fields C_LOGO @
     '') '' @ '' VALUES (:uuid, :name, :logo)''"

definition Companies_Add ::
  "('w, 'x) sql_api_scheme \<Rightarrow> string \<Rightarrow> string \<Rightarrow> string \<Rightarrow> ('w, unit) prog" where
  "Companies_Add sq uuid name lg =
     (let bs = [('':uuid'', SqlText uuid), ('':name'', SqlText name), ('':logo'', SqlText lg)]
      in thenp (make_statement sq companies_add_cmd bs) (RunTransaction_stmt sq companies_add_cmd bs))"

definition companies_rowid_cmd :: "string \<Rightarrow> string" where
  "companies_rowid_cmd uuid =
     ''SELECT '' @ companies_fields C_ID @ '' '' @ ''FROM '' @ companies_name @ '' '' @
     ''WHERE '' @ companies_fields C_UUID @ '' = '' @ dquoted uuid @ '' ''"

definition GetRowID :: "('w, 'x) sql_api_scheme \<Rightarrow> string \<Rightarrow> ('w, int64) prog" where
  "GetRowID sq uuid = bindp (exec_and_get sq (companies_rowid_cmd uuid)) (\<lambda>v. ret (cl_int64 sq v))"

text \<open>The three getters by row id, with the row id as the error message prints it.\<close>

definition by_rowid ::
  "('w, 'x) sql_api_scheme \<Rightarrow> company_field \<Rightarrow> int64 \<Rightarrow> ('w, string) prog" where
  "by_rowid sq f rowId =
     GetFieldValue sq (cl_string sq) companies_name (companies_fields f) (companies_fields C_ID)
       (SqlInt rowId) (show_int (sint rowId))"

definition GetUUIDByRowID :: "('w, 'x) sql_api_scheme \<Rightarrow> int64 \<Rightarrow> ('w, string) prog" where
  "GetUUIDByRowID sq rowId = by_rowid sq C_UUID rowId"

definition GetNameByRowID :: "('w, 'x) sql_api_scheme \<Rightarrow> int64 \<Rightarrow> ('w, string) prog" where
  "GetNameByRowID sq rowId = by_rowid sq C_NAME rowId"

definition GetLogoByRowID :: "('w, 'x) sql_api_scheme \<Rightarrow> int64 \<Rightarrow> ('w, string) prog" where
  "GetLogoByRowID sq rowId = by_rowid sq C_LOGO rowId"

definition SetLogoByID :: "('w, 'x) sql_api_scheme \<Rightarrow> int64 \<Rightarrow> string \<Rightarrow> ('w, unit) prog" where
  "SetLogoByID sq rowId link =
     UpdateField sq companies_name (companies_fields C_LOGO) (SqlText link) (companies_fields C_ID)
       (SqlInt rowId)"

definition IsUUIDPresent :: "('w, 'x) sql_api_scheme \<Rightarrow> string \<Rightarrow> ('w, bool) prog" where
  "IsUUIDPresent sq uuid = IsCellPresent sq companies_name (companies_fields C_UUID) uuid"

definition companies_id_cmd :: "int64 \<Rightarrow> string" where
  "companies_id_cmd rowId =
     ''SELECT EXISTS(SELECT 1 FROM '' @ companies_name @ '' '' @
     ''WHERE '' @ companies_fields C_ID @ '' = '' @ show_int (sint rowId) @ '' '' @ ''LIMIT 1)''"

definition IsIDPresent :: "('w, 'x) sql_api_scheme \<Rightarrow> int64 \<Rightarrow> ('w, bool) prog" where
  "IsIDPresent sq rowId = bindp (exec_and_get sq (companies_id_cmd rowId)) (\<lambda>v. ret (cl_int sq v \<noteq> 0))"

definition RemoveByRowID :: "('w, 'x) sql_api_scheme \<Rightarrow> int64 \<Rightarrow> ('w, unit) prog" where
  "RemoveByRowID sq rowId = RemoveRows sq companies_name (companies_fields C_ID) (SqlInt rowId)"

section \<open>Prices\<close>

datatype price_field = P_ID | P_COMPANY_ROWID | P_PRICE | P_TIMESTAMP

fun prices_fields :: "price_field \<Rightarrow> string" where
  "prices_fields P_ID = ''id''"
| "prices_fields P_COMPANY_ROWID = ''company_rowid''"
| "prices_fields P_PRICE = ''price''"
| "prices_fields P_TIMESTAMP = ''timestamp''"

definition prices_name :: string where
  "prices_name = ''prices''"

definition prices_create_cmd :: string where
  "prices_create_cmd =
     ''PRAGMA foreign_keys=on; CREATE TABLE IF NOT EXISTS '' @ prices_name @
     ''('' @ prices_fields P_ID @ '' INTEGER PRIMARY KEY AUTOINCREMENT, '' @
     prices_fields P_PRICE @ '' REAL NOT NULL, '' @
     prices_fields P_TIMESTAMP @ '' INT NOT NULL, '' @
     prices_fields P_COMPANY_ROWID @ '' INTEGER NOT NULL, '' @
     ''FOREIGN KEY('' @ prices_fields P_COMPANY_ROWID @ '') REFERENCES '' @ companies_name @
     ''('' @ companies_fields C_ID @ '')'' @ '')''"

definition Prices_Create :: "('w, 'x) sql_api_scheme \<Rightarrow> ('w, unit) prog" where
  "Prices_Create sq = RunTransaction sq prices_create_cmd"

definition Prices_Init :: "('w, unit) prog" where
  "Prices_Init = ret ()"

definition prices_add_cmd :: string where
  "prices_add_cmd =
     ''INSERT INTO '' @ prices_name @ '' ('' @ prices_fields P_COMPANY_ROWID @ '', '' @
     prices_fields P_PRICE @ '', '' @ prices_fields P_TIMESTAMP @ '') VALUES (:rowid, :price, :time)''"

definition Prices_Add ::
  "('w, 'x) sql_api_scheme \<Rightarrow> int64 \<Rightarrow> float32 \<Rightarrow> int64 \<Rightarrow> ('w, unit) prog" where
  "Prices_Add sq companyRowId pr ts =
     (let bs = [('':rowid'', SqlInt companyRowId), ('':price'', SqlReal pr), ('':time'', SqlInt ts)]
      in thenp (make_statement sq prices_add_cmd bs) (RunTransaction_stmt sq prices_add_cmd bs))"

definition RemoveAllByCompanyRowID :: "('w, 'x) sql_api_scheme \<Rightarrow> int64 \<Rightarrow> ('w, unit) prog" where
  "RemoveAllByCompanyRowID sq companyRowId =
     RemoveRows sq prices_name (prices_fields P_COMPANY_ROWID) (SqlInt companyRowId)"

section \<open>The version\<close>

datatype version_field = V_ID | V_VERSION

fun version_fields :: "version_field \<Rightarrow> string" where
  "version_fields V_ID = ''id''"
| "version_fields V_VERSION = ''version''"

definition version_name :: string where
  "version_name = ''db_version''"

definition version_create_cmd :: string where
  "version_create_cmd =
     ''CREATE TABLE IF NOT EXISTS '' @ version_name @ '' ('' @
     version_fields V_ID @ '' INTEGER PRIMARY KEY AUTOINCREMENT, '' @
     version_fields V_VERSION @ '' INT NOT NULL'' @ '')''"

definition DBVersion_Create_table :: "('w, 'x) sql_api_scheme \<Rightarrow> ('w, unit) prog" where
  "DBVersion_Create_table sq = RunTransaction sq version_create_cmd"

definition version_present_cmd :: string where
  "version_present_cmd = ''SELECT EXISTS(SELECT 1 FROM '' @ version_name @ '' LIMIT 1)''"

definition IsVersionPresent :: "('w, 'x) sql_api_scheme \<Rightarrow> ('w, bool) prog" where
  "IsVersionPresent sq = bindp (exec_and_get sq version_present_cmd) (\<lambda>v. ret (cl_int sq v \<noteq> 0))"

definition version_insert_cmd :: "size_t \<Rightarrow> string" where
  "version_insert_cmd version =
     ''INSERT INTO '' @ version_name @ '' ('' @ version_fields V_VERSION @ '')'' @
     ''VALUES ('' @ show_nat (unat version) @ '')''"

definition DBVersion_Create :: "('w, 'x) sql_api_scheme \<Rightarrow> size_t \<Rightarrow> ('w, unit) prog" where
  "DBVersion_Create sq version =
     thenp (DBVersion_Create_table sq)
       (bindp (IsVersionPresent sq)
         (\<lambda>present. if \<not> present then RunTransaction sq (version_insert_cmd version) else ret ()))"

definition version_get_cmd :: string where
  "version_get_cmd = ''SELECT '' @ version_fields V_VERSION @ '' FROM '' @ version_name"

definition DBVersion_Get :: "('w, 'x) sql_api_scheme \<Rightarrow> ('w, size_t) prog" where
  "DBVersion_Get sq = bindp (exec_and_get sq version_get_cmd) (\<lambda>v. ret (ucast (cl_uint sq v)))"

definition version_update_cmd :: "size_t \<Rightarrow> string" where
  "version_update_cmd newVersion =
     ''UPDATE '' @ version_name @ ''SET '' @ version_fields V_VERSION @ '' = '' @ show_nat (unat newVersion)"

definition UpdateDBVersion :: "('w, 'x) sql_api_scheme \<Rightarrow> size_t \<Rightarrow> ('w, unit) prog" where
  "UpdateDBVersion sq newVersion = RunTransaction sq (version_update_cmd newVersion)"

end
