(* ===== verification/Db_Manager.thy ===== *)
theory Db_Manager
  imports Db_Tables Config_Daemon
begin

text \<open>
  Models \<open>Daemon/db/db_manager.cpp\<close>: opening the database, creating its tables, and the check
  of its version. Log messages are left out. The manager keeps one reference to the
  connection and each table keeps another one.
\<close>

record DBManager =
  db_open :: bool
  tables_open :: bool

definition dbVersion :: size_t where
  "dbVersion = 1"

definition CreateAndInitAllTables :: "('w, 'x) sql_api_scheme \<Rightarrow> ('w, unit) prog" where
  "CreateAndInitAllTables sq =
     thenp (DBVersion_Create sq dbVersion)
    (thenp (ret ())
    (thenp (Companies_Create sq)
    (thenp Companies_Init
    (thenp (Prices_Create sq)
           Prices_Init))))"

definition DropAllTables :: "('w, 'x) sql_api_scheme \<Rightarrow> ('w, unit) prog" where
  "DropAllTables sq =
     thenp (Drop sq version_name) (thenp (Drop sq companies_name) (Drop sq prices_name))"

definition DropAndCreateAllTables :: "('w, 'x) sql_api_scheme \<Rightarrow> ('w, unit) prog" where
  "DropAndCreateAllTables sq = thenp (DropAllTables sq) (CreateAndInitAllTables sq)"

definition Upgrade :: "('w, 'x) sql_api_scheme \<Rightarrow> size_t \<Rightarrow> ('w, unit) prog" where
  "Upgrade sq prevVersion = UpdateDBVersion sq dbVersion"

text \<open>\<open>catch(std::exception &)\<close> catches every exception there is here.\<close>

definition UpgradeVersion :: "('w, 'x) sql_api_scheme \<Rightarrow> ('w, unit) prog" where
  "UpgradeVersion sq =
     bindp (IsExist sq version_name) (\<lambda>ex.
       if \<not> ex then DropAndCreateAllTables sq
       else
         catchp
           (bindp (DBVersion_Get sq) (\<lambda>value.
              if dbVersion < value then DropAndCreateAllTables sq
              else if dbVersion > value then Upgrade sq value
              else ret ()))
           (\<lambda>e. DropAndCreateAllTables sq))"

definition new_DBManager ::
  "('a, 'w, 'x) ptree_api_scheme \<Rightarrow> ('w, 'y) sql_api_scheme \<Rightarrow> (('a, 'w) cfg, DBManager) prog" where
  "new_DBManager api sq =
     bindp (GetDBPath api) (\<lambda>path s.
       case sq_open sq path (snd s) of
         (Some e, w) \<Rightarrow> (Throw e, (fst s, w))
       | (None, w) \<Rightarrow>
           (case thenp (CreateAndInitAllTables sq) (UpgradeVersion sq) w of
              (Ret _, w') \<Rightarrow> (Ret \<lparr>db_open = True, tables_open = True\<rparr>, (fst s, w'))
            | (Throw e, w') \<Rightarrow> (Throw e, (fst s, w'))
            | (Hang, w') \<Rightarrow> (Hang, (fst s, w'))))"

definition CloseDB :: "DBManager \<Rightarrow> DBManager" where
  "CloseDB m = (if db_open m then m\<lparr>db_open := False\<rparr> else m)"

end
