(* ===== verification/Controller.thy ===== *)
theory Controller
  imports Rpc_Service Db_Manager
begin

text \<open>
  Models \<open>Daemon/src/controller.cpp\<close>: the answer to a request, the thread that updates the
  prices, and starting and stopping. The update thread reads the atomic \<open>stopFlag\<close> once per
  round; the values it reads are the argument \<open>flags\<close>, and \<open>StillRunning\<close> means that they
  are used up. The wait at the end of a round is for zero seconds and changes nothing.
\<close>

section \<open>Requests\<close>

fun company_loop :: "(string \<Rightarrow> ('s, CompanyInfo) prog) \<Rightarrow> string list \<Rightarrow> CompanyInfo list \<Rightarrow> ('s, CompanyInfo list) prog" where
  "company_loop f [] result = ret result"
| "company_loop f (company # companies) result =
     bindp (f company) (\<lambda>info. company_loop f companies (result @ [info]))"

definition Controller_GetCompanyInfo ::
  "('a, 'w, 'x) ptree_api_scheme \<Rightarrow> ('w, 'y) curl_api_scheme \<Rightarrow> string list \<Rightarrow> string \<Rightarrow> string \<Rightarrow>
     (('a, 'w) cfg, CompanyInfo list) prog" where
  "Controller_GetCompanyInfo api cu companies timeFrame date =
     company_loop (\<lambda>company. GetHTTPCompanyInfo api cu company timeFrame date) companies []"

section \<open>The update thread\<close>

definition update_symbol ::
  "('a, 'w, 'x) ptree_api_scheme \<Rightarrow> ('w, 'y) curl_api_scheme \<Rightarrow> ('w, 'z) sql_api_scheme \<Rightarrow> string \<Rightarrow>
     (('a, 'w) cfg, unit) prog" where
  "update_symbol api cu sq symbol =
     bindp (GetHTTPCompanyInfo api cu symbol [] []) (\<lambda>info.
     thenp (on_world (Companies_Add sq (shortName info) (fullName info) (logo info)))
    (bindp (on_world (GetRowID sq (shortName info))) (\<lambda>rowId.
       forM (\<lambda>p. on_world (Prices_Add sq rowId (price p) (dateTimestamp p))) (priceList info))))"

datatype thread_end = Stopped | StillRunning

fun update_loop :: "('s, unit) prog \<Rightarrow> bool list \<Rightarrow> ('s, thread_end) prog" where
  "update_loop round [] = ret StillRunning"
| "update_loop round (stopFlag # flags) =
     (if stopFlag then ret Stopped else thenp round (update_loop round flags))"

definition UpdatePrices ::
  "('a, 'w, 'x) ptree_api_scheme \<Rightarrow> 'l lexical_api_scheme \<Rightarrow> ('w, 'y) curl_api_scheme \<Rightarrow>
     ('w, 'z) sql_api_scheme \<Rightarrow> bool list \<Rightarrow> (('a, 'w) cfg, thread_end) prog" where
  "UpdatePrices api lx cu sq flags =
     bindp (GetIEXUpdateTimeout api lx) (\<lambda>updateTimeout.
     bindp (GetIEXUpdateSymbols api) (\<lambda>symbols.
       if symbols = [] then ret Stopped
       else update_loop (forM (update_symbol api cu sq) symbols) flags))"

section \<open>Starting and stopping\<close>

text \<open>
  \<open>joinable\<close> is \<open>updatePricesThr.joinable()\<close>. A call that runs into \<open>std::terminate\<close> has no
  outcome in the program, so the outcomes here have one more case.
\<close>

record Controller =
  stopFlag :: bool
  joinable :: bool
  rpcService :: RPCService

datatype ctl_outcome = Done | Raised exn | Stuck | Terminated

fun of_outcome :: "unit outcome \<Rightarrow> ctl_outcome" where
  "of_outcome (Ret _) = Done"
| "of_outcome (Throw e) = Raised e"
| "of_outcome Hang = Stuck"

definition Controller_Start ::
  "('a, 'w, 'x) ptree_api_scheme \<Rightarrow> ('w, 'y) grpc_api_scheme \<Rightarrow> nat \<Rightarrow> Controller \<times> ('a, 'w) cfg \<Rightarrow>
     ctl_outcome \<times> Controller \<times> ('a, 'w) cfg" where
  "Controller_Start api gr this s =
     (case RPCService_Start api gr this (rpcService (fst s), snd s) of
        (Ret _, (rpc, cw)) \<Rightarrow>
          (let ctl = (fst s)\<lparr>stopFlag := False, rpcService := rpc\<rparr>
           in if joinable ctl then (Terminated, (ctl, cw))
              else (Done, (ctl\<lparr>joinable := True\<rparr>, cw)))
      | (r, (rpc, cw)) \<Rightarrow> (of_outcome r, ((fst s)\<lparr>stopFlag := False, rpcService := rpc\<rparr>, cw)))"

text \<open>\<open>thread_ends\<close>: the update thread comes to its end once it sees the flag.\<close>

definition Controller_Stop :: "bool \<Rightarrow> Controller \<Rightarrow> ctl_outcome \<times> Controller" where
  "Controller_Stop thread_ends ctl =
     (let ctl1 = ctl\<lparr>stopFlag := True\<rparr>
      in if \<not> joinable ctl1 then (Raised (SystemError ''Invalid argument''), ctl1)
         else if \<not> thread_ends then (Stuck, ctl1)
         else (Done, ctl1\<lparr>joinable := False, rpcService := RPCService_Stop (rpcService ctl1)\<rparr>))"

text \<open>The destructor is \<open>noexcept\<close>: an exception of \<open>Stop\<close> ends the process.\<close>

definition Controller_destroy :: "bool \<Rightarrow> Controller \<Rightarrow> ctl_outcome \<times> Controller" where
  "Controller_destroy thread_ends ctl =
     (case Controller_Stop thread_ends ctl of
        (Raised e, ctl') \<Rightarrow> (Terminated, ctl')
      | r \<Rightarrow> r)"

section \<open>Lemmas\<close>

lemma company_loop_keeps:
  assumes "\<And>x s r s'. ok s \<Longrightarrow> f x s = (r, s') \<Longrightarrow> ok s' \<and> r \<noteq> Hang \<and> (\<forall>e. r = Throw e \<longrightarrow> P e)"
    and "ok s" and "company_loop f companies result s = (r, s')"
  shows "ok s' \<and> r \<noteq> Hang \<and> (\<forall>e. r = Throw e \<longrightarrow> P e) \<and>
    (\<forall>infos. r = Ret infos \<longrightarrow> length infos = length result + length companies)"
  using assms(2,3)
proof (induction companies arbitrary: result s)
  case Nil
  then show ?case by auto
next
  case (Cons company companies)
  obtain r1 s1 where f: "f company s = (r1, s1)" by fastforce
  note one = assms(1) [OF Cons.prems(1) f]
  show ?case
  proof (cases r1)
    case (Ret info)
    then have "company_loop f companies (result @ [info]) s1 = (r, s')"
      using Cons.prems(2) f by (simp add: bindp_def)
    then show ?thesis using Cons.IH [of s1 "result @ [info]"] one by simp
  qed (use Cons.prems(2) f one in \<open>auto simp: bindp_def\<close>)
qed

lemma GetHTTPCompanyInfo_cases:
  "\<exists>ty. GetHTTPCompanyInfo api cu short tf d = info_from api (PerformGet cu) short ty"
  by (auto simp: GetHTTPCompanyInfo_def GetCompanyInfo_def GetCompanyInfo_frame_def GetCompanyInfo_date_def)

text \<open>The condition under which the client is used, and the controller as a service.\<close>

definition client_ok :: "('a, 'w, 'x) ptree_api_scheme \<Rightarrow> ('a, 'w) cfg \<Rightarrow> bool" where
  "client_ok api s \<longleftrightarrow> ptree_laws api \<and> parser_errors api \<and> \<not> mtx_locked (fst s)"

lemma GetHTTPCompanyInfo_outcome:
  assumes "client_ok api s" and "GetHTTPCompanyInfo api cu short tf d s = (r, s')"
  shows "client_ok api s' \<and> r \<noteq> Hang \<and> (\<forall>e. r = Throw e \<longrightarrow> escapes e)"
proof -
  obtain c w c' w' where e: "s = (c, w)" "s' = (c', w')" by fastforce
  obtain ty where "info_from api (PerformGet cu) short ty (c, w) = (r, (c', w'))"
    using GetHTTPCompanyInfo_cases [of api cu short tf d] assms(2) e by metis
  then show ?thesis
    using iex.info_outcome [of api c cu short ty w r c' w'] assms(1) e by (auto simp: client_ok_def)
qed

lemma Controller_GetCompanyInfo_outcome:
  assumes "client_ok api s" and "Controller_GetCompanyInfo api cu cs tf d s = (r, s')"
  shows "client_ok api s' \<and> r \<noteq> Hang \<and> (\<forall>e. r = Throw e \<longrightarrow> escapes e) \<and>
    (\<forall>infos. r = Ret infos \<longrightarrow> length infos = length cs)"
  using company_loop_keeps [where ok = "client_ok api" and P = escapes,
      OF GetHTTPCompanyInfo_outcome assms(1) assms(2) [unfolded Controller_GetCompanyInfo_def]]
  by simp

interpretation controller: company_service "Controller_GetCompanyInfo api cu" "client_ok api" escapes
  for api :: "('a, 'w, 'x) ptree_api_scheme" and cu :: "('w, 'y) curl_api_scheme"
proof unfold_locales
  fix s s' :: "('a, 'w) cfg" and cs tf d r
  assume "client_ok api s" "Controller_GetCompanyInfo api cu cs tf d s = (r, s')"
  then show "client_ok api s'" using Controller_GetCompanyInfo_outcome by blast
next
  fix s s' :: "('a, 'w) cfg" and cs tf d infos
  assume "client_ok api s" "Controller_GetCompanyInfo api cu cs tf d s = (Ret infos, s')"
  then show "length infos = length cs" using Controller_GetCompanyInfo_outcome by blast
next
  fix s s' :: "('a, 'w) cfg" and cs tf d
  assume "client_ok api s"
  then show "Controller_GetCompanyInfo api cu cs tf d s \<noteq> (Hang, s')"
    using Controller_GetCompanyInfo_outcome by blast
next
  fix s s' :: "('a, 'w) cfg" and cs tf d e
  assume "client_ok api s" "Controller_GetCompanyInfo api cu cs tf d s = (Throw e, s')"
  then show "escapes e" using Controller_GetCompanyInfo_outcome by blast
qed

text \<open>The rounds of the update loop.\<close>

fun repeat_prog :: "nat \<Rightarrow> ('s, unit) prog \<Rightarrow> ('s, unit) prog" where
  "repeat_prog 0 m = ret ()"
| "repeat_prog (Suc n) m = thenp m (repeat_prog n m)"

lemma update_loop_invariant:
  assumes "P s" and "update_loop round flags s = (r, s')"
    and "\<And>s r s'. P s \<Longrightarrow> round s = (r, s') \<Longrightarrow> P s'"
  shows "P s'"
  using assms(1,2)
proof (induction flags arbitrary: s)
  case Nil
  then show ?case by simp
next
  case (Cons f flags)
  obtain r1 s1 where m: "round s = (r1, s1)" by fastforce
  have p1: "P s1" by (rule assms(3) [OF Cons.prems(1) m])
  show ?case
    using Cons.prems(2) m p1 Cons.IH [OF p1]
    by (cases f; cases r1) (use Cons.prems(1) in \<open>auto simp: thenp_def bindp_def\<close>)
qed

lemma update_loop_rounds:
  "update_loop m (replicate n False @ True # rest) = thenp (repeat_prog n m) (ret Stopped)"
  by (induction n) (simp_all add: thenp_assoc thenp_ret del: ret_apply)

end
