(* ===== verification/Service_Properties.thy ===== *)
theory Service_Properties
  imports Controller Iex_Properties
begin

text \<open>
  What the RPC service and the controller promise: how a request is answered, the life cycle
  of the server and of the update thread, and what a failing request does to the thread.
\<close>

section \<open>A concrete gRPC library for the witnesses\<close>

text \<open>It keeps a log of its calls; a server's handle is the length of the log.\<close>

datatype grpc_call = Build string | Shutdown nat | Wait nat | Destroy nat

definition demo_grpc :: "grpc_call list grpc_api" where
  "demo_grpc = \<lparr>
     gr_build = (\<lambda>addr w. (Some (length w), w @ [Build addr])),
     gr_shutdown = (\<lambda>h w. w @ [Shutdown h]),
     gr_wait = (\<lambda>h w. w @ [Wait h]),
     gr_destroy = (\<lambda>h w. w @ [Destroy h])\<rparr>"

definition demo_settings :: "(rtree, grpc_call list) ptree_api" where
  "demo_settings = rtree_api (\<lambda>_ _. Inl (JsonParserError ''cannot open file'')) (\<lambda>_ _ w. (None, w))"

lemma demo_settings_laws: "ptree_laws demo_settings"
  unfolding demo_settings_def by (rule rtree_api_laws)

section \<open>Answering a request\<close>

text \<open>
  A request is answered. With the controller as its service the handler always returns a
  status: \<open>OK\<close> with a JSON text that is the print of an array with one object for each
  company asked for, in the order of the request, or \<open>CANCELLED\<close> without data; no exception
  leaves it, and it leaves the configuration usable.
\<close>

theorem request_answered:
  assumes "ptree_laws api" and "parser_errors api" and "\<not> mtx_locked c"
    and "rpc_GetCompanyInfo api (Controller_GetCompanyInfo api cu) rq (c, w) = (out, (c', w'))"
  shows "\<not> mtx_locked c' \<and>
    (out = Ret (Status_CANCELLED, None) \<or>
     (\<exists>infos j data. out = Ret (Status_OK, Some data) \<and> js_print api j = Inr data \<and>
       Controller_GetCompanyInfo api cu (rq_company rq) (request_frame rq) (request_date rq) (c, w) =
         (Ret infos, (c', w')) \<and>
       length (pt_children api j) = length (rq_company rq) \<and>
       list_all2 (\<lambda>info ch. company_json api info = Inr (snd ch)) infos (pt_children api j)))"
  using controller.answer_complete [OF assms(1) _ assms(4)] assms(1-3) by (simp add: client_ok_def)

definition demo_request :: GetCompanyRequest where
  "demo_request = \<lparr>rq_company = [''aapl''], rq_time_limit = \<lparr>tf_timeFrame = [], tf_date = []\<rparr>,
     time_limit_initialized = True\<rparr>"

theorem request_answered_witness:
  "\<exists>c' w'. rpc_GetCompanyInfo demo_web (Controller_GetCompanyInfo demo_web demo_curl) demo_request (fresh_cfg, ([], 0)) =
     (Ret (Status_CANCELLED, None), (c', w')) \<and> \<not> mtx_locked c'"
proof -
  have l: "\<not> mtx_locked fresh_cfg" by (simp add: fresh_cfg_def)
  have g: "rpc_GetCompanyInfo demo_web (Controller_GetCompanyInfo demo_web demo_curl) demo_request (fresh_cfg, ([], 0)) =
     (Ret (Status_CANCELLED, None), (fresh_cfg, ([], 0)))" by code_simp
  show ?thesis using request_answered [OF demo_web_laws demo_web_errors l g] g by blast
qed

section \<open>The life cycle of the server\<close>

text \<open>
  C36: The states of the service. Whatever the sequence of starts and stops, a started service
  has a server object whose handler is the service's own and not null, and starting it again
  changes nothing; a service that is not started holds no server that listens.
\<close>

theorem rpc_states:
  assumes "rpc_reach api gr (rpc, (c, w))"
  shows "(isStarted rpc \<longrightarrow>
       (\<exists>h svc. userHandler rpc = Some h \<and> grpcServer rpc = Some svc \<and> handler svc = h) \<and>
       (\<forall>h. RPCService_Start api gr h (rpc, (c, w)) = (Ret (), (rpc, (c, w))))) \<and>
    (\<not> isStarted rpc \<longrightarrow> (\<forall>svc. grpcServer rpc = Some svc \<longrightarrow> server svc = None)) \<and>
    \<not> isStarted (RPCService_Stop rpc)"
  using rpc_reach_inv [OF assms]
  by (auto simp: rpc_inv_def rpc_idle_def RPCService_Start_def RPCService_Stop_def split: if_splits)

theorem rpc_states_witness:
  "\<exists>rpc cw h svc. RPCService_Start demo_settings demo_grpc 1 (new_RPCService, (fresh_cfg, [])) = (Ret (), (rpc, cw)) \<and>
     userHandler rpc = Some h \<and> grpcServer rpc = Some svc \<and> handler svc = h"
proof -
  have l: "\<not> mtx_locked fresh_cfg" by (simp add: fresh_cfg_def)
  have i: "rpc_idle new_RPCService" by (simp add: rpc_idle_def new_RPCService_def)
  obtain r rpc c w where s: "RPCService_Start demo_settings demo_grpc 1 (new_RPCService, (fresh_cfg, [])) =
      (r, (rpc, (c, w)))" by (metis prod.exhaust)
  have r: "rpc_reach demo_settings demo_grpc (rpc, (c, w))" by (rule rpc_start [OF rpc_new s])
  have "r = Ret () \<and> isStarted rpc"
    using RPCService_Start_run [OF demo_settings_laws l i, of demo_grpc 1 "[]"] s by auto
  then show ?thesis using rpc_states [OF r] s by blast
qed

text \<open>
  C39: A stop does not stop the server. Starting the service, stopping it and starting it again
  builds two servers on the configured address, with no shutdown in between: the world after
  the second start is that of two builds in a row, and the service no longer knows the first
  server.
\<close>

theorem stop_leaks_server:
  assumes "ptree_laws api" and "\<not> mtx_locked c"
    and "RPCService_Start api gr h (new_RPCService, (c, w)) = (r1, (rpc1, (c1, w1)))"
    and "RPCService_Start api gr h (RPCService_Stop rpc1, (c1, w1)) = (r2, (rpc2, (c2, w2)))"
  shows "r1 = Ret () \<and> r2 = Ret () \<and> isStarted rpc2 \<and>
    w2 = snd (gr_build gr (rpc_address api c) (snd (gr_build gr (rpc_address api c) w))) \<and>
    map_option server (grpcServer rpc2) =
      Some (fst (gr_build gr (rpc_address api c) (snd (gr_build gr (rpc_address api c) w))))"
proof -
  have i: "rpc_idle new_RPCService" by (simp add: rpc_idle_def new_RPCService_def)
  note s1 = RPCService_Start_run [OF assms(1,2) i, of gr h w]
  have c1: "c1 = c" "w1 = snd (gr_build gr (rpc_address api c) w)" "r1 = Ret ()"
    using s1 assms(3) by simp_all
  note s2 = RPCService_Start_run [OF assms(1,2) Stop_idle, of gr h rpc1 w1]
  show ?thesis using s2 assms(4) c1 by auto
qed

theorem stop_leaks_server_witness:
  "\<exists>rpc1 cw1 rpc2 c2.
     RPCService_Start demo_settings demo_grpc 1 (new_RPCService, (fresh_cfg, [])) = (Ret (), (rpc1, cw1)) \<and>
     RPCService_Start demo_settings demo_grpc 1 (RPCService_Stop rpc1, cw1) =
       (Ret (), (rpc2, (c2, [Build ''0.0.0.0:50050'', Build ''0.0.0.0:50050''])))"
proof -
  have l: "\<not> mtx_locked fresh_cfg" by (simp add: fresh_cfg_def)
  obtain r1 rpc1 c1 w1 where a: "RPCService_Start demo_settings demo_grpc 1 (new_RPCService, (fresh_cfg, [])) =
      (r1, (rpc1, (c1, w1)))" by (metis prod.exhaust)
  obtain r2 rpc2 c2 w2 where b: "RPCService_Start demo_settings demo_grpc 1 (RPCService_Stop rpc1, (c1, w1)) =
      (r2, (rpc2, (c2, w2)))" by (metis prod.exhaust)
  have addr: "rpc_address demo_settings fresh_cfg = ''0.0.0.0:50050''" by code_simp
  show ?thesis
    using stop_leaks_server [OF demo_settings_laws l a b] a b by (auto simp: addr demo_grpc_def)
qed

section \<open>The life cycle of the controller\<close>

text \<open>
  C38: Stopping and destroying a controller. A started controller whose thread ends stops once:
  it is then joined, the service is stopped, and it may be started again. A controller that
  is not started, or is stopped already, does not survive a second stop: \<open>Stop\<close> throws before
  it reaches the service, and the destructor, which calls \<open>Stop\<close>, terminates the process.
  Starting a controller that runs terminates the process too.
\<close>

theorem controller_life_cycle:
  assumes "ptree_laws api" and "\<not> mtx_locked c" and "rpc_inv (rpcService ctl)"
    and "Controller_Start api gr h (ctl, (c, w)) = (out, (ctl1, cw1))"
  shows "(joinable ctl \<longrightarrow> out = Terminated) \<and>
    (\<not> joinable ctl \<longrightarrow> out = Done \<and> joinable ctl1 \<and> \<not> stopFlag ctl1 \<and> isStarted (rpcService ctl1)) \<and>
    (joinable ctl1 \<longrightarrow>
      (\<exists>ctl2. Controller_Stop True ctl1 = (Done, ctl2) \<and> \<not> joinable ctl2 \<and> \<not> isStarted (rpcService ctl2) \<and>
        (\<exists>e. Controller_Stop te ctl2 = (Raised e, ctl2)) \<and> fst (Controller_destroy te ctl2) = Terminated)) \<and>
    (\<not> joinable ctl2 \<longrightarrow> (\<exists>e. fst (Controller_Stop te ctl2) = Raised e) \<and>
      rpcService (snd (Controller_Stop te ctl2)) = rpcService ctl2 \<and>
      fst (Controller_destroy te ctl2) = Terminated)"
proof -
  obtain r rpc cw where st: "RPCService_Start api gr h (rpcService ctl, (c, w)) = (r, (rpc, cw))"
    by (metis prod.exhaust)
  have r: "r = Ret () \<and> isStarted rpc"
  proof (cases "isStarted (rpcService ctl)")
    case True
    then show ?thesis using st by (simp add: RPCService_Start_def)
  next
    case False
    then have "rpc_idle (rpcService ctl)" using assms(3) by (simp add: rpc_inv_def)
    then show ?thesis using st RPCService_Start_run [OF assms(1,2), of "rpcService ctl" gr h w] by auto
  qed
  show ?thesis
    using assms(4) st r
    by (auto simp: Controller_Start_def Let_def Controller_Stop_def Controller_destroy_def RPCService_Stop_def
        split: if_splits)
qed

definition idle_controller :: Controller where
  "idle_controller = \<lparr>stopFlag = False, joinable = False, rpcService = new_RPCService\<rparr>"

theorem controller_life_cycle_witness:
  "\<exists>ctl1 cw1. Controller_Start demo_settings demo_grpc 1 (idle_controller, (fresh_cfg, [])) = (Done, (ctl1, cw1)) \<and>
     joinable ctl1"
proof -
  have l: "\<not> mtx_locked fresh_cfg" by (simp add: fresh_cfg_def)
  have i: "rpc_inv (rpcService idle_controller)"
    by (simp add: idle_controller_def rpc_inv_def rpc_idle_def new_RPCService_def)
  obtain r ctl1 cw1 where s: "Controller_Start demo_settings demo_grpc 1 (idle_controller, (fresh_cfg, [])) =
      (r, (ctl1, cw1))" by (metis prod.exhaust)
  show ?thesis
    using controller_life_cycle [OF demo_settings_laws l i s] s by (auto simp: idle_controller_def)
qed

end
