(* ===== verification/Db_Store.thy ===== *)
theory Db_Store
  imports Db_Tables
begin

text \<open>
  The database as the update thread sees it: companies with row ids, and a list of prices.
  \<open>db_laws\<close> is what SQLite documents of the three statements the thread uses; the locale
  \<open>company_store\<close> is the interface to the tables, interpreted on the model of \<open>Add\<close>,
  \<open>GetRowID\<close> and the prices' \<open>Add\<close>.
\<close>

type_synonym company_rows = "string \<Rightarrow> (int64 \<times> string \<times> string) option"
type_synonym price_rows = "(int64 \<times> float32 \<times> int64) list"

definition quote_free :: "string \<Rightarrow> bool" where
  "quote_free s \<longleftrightarrow> CHR 0x22 \<notin> set s"

text \<open>
  \<open>INSERT OR IGNORE\<close> leaves a known company alone and gives a new one a fresh row id; \<open>INSERT\<close>
  appends a price; the query of a row id finds the company with that name, if the name does
  not end the literal it stands in. Statements that fail are undone by the transaction.
\<close>

definition db_laws ::
  "('w, 'x) sql_api_scheme \<Rightarrow> ('w \<Rightarrow> company_rows \<times> price_rows) \<Rightarrow> ('w \<Rightarrow> company_rows \<times> price_rows) \<Rightarrow> bool" where
  "db_laws sq db saved \<longleftrightarrow>
     txn_laws sq db saved \<and>
     (\<forall>u n l w w'. sq_exec_stmt sq companies_add_cmd
          [('':uuid'', SqlText u), ('':name'', SqlText n), ('':logo'', SqlText l)] w = (None, w') \<longrightarrow>
        snd (db w') = snd (db w) \<and>
        (if fst (db w) u \<noteq> None then fst (db w') = fst (db w)
         else \<exists>i. (\<forall>u' x. fst (db w) u' = Some x \<longrightarrow> fst x \<noteq> i) \<and>
              fst (db w') = (fst (db w))(u \<mapsto> (i, n, l)))) \<and>
     (\<forall>i p t w w'. sq_exec_stmt sq prices_add_cmd
          [('':rowid'', SqlInt i), ('':price'', SqlReal p), ('':time'', SqlInt t)] w = (None, w') \<longrightarrow>
        fst (db w') = fst (db w) \<and> snd (db w') = snd (db w) @ [(i, p, t)]) \<and>
     (\<forall>u w v. quote_free u \<longrightarrow> sq_exec_and_get sq (companies_rowid_cmd u) w = Inr v \<longrightarrow>
        (\<exists>n l. fst (db w) u = Some (cl_int64 sq v, n, l)))"

section \<open>The interface\<close>

locale company_store =
  fixes ok :: bool
    and db :: "'w \<Rightarrow> company_rows \<times> price_rows"
    and add :: "string \<Rightarrow> string \<Rightarrow> string \<Rightarrow> ('w, unit) prog"
    and rowid :: "string \<Rightarrow> ('w, int64) prog"
    and add_price :: "int64 \<Rightarrow> float32 \<Rightarrow> int64 \<Rightarrow> ('w, unit) prog"
  assumes add_done: "ok \<Longrightarrow> add u n l w = (Ret (), w') \<Longrightarrow>
      snd (db w') = snd (db w) \<and>
      (if fst (db w) u \<noteq> None then fst (db w') = fst (db w)
       else \<exists>i. (\<forall>u' x. fst (db w) u' = Some x \<longrightarrow> fst x \<noteq> i) \<and> fst (db w') = (fst (db w))(u \<mapsto> (i, n, l)))"
    and add_failed: "ok \<Longrightarrow> add u n l w = (r, w') \<Longrightarrow> r \<noteq> Ret () \<Longrightarrow> db w' = db w"
    and rowid_found: "ok \<Longrightarrow> quote_free u \<Longrightarrow> rowid u w = (Ret i, w') \<Longrightarrow>
      w' = w \<and> (\<exists>n l. fst (db w) u = Some (i, n, l))"
    and rowid_world: "ok \<Longrightarrow> rowid u w = (q, w') \<Longrightarrow> w' = w"
    and price_done: "ok \<Longrightarrow> add_price i p t w = (Ret (), w') \<Longrightarrow>
      fst (db w') = fst (db w) \<and> snd (db w') = snd (db w) @ [(i, p, t)]"
    and price_failed: "ok \<Longrightarrow> add_price i p t w = (r, w') \<Longrightarrow> r \<noteq> Ret () \<Longrightarrow> db w' = db w"
begin

lemma prices_loop:
  assumes "ok" and "forM (\<lambda>p. add_price i (f p) (g p)) ps w = (r, w')"
  shows "fst (db w') = fst (db w) \<and>
    (\<exists>n \<le> length ps. snd (db w') = snd (db w) @ map (\<lambda>p. (i, f p, g p)) (take n ps) \<and>
      (r = Ret () \<longrightarrow> n = length ps))"
  using assms(2)
proof (induction ps arbitrary: w)
  case Nil
  then show ?case by simp
next
  case (Cons p ps)
  obtain r1 w1 where a: "add_price i (f p) (g p) w = (r1, w1)" by fastforce
  show ?case
  proof (cases "r1 = Ret ()")
    case True
    then have rest: "forM (\<lambda>p. add_price i (f p) (g p)) ps w1 = (r, w')"
      using Cons.prems a by (simp add: thenp_Ret)
    obtain n where n: "fst (db w') = fst (db w1)" "n \<le> length ps"
      "snd (db w') = snd (db w1) @ map (\<lambda>p. (i, f p, g p)) (take n ps)" "r = Ret () \<longrightarrow> n = length ps"
      using Cons.IH [OF rest] by blast
    show ?thesis
      using n price_done [OF assms(1) a [unfolded True]] by (intro conjI exI [of _ "Suc n"]) auto
  next
    case False
    then have "r = r1 \<and> w' = w1" using Cons.prems a by (cases r1) (auto simp: thenp_def bindp_def)
    then show ?thesis using price_failed [OF assms(1) a False] False by (intro conjI exI [of _ 0]) auto
  qed
qed

end

section \<open>The tables provide it\<close>

lemma statement_done:
  assumes "thenp (make_statement sq cmd bs) (RunTransaction_stmt sq cmd bs) w = (Ret (), w')"
  obtains w1 w2 where "sq_begin sq w = (None, w1)" "sq_exec_stmt sq cmd bs w1 = (None, w2)"
    "sq_commit sq w2 = (None, w')"
proof -
  obtain r u where m: "make_statement sq cmd bs w = (r, u)" by fastforce
  then have u: "u = w" using make_statement_world(1) [of sq cmd bs w] by simp
  have run: "run_transaction sq (sq_exec_stmt sq cmd bs) w = (Ret (), w')"
    using assms m u by (cases r) (simp_all add: thenp_def bindp_def RunTransaction_stmt_def)
  show thesis
    using run that by (auto simp: run_transaction_def split: prod.splits option.splits)
qed

lemma statement_returns:
  assumes "thenp (make_statement sq cmd bs) (RunTransaction_stmt sq cmd bs) w = (r, w')"
  shows "r \<noteq> Hang"
proof -
  have "fst (thenp (make_statement sq cmd bs) (RunTransaction_stmt sq cmd bs) w) \<noteq> Hang"
    using make_statement_world [of sq cmd bs w] run_transaction_returns [of sq "sq_exec_stmt sq cmd bs"]
    by (auto simp: thenp_def bindp_def RunTransaction_stmt_def split: prod.splits outcome.splits)
  then show ?thesis using assms by simp
qed

lemma statement_failed:
  assumes "txn_laws sq db saved"
    and "thenp (make_statement sq cmd bs) (RunTransaction_stmt sq cmd bs) w = (r, w')" and "r \<noteq> Ret ()"
  shows "db w' = db w"
proof (cases r)
  case (Throw e)
  then show ?thesis using statement_atomic [OF assms(1)] assms(2) by blast
next
  case Hang
  then show ?thesis using statement_returns [OF assms(2)] by simp
qed (use assms(3) in simp)

lemma Companies_Add_done:
  assumes "db_laws sq db saved" and "Companies_Add sq u n l w = (Ret (), w')"
  shows "snd (db w') = snd (db w) \<and>
    (if fst (db w) u \<noteq> None then fst (db w') = fst (db w)
       else \<exists>i. (\<forall>u' x. fst (db w) u' = Some x \<longrightarrow> fst x \<noteq> i) \<and> fst (db w') = (fst (db w))(u \<mapsto> (i, n, l)))"
proof -
  let ?bs = "[('':uuid'', SqlText u), ('':name'', SqlText n), ('':logo'', SqlText l)]"
  have t: "txn_laws sq db saved" using assms(1) by (simp add: db_laws_def)
  obtain w1 w2 where s: "sq_begin sq w = (None, w1)" "sq_exec_stmt sq companies_add_cmd ?bs w1 = (None, w2)"
    "sq_commit sq w2 = (None, w')"
    by (rule statement_done [OF assms(2) [unfolded Companies_Add_def Let_def]])
  have d: "db w1 = db w" "db w' = db w2" using txn_begin [OF t s(1)] txn_commit [OF t s(3)] .
  have "snd (db w2) = snd (db w1) \<and>
      (if fst (db w1) u \<noteq> None then fst (db w2) = fst (db w1)
       else \<exists>i. (\<forall>u' x. fst (db w1) u' = Some x \<longrightarrow> fst x \<noteq> i) \<and> fst (db w2) = (fst (db w1))(u \<mapsto> (i, n, l)))"
    using assms(1) s(2) unfolding db_laws_def by blast
  then show ?thesis unfolding d .
qed

lemma Prices_Add_done:
  assumes "db_laws sq db saved" and "Prices_Add sq i p t w = (Ret (), w')"
  shows "fst (db w') = fst (db w) \<and> snd (db w') = snd (db w) @ [(i, p, t)]"
proof -
  let ?bs = "[('':rowid'', SqlInt i), ('':price'', SqlReal p), ('':time'', SqlInt t)]"
  have tx: "txn_laws sq db saved" using assms(1) by (simp add: db_laws_def)
  obtain w1 w2 where s: "sq_begin sq w = (None, w1)" "sq_exec_stmt sq prices_add_cmd ?bs w1 = (None, w2)"
    "sq_commit sq w2 = (None, w')"
    by (rule statement_done [OF assms(2) [unfolded Prices_Add_def Let_def]])
  have d: "db w1 = db w" "db w' = db w2" using txn_begin [OF tx s(1)] txn_commit [OF tx s(3)] .
  have "fst (db w2) = fst (db w1) \<and> snd (db w2) = snd (db w1) @ [(i, p, t)]"
    using assms(1) s(2) unfolding db_laws_def by blast
  then show ?thesis using d by simp
qed

lemma GetRowID_world: "GetRowID sq u w = (r, w') \<Longrightarrow> w' = w"
  by (auto simp: GetRowID_def bindp_def exec_and_get_def lift_sum_def split: sum.splits)

lemma GetRowID_found:
  assumes "db_laws sq db saved" and "quote_free u" and "GetRowID sq u w = (Ret i, w')"
  shows "w' = w \<and> (\<exists>n l. fst (db w) u = Some (i, n, l))"
proof -
  obtain v where v: "sq_exec_and_get sq (companies_rowid_cmd u) w = Inr v" "i = cl_int64 sq v"
    using assms(3) by (auto simp: GetRowID_def bindp_def exec_and_get_def lift_sum_def split: sum.splits)
  have "\<exists>n l. fst (db w) u = Some (cl_int64 sq v, n, l)"
    using assms(1,2) v(1) unfolding db_laws_def by blast
  then show ?thesis using v(2) GetRowID_world [OF assms(3)] by simp
qed

interpretation db: company_store "db_laws sq db saved" db "Companies_Add sq" "GetRowID sq" "Prices_Add sq"
  for sq :: "('w, 'x) sql_api_scheme" and db saved
proof unfold_locales
  fix u n l w w' r
  assume l: "db_laws sq db saved"
  then have t: "txn_laws sq db saved" by (simp add: db_laws_def)
  show "snd (db w') = snd (db w) \<and>
      (if fst (db w) u \<noteq> None then fst (db w') = fst (db w)
       else \<exists>i. (\<forall>u' x. fst (db w) u' = Some x \<longrightarrow> fst x \<noteq> i) \<and> fst (db w') = (fst (db w))(u \<mapsto> (i, n, l)))"
    if "Companies_Add sq u n l w = (Ret (), w')"
    by (rule Companies_Add_done [OF l that])
  show "db w' = db w" if "Companies_Add sq u n l w = (r, w')" "r \<noteq> Ret ()"
    by (rule statement_failed [OF t that(1) [unfolded Companies_Add_def Let_def] that(2)])
next
  fix u :: string and w w' and i :: int64
  assume "db_laws sq db saved" "quote_free u" "GetRowID sq u w = (Ret i, w')"
  then show "w' = w \<and> (\<exists>n l. fst (db w) u = Some (i, n, l))" by (rule GetRowID_found)
next
  fix u :: string and w w' and r :: "int64 outcome"
  assume "GetRowID sq u w = (r, w')"
  then show "w' = w" by (rule GetRowID_world)
next
  fix i p t w w' and r :: "unit outcome"
  assume l: "db_laws sq db saved"
  then have tx: "txn_laws sq db saved" by (simp add: db_laws_def)
  show "fst (db w') = fst (db w) \<and> snd (db w') = snd (db w) @ [(i, p, t)]"
    if "Prices_Add sq i p t w = (Ret (), w')"
    by (rule Prices_Add_done [OF l that])
  show "db w' = db w" if "Prices_Add sq i p t w = (r, w')" "r \<noteq> Ret ()"
    by (rule statement_failed [OF tx that(1) [unfolded Prices_Add_def Let_def] that(2)])
qed

end
