(* ===== verification/Demo_Db.thy ===== *)
theory Demo_Db
  imports Db_Store Iex_Properties
begin

text \<open>
  A concrete database that satisfies the contracts of \<open>Sql_Api\<close> and \<open>Db_Store\<close>, beside the
  concrete network: it knows the statements of the model by their text and nothing else. The
  witnesses use it; the model of the program does not.
\<close>

record demo_db =
  dd_companies :: "(string \<times> int64 \<times> string \<times> string) list"
  dd_prices :: price_rows
  dd_version :: "uint32 option"

definition syntax_error :: exn where
  "syntax_error = SqliteError ''syntax error''"

definition add_row :: "string \<Rightarrow> string \<Rightarrow> string \<Rightarrow> demo_db \<Rightarrow> exn option \<times> demo_db" where
  "add_row u n l d =
     (let i = of_nat (Suc (length (dd_companies d)))
      in if map_of (dd_companies d) u \<noteq> None then (None, d)
         else if i \<in> (fst \<circ> snd) ` set (dd_companies d) then (Some (SqliteError ''database is full''), d)
         else (None, d\<lparr>dd_companies := (u, i, n, l) # dd_companies d\<rparr>))"

definition demo_stmt :: "string \<Rightarrow> sql_binds \<Rightarrow> demo_db \<Rightarrow> exn option \<times> demo_db" where
  "demo_stmt cmd bs d =
     (if cmd = companies_add_cmd
      then (case map snd bs of [SqlText u, SqlText n, SqlText l] \<Rightarrow> add_row u n l d | _ \<Rightarrow> (Some syntax_error, d))
      else if cmd = prices_add_cmd
      then (case map snd bs of
              [SqlInt i, SqlReal p, SqlInt t] \<Rightarrow> (None, d\<lparr>dd_prices := dd_prices d @ [(i, p, t)]\<rparr>)
            | _ \<Rightarrow> (Some syntax_error, d))
      else (Some syntax_error, d))"

definition demo_exec :: "string \<Rightarrow> demo_db \<Rightarrow> exn option \<times> demo_db" where
  "demo_exec cmd d =
     (if cmd = ''DROP TABLE IF EXISTS '' @ version_name then (None, d\<lparr>dd_version := None\<rparr>)
      else if cmd = ''DROP TABLE IF EXISTS '' @ companies_name then (None, d\<lparr>dd_companies := []\<rparr>)
      else if cmd = ''DROP TABLE IF EXISTS '' @ prices_name then (None, d\<lparr>dd_prices := []\<rparr>)
      else if cmd \<in> {version_create_cmd, companies_create_cmd, prices_create_cmd} then (None, d)
      else if cmd = version_insert_cmd 1 then (None, d\<lparr>dd_version := Some 1\<rparr>)
      else (Some syntax_error, d))"

definition demo_get :: "string \<Rightarrow> demo_db \<Rightarrow> exn + sql_value" where
  "demo_get cmd d =
     (if cmd = version_present_cmd then Inr (SqlInt (if dd_version d = None then 0 else 1))
      else if cmd = version_get_cmd
      then (case dd_version d of None \<Rightarrow> Inl (SqliteError ''no rows'') | Some v \<Rightarrow> Inr (SqlInt (ucast v)))
      else (case List.find (\<lambda>c. companies_rowid_cmd (fst c) = cmd) (dd_companies d) of
              None \<Rightarrow> Inl (SqliteError ''no rows'') | Some c \<Rightarrow> Inr (SqlInt (fst (snd c)))))"

text \<open>The world: the network, the content of the database, and what a rollback restores.\<close>

type_synonym demo_host = "demo_net \<times> demo_db \<times> demo_db"

definition on_content :: "(demo_db \<Rightarrow> 'r \<times> demo_db) \<Rightarrow> demo_host \<Rightarrow> 'r \<times> demo_host" where
  "on_content f w = (case f (fst (snd w)) of (r, d) \<Rightarrow> (r, (fst w, d, snd (snd w))))"

fun demo_int :: "sql_value \<Rightarrow> int64" where
  "demo_int (SqlInt i) = i"
| "demo_int _ = 0"

definition demo_sql :: "demo_host sql_api" where
  "demo_sql = \<lparr>
     sq_open = (\<lambda>_ w. (None, w)),
     sq_prepare = (\<lambda>_ _. None),
     sq_bind = (\<lambda>_ _. None),
     sq_exec = (\<lambda>cmd. on_content (demo_exec cmd)),
     sq_exec_stmt = (\<lambda>cmd bs. on_content (demo_stmt cmd bs)),
     sq_exec_and_get = (\<lambda>cmd w. demo_get cmd (fst (snd w))),
     sq_rows = (\<lambda>_ _ _. ([], None)),
     sq_table_exists = (\<lambda>_ _. Inr True),
     sq_begin = (\<lambda>w. (None, (fst w, fst (snd w), fst (snd w)))),
     sq_commit = (\<lambda>w. (None, w)),
     sq_rollback = (\<lambda>w. (None, (fst w, snd (snd w), snd (snd w)))),
     cl_string = (\<lambda>v. case v of SqlText s \<Rightarrow> s | _ \<Rightarrow> []),
     cl_int = (\<lambda>v. ucast (demo_int v)),
     cl_int64 = demo_int,
     cl_uint = (\<lambda>v. ucast (demo_int v))\<rparr>"

definition db_view :: "demo_db \<Rightarrow> company_rows \<times> price_rows" where
  "db_view d = (map_of (dd_companies d), dd_prices d)"

definition demo_content :: "demo_host \<Rightarrow> company_rows \<times> price_rows" where
  "demo_content w = db_view (fst (snd w))"

definition demo_saved :: "demo_host \<Rightarrow> company_rows \<times> price_rows" where
  "demo_saved w = db_view (snd (snd w))"

lemma demo_txn_laws: "txn_laws demo_sql demo_content demo_saved"
  by (auto simp: txn_laws_def demo_sql_def demo_content_def demo_saved_def on_content_def split: prod.splits)

lemma add_row_view:
  assumes "add_row u n l d = (None, d')"
  shows "snd (db_view d') = snd (db_view d) \<and>
    (if fst (db_view d) u \<noteq> None then fst (db_view d') = fst (db_view d)
     else \<exists>i. (\<forall>u' x. fst (db_view d) u' = Some x \<longrightarrow> fst x \<noteq> i) \<and>
          fst (db_view d') = (fst (db_view d))(u \<mapsto> (i, n, l)))"
proof (cases "map_of (dd_companies d) u")
  case None
  define i :: int64 where "i = of_nat (Suc (length (dd_companies d)))"
  have a: "i \<notin> (fst \<circ> snd) ` set (dd_companies d)" "d' = d\<lparr>dd_companies := (u, i, n, l) # dd_companies d\<rparr>"
    using assms None by (auto simp: add_row_def Let_def i_def split: if_splits)
  have "fst x \<noteq> i" if "map_of (dd_companies d) u' = Some x" for u' x
  proof -
    have "(u', x) \<in> set (dd_companies d)" using that by (rule map_of_SomeD)
    then show ?thesis using a(1) by force
  qed
  then have fresh: "\<forall>u' x. fst (db_view d) u' = Some x \<longrightarrow> fst x \<noteq> i" by (simp add: db_view_def)
  have "fst (db_view d') = (fst (db_view d))(u \<mapsto> (i, n, l))" using a(2) by (simp add: db_view_def)
  with fresh have "\<exists>i. (\<forall>u' x. fst (db_view d) u' = Some x \<longrightarrow> fst x \<noteq> i) \<and>
      fst (db_view d') = (fst (db_view d))(u \<mapsto> (i, n, l))" by blast
  then show ?thesis using a(2) None by (simp add: db_view_def)
next
  case (Some x)
  then show ?thesis using assms by (simp add: add_row_def Let_def db_view_def)
qed

lemma rowid_cmd_inject: "companies_rowid_cmd u = companies_rowid_cmd u' \<longleftrightarrow> u = u'"
  by (simp add: companies_rowid_cmd_def dquoted_def)

lemma rowid_cmd_other: "companies_rowid_cmd u \<noteq> version_present_cmd" "companies_rowid_cmd u \<noteq> version_get_cmd"
  by (simp_all add: companies_rowid_cmd_def version_present_cmd_def version_get_cmd_def companies_name_def
      version_name_def)

lemma cmds_differ: "prices_add_cmd \<noteq> companies_add_cmd"
  by code_simp

lemma find_map_of:
  "List.find (\<lambda>c. fst c = u) xs = Some (k, x) \<Longrightarrow> map_of xs u = Some x"
  by (induction xs) (auto split: if_splits)

lemma demo_db_laws: "db_laws demo_sql demo_content demo_saved"
  unfolding db_laws_def
proof (intro conjI)
  show "txn_laws demo_sql demo_content demo_saved" by (rule demo_txn_laws)
next
  show "\<forall>u n l w w'. sq_exec_stmt demo_sql companies_add_cmd
      [('':uuid'', SqlText u), ('':name'', SqlText n), ('':logo'', SqlText l)] w = (None, w') \<longrightarrow>
    snd (demo_content w') = snd (demo_content w) \<and>
    (if fst (demo_content w) u \<noteq> None then fst (demo_content w') = fst (demo_content w)
     else \<exists>i. (\<forall>u' x. fst (demo_content w) u' = Some x \<longrightarrow> fst x \<noteq> i) \<and>
          fst (demo_content w') = (fst (demo_content w))(u \<mapsto> (i, n, l)))"
  proof (intro allI impI)
    fix u n l w w'
    assume "sq_exec_stmt demo_sql companies_add_cmd
      [('':uuid'', SqlText u), ('':name'', SqlText n), ('':logo'', SqlText l)] w = (None, w')"
    then have "add_row u n l (fst (snd w)) = (None, fst (snd w'))"
      by (auto simp: demo_sql_def on_content_def demo_stmt_def split: prod.splits)
    then show "snd (demo_content w') = snd (demo_content w) \<and>
      (if fst (demo_content w) u \<noteq> None then fst (demo_content w') = fst (demo_content w)
       else \<exists>i. (\<forall>u' x. fst (demo_content w) u' = Some x \<longrightarrow> fst x \<noteq> i) \<and>
            fst (demo_content w') = (fst (demo_content w))(u \<mapsto> (i, n, l)))"
      unfolding demo_content_def by (rule add_row_view)
  qed
next
  show "\<forall>i p t w w'. sq_exec_stmt demo_sql prices_add_cmd
      [('':rowid'', SqlInt i), ('':price'', SqlReal p), ('':time'', SqlInt t)] w = (None, w') \<longrightarrow>
    fst (demo_content w') = fst (demo_content w) \<and>
    snd (demo_content w') = snd (demo_content w) @ [(i, p, t)]"
    using cmds_differ
    by (auto simp: demo_sql_def on_content_def demo_stmt_def demo_content_def db_view_def split: prod.splits)
next
  show "\<forall>u w v. quote_free u \<longrightarrow> sq_exec_and_get demo_sql (companies_rowid_cmd u) w = Inr v \<longrightarrow>
    (\<exists>n l. fst (demo_content w) u = Some (cl_int64 demo_sql v, n, l))"
  proof (intro allI impI)
    fix u w v
    assume "sq_exec_and_get demo_sql (companies_rowid_cmd u) w = Inr v"
    then obtain c where "List.find (\<lambda>c. fst c = u) (dd_companies (fst (snd w))) = Some c"
      "v = SqlInt (fst (snd c))"
      by (auto simp: demo_sql_def demo_get_def rowid_cmd_other rowid_cmd_inject split: option.splits)
    then show "\<exists>n l. fst (demo_content w) u = Some (cl_int64 demo_sql v, n, l)"
      using find_map_of [of u "dd_companies (fst (snd w))" "fst c" "snd c"]
      by (cases c) (auto simp: demo_content_def db_view_def demo_sql_def)
  qed
qed

section \<open>The network beside it\<close>

definition on_net :: "(demo_net \<Rightarrow> 'r \<times> demo_net) \<Rightarrow> demo_host \<Rightarrow> 'r \<times> demo_host" where
  "on_net f w = (case f (fst w) of (r, n) \<Rightarrow> (r, (n, snd w)))"

definition host_curl :: "demo_host curl_api" where
  "host_curl = \<lparr>
     cu_easy_init = on_net (cu_easy_init demo_curl),
     cu_setopt = (\<lambda>opt. on_net (cu_setopt demo_curl opt)),
     cu_perform = (\<lambda>opts td. on_net (cu_perform demo_curl opts td)),
     cu_response_code = on_net (cu_response_code demo_curl),
     cu_strerror = cu_strerror demo_curl\<rparr>"

text \<open>The property tree beside it, with a parser that refuses quotes in values.\<close>

definition quote_safe :: "rtree \<Rightarrow> bool" where
  "quote_safe t \<longleftrightarrow> list_all (\<lambda>c. quote_free (rt_data (snd c))) (rt_children t)"

definition safe_parse :: "string \<Rightarrow> exn + rtree" where
  "safe_parse s =
     (case demo_parse s of
        Inl e \<Rightarrow> Inl e
      | Inr t \<Rightarrow> if quote_safe t then Inr t else Inl (JsonParserError ''quote''))"

definition host_tree :: "(rtree, demo_host) ptree_api" where
  "host_tree =
     (rtree_api (\<lambda>_ _. Inl (JsonParserError ''cannot open file'')) (\<lambda>_ _ w. (None, w)))\<lparr>js_parse := safe_parse\<rparr>"

lemma laws_js_parse: "ptree_laws api \<Longrightarrow> ptree_laws (api\<lparr>js_parse := f\<rparr>)"
proof -
  have c: "section_count (api\<lparr>js_parse := f\<rparr>) = section_count api"
    by (intro ext) (simp add: section_count_def split: option.split)
  have g: "pt_get_opt (api\<lparr>js_parse := f\<rparr>) = pt_get_opt api"
    by (intro ext) (simp add: pt_get_opt_def)
  have p: "put_laws (api\<lparr>js_parse := f\<rparr>) = put_laws api"
    unfolding put_laws_def c by (simp cong: option.case_cong)
  have a: "add_child_laws (api\<lparr>js_parse := f\<rparr>) = add_child_laws api"
    unfolding add_child_laws_def c by (simp cong: option.case_cong)
  assume "ptree_laws api"
  then show ?thesis unfolding ptree_laws_def p a g by simp
qed

lemma host_tree_laws: "ptree_laws host_tree"
  unfolding host_tree_def by (rule laws_js_parse [OF rtree_api_laws])

lemma host_tree_errors: "parser_errors host_tree"
  by (auto simp: parser_errors_def host_tree_def safe_parse_def demo_parse_def split: sum.splits if_splits)

lemma host_tree_names:
  assumes "ParseCompanyInfo host_tree body = Inr info"
  shows "quote_free (shortName info)"
proof -
  obtain t where t: "js_parse host_tree body = Inr t" "pt_get host_tree t ''symbol'' = Inr (shortName info)"
    using assms by (auto simp: ParseCompanyInfo_def bind_sum_Inr)
  have q: "quote_safe t" using t(1) by (auto simp: host_tree_def safe_parse_def split: sum.splits if_splits)
  have "split_dots ''symbol'' = [''symbol'']" by code_simp
  then obtain c where c: "map_of (rt_children t) ''symbol'' = Some c" "rt_data c = shortName info"
    using t(2) by (auto simp: pt_get_def host_tree_def rtree_api_def split: option.splits)
  have "(''symbol'', c) \<in> set (rt_children t)" using c(1) by (rule map_of_SomeD)
  then show ?thesis using q c(2) by (auto simp: quote_safe_def list_all_iff)
qed

definition empty_db :: demo_db where
  "empty_db = \<lparr>dd_companies = [], dd_prices = [], dd_version = Some 1\<rparr>"

end
