(* ===== verification/Update_Properties.thy ===== *)
theory Update_Properties
  imports Db_Properties Service_Properties
begin

text \<open>
  The update thread and the database: what one update stores, the invariant of the whole
  thread, and what failing requests do to it. The network and the database share the world,
  and \<open>net_frame\<close> says that libcurl does not write to the database.
\<close>

section \<open>The network leaves the database alone\<close>

definition net_frame :: "('w, 'x) curl_api_scheme \<Rightarrow> ('w \<Rightarrow> 'd) \<Rightarrow> bool" where
  "net_frame cu db \<longleftrightarrow>
     (\<forall>w. db (snd (cu_easy_init cu w)) = db w) \<and>
     (\<forall>opt w. db (snd (cu_setopt cu opt w)) = db w) \<and>
     (\<forall>opts td w. db (snd (cu_perform cu opts td w)) = db w) \<and>
     (\<forall>w. db (snd (cu_response_code cu w)) = db w)"

lemma calls_frame:
  assumes "\<And>f w. f \<in> set fs \<Longrightarrow> db (snd (f w)) = db w"
  shows "db (snd (calls_ok fs w)) = db w"
  using assms
proof (induction fs arbitrary: w)
  case Nil
  then show ?case by simp
next
  case (Cons f fs)
  obtain b w1 where f: "f w = (b, w1)" by fastforce
  have "db w1 = db w" using Cons.prems [of f w] f by simp
  moreover have "db (snd (calls_ok fs w1)) = db w1"
    by (rule Cons.IH) (use Cons.prems in simp)
  ultimately show ?case using f by (simp split: bool.split)
qed

lemma PerformGet_frame:
  assumes "net_frame cu db"
  shows "db (snd (PerformGet cu url w)) = db w"
proof -
  let ?calls = "calls_ok (cu_easy_init cu # map (cu_setopt cu) (get_options url)) w"
  have calls: "db (snd ?calls) = db w"
    by (rule calls_frame) (use assms in \<open>auto simp: net_frame_def\<close>)
  have perf: "db w' = db w0" if "cu_perform cu opts td w0 = (x, w')" for opts td w0 x w'
    using assms that unfolding net_frame_def by (metis snd_conv)
  have code: "db w' = db w0" if "cu_response_code cu w0 = (x, w')" for w0 x w'
    using assms that unfolding net_frame_def by (metis snd_conv)
  show ?thesis
  proof (cases rule: PerformGet_cases [of cu url w])
    case (no_handle w')
    then show ?thesis using calls by simp
  next
    case (failed w0 evs cd w')
    then show ?thesis using calls perf [OF failed(2)] by simp
  next
    case (no_status w0 evs w1 msg w')
    then show ?thesis using calls perf [OF no_status(2)] code [OF no_status(3)] by simp
  next
    case (finished w0 evs w1 cd w')
    then show ?thesis using calls perf [OF finished(2)] code [OF finished(3)] by simp
  qed
qed

section \<open>What a request returns\<close>

definition names_ok :: "('a, 'w, 'x) ptree_api_scheme \<Rightarrow> bool" where
  "names_ok api \<longleftrightarrow> (\<forall>body info. ParseCompanyInfo api body = Inr info \<longrightarrow> quote_free (shortName info))"

lemma catch_http_cases:
  assumes "catch_http d m s = (r, s')"
  shows "m s = (r, s') \<or> (\<exists>e. m s = (Throw e, s') \<and> is_HTTPException e \<and> r = Ret d)"
  using assms by (auto simp: catch_http_def catchp_def split: prod.splits outcome.splits if_splits)

lemma logo_frame:
  assumes "net_frame cu db" and "ptree_laws api" and "\<not> mtx_locked c"
    and "logo_from api (PerformGet cu) short (c, w) = (r, (c', w'))"
  shows "db w' = db w \<and> c' = c"
proof -
  obtain r0 w0 where f: "PerformGet cu (iex_url api c short ''logo'') w = (r0, w0)" by fastforce
  have d: "db w0 = db w" using PerformGet_frame [OF assms(1), of _ w] f by (metis snd_conv)
  show ?thesis
    using assms(4) catch_http_cases [OF assms(4) [unfolded logo_from_def]] f d
    by (cases r0) (auto simp: bindp_def CreateUrl_run [OF assms(2,3)] on_world_apply lift_sum_def split: sum.splits)
qed

lemma info_frame:
  assumes "net_frame cu db" and "ptree_laws api" and "\<not> mtx_locked c"
    and "info_from api (PerformGet cu) short ty (c, w) = (r, (c', w'))"
  shows "db w' = db w \<and> c' = c \<and>
    (\<forall>info. r = Ret info \<longrightarrow> info = empty_info \<or>
      (\<exists>body i l. ParseCompanyInfo api body = Inr i \<and> info = i\<lparr>logo := l\<rparr>))"
proof -
  obtain r0 w0 where f: "PerformGet cu (iex_url api c short ty) w = (r0, w0)" by fastforce
  have d: "db w0 = db w" using PerformGet_frame [OF assms(1), of _ w] f by (metis snd_conv)
  note cs = catch_http_cases [OF assms(4) [unfolded info_from_def]]
  show ?thesis
  proof (cases r0)
    case (Ret body)
    show ?thesis
    proof (cases "ParseCompanyInfo api body")
      case (Inl e)
      then show ?thesis
        using cs f d Ret by (auto simp: bindp_def CreateUrl_run [OF assms(2,3)] on_world_apply)
    next
      case (Inr i)
      obtain r2 c2 w2 where l: "logo_from api (PerformGet cu) short (c, w0) = (r2, (c2, w2))"
        by (metis prod.exhaust)
      show ?thesis
        using cs f d Ret Inr l logo_frame [OF assms(1-3) l]
        by (cases r2) (auto simp: bindp_def CreateUrl_run [OF assms(2,3)] on_world_apply)
    qed
  next
    case (Throw e)
    then show ?thesis
      using cs f d by (auto simp: bindp_def CreateUrl_run [OF assms(2,3)] on_world_apply)
  next
    case Hang
    then show ?thesis
      using cs f d by (auto simp: bindp_def CreateUrl_run [OF assms(2,3)] on_world_apply)
  qed
qed

lemma request_frame:
  assumes "net_frame cu db" and "ptree_laws api" and "\<not> mtx_locked c" and "names_ok api"
    and "GetHTTPCompanyInfo api cu short tf d (c, w) = (r, (c', w'))"
  shows "db w' = db w \<and> c' = c \<and> (\<forall>info. r = Ret info \<longrightarrow> quote_free (shortName info))"
proof -
  obtain ty where "info_from api (PerformGet cu) short ty (c, w) = (r, (c', w'))"
    using GetHTTPCompanyInfo_cases [of api cu short tf d] assms(5) by metis
  then show ?thesis
    using info_frame [OF assms(1-3)] assms(4)
    by (fastforce simp: names_ok_def empty_info_def quote_free_def)
qed

section \<open>The invariant of the database\<close>

definition refs_ok :: "company_rows \<times> price_rows \<Rightarrow> bool" where
  "refs_ok d \<longleftrightarrow> (\<forall>x \<in> set (snd d). \<exists>u n l. fst d u = Some (fst x, n, l))"

definition ids_unique :: "company_rows \<times> price_rows \<Rightarrow> bool" where
  "ids_unique d \<longleftrightarrow> (\<forall>u u' x x'. fst d u = Some x \<and> fst d u' = Some x' \<and> fst x = fst x' \<longrightarrow> u = u')"

definition grows :: "company_rows \<times> price_rows \<Rightarrow> company_rows \<times> price_rows \<Rightarrow> bool" where
  "grows d d' \<longleftrightarrow> (\<forall>u x. fst d u = Some x \<longrightarrow> fst d' u = Some x) \<and> (\<exists>ps. snd d' = snd d @ ps)"

lemma grows_refl: "grows d d"
  by (simp add: grows_def)

lemma grows_trans: "grows a b \<Longrightarrow> grows b c \<Longrightarrow> grows a c"
  by (auto simp: grows_def)

definition db_good :: "company_rows \<times> price_rows \<Rightarrow> bool" where
  "db_good d \<longleftrightarrow> refs_ok d \<and> ids_unique d"

lemma add_good:
  assumes "db_good d" and "snd d' = snd d"
    and "if fst d u \<noteq> None then fst d' = fst d
      else \<exists>i. (\<forall>u' x. fst d u' = Some x \<longrightarrow> fst x \<noteq> i) \<and> fst d' = (fst d)(u \<mapsto> (i, n, l))"
  shows "db_good d' \<and> grows d d'"
proof (cases "fst d u")
  case None
  have "\<exists>i. (\<forall>u' x. fst d u' = Some x \<longrightarrow> fst x \<noteq> i) \<and> fst d' = (fst d)(u \<mapsto> (i, n, l))"
    using assms(3) by (simp only: None simp_thms if_False)
  then obtain i where i: "\<And>u' x. fst d u' = Some x \<Longrightarrow> fst x \<noteq> i" "fst d' = (fst d)(u \<mapsto> (i, n, l))"
    by blast
  have refs: "refs_ok d'"
    unfolding refs_ok_def assms(2)
  proof
    fix x
    assume "x \<in> set (snd d)"
    then obtain v m k where v: "fst d v = Some (fst x, m, k)" using assms(1) by (auto simp: db_good_def refs_ok_def)
    then have "v \<noteq> u" using None by auto
    then show "\<exists>u n l. fst d' u = Some (fst x, n, l)" using v i(2) by auto
  qed
  have ids: "ids_unique d'"
    using assms(1) i(1) unfolding db_good_def ids_unique_def i(2)
    by (auto split: if_splits) (metis fst_conv)+
  show ?thesis using refs ids None i(2) assms(2) by (auto simp: db_good_def grows_def)
next
  case (Some x)
  then have "d' = d" using assms(2,3) by (simp add: prod_eq_iff)
  then show ?thesis using assms(1) grows_refl by simp
qed

lemma prices_good:
  assumes "db_good d" and "fst d' = fst d" and "snd d' = snd d @ ps"
    and "\<And>x. x \<in> set ps \<Longrightarrow> fst x = i" and "fst d u = Some (i, n, l)"
  shows "db_good d' \<and> grows d d'"
proof -
  have "refs_ok d'"
    unfolding refs_ok_def assms(2,3)
  proof
    fix x
    assume "x \<in> set (snd d @ ps)"
    then consider "x \<in> set (snd d)" | "fst x = i" using assms(4) [of x] by auto
    then show "\<exists>u n l. fst d u = Some (fst x, n, l)"
      by cases (use assms(1,5) in \<open>auto simp: db_good_def refs_ok_def\<close>)
  qed
  then show ?thesis using assms(1-3) by (auto simp: db_good_def ids_unique_def grows_def)
qed

section \<open>One symbol\<close>

lemma forM_on_world: "forM (\<lambda>p. on_world (f p)) ps (c, w) = (fst (forM f ps w), (c, snd (forM f ps w)))"
proof (induction ps arbitrary: w)
  case Nil
  then show ?case by simp
next
  case (Cons p ps)
  show ?case
    by (cases "f p w"; cases "fst (f p w)")
      (auto simp: thenp_def bindp_def on_world_apply Cons.IH)
qed

text \<open>What is assumed of the libraries and of the service, for one connection.\<close>

definition host_ok ::
  "('a, 'w, 'x) ptree_api_scheme \<Rightarrow> ('w, 'y) curl_api_scheme \<Rightarrow> ('w, 'z) sql_api_scheme \<Rightarrow>
     ('w \<Rightarrow> company_rows \<times> price_rows) \<Rightarrow> ('w \<Rightarrow> company_rows \<times> price_rows) \<Rightarrow> bool" where
  "host_ok api cu sq db saved \<longleftrightarrow>
     ptree_laws api \<and> names_ok api \<and> net_frame cu db \<and> db_laws sq db saved"

lemma forM_on_world_fun: "forM (\<lambda>p. on_world (f p)) ps = on_world (forM f ps)"
proof
  fix s
  show "forM (\<lambda>p. on_world (f p)) ps s = on_world (forM f ps) s"
    by (cases s) (simp add: forM_on_world on_world_apply)
qed

lemma bind_on_world: "bindp (on_world p) (\<lambda>a. on_world (f a)) = on_world (bindp p f)"
  by (rule ext) (auto simp: bindp_def on_world_def split: prod.split outcome.split)

definition store_prices :: "('w, 'z) sql_api_scheme \<Rightarrow> CompanyInfo \<Rightarrow> ('w, unit) prog" where
  "store_prices sq info =
     bindp (GetRowID sq (shortName info)) (\<lambda>i. forM (\<lambda>p. Prices_Add sq i (price p) (dateTimestamp p)) (priceList info))"

lemma update_symbol_on_world:
  "update_symbol api cu sq symbol =
     bindp (GetHTTPCompanyInfo api cu symbol [] []) (\<lambda>info.
       on_world (thenp (Companies_Add sq (shortName info) (fullName info) (logo info)) (store_prices sq info)))"
  by (simp add: update_symbol_def store_prices_def thenp_def forM_on_world_fun bind_on_world)

text \<open>The row and the prices of a company that has been added.\<close>

lemma store_prices_effect:
  assumes "db_laws sq db saved" and "quote_free (shortName info)" and "db_good (db w)"
    and "store_prices sq info w = (r, w')"
  shows "db_good (db w') \<and> grows (db w) (db w') \<and>
    (r = Ret () \<longrightarrow> (\<exists>i n l. fst (db w') (shortName info) = Some (i, n, l) \<and>
       snd (db w') = snd (db w) @ map (\<lambda>p. (i, price p, dateTimestamp p)) (priceList info)))"
proof -
  obtain r2 w2 where row: "GetRowID sq (shortName info) w = (r2, w2)" by fastforce
  have w2: "w2 = w" by (rule db.rowid_world [OF assms(1) row])
  note run = assms(4) [unfolded store_prices_def bindp_def row w2]
  show ?thesis
  proof (cases r2)
    case (Ret i)
    obtain n l where idx: "fst (db w) (shortName info) = Some (i, n, l)"
      using db.rowid_found [OF assms(1,2) row [unfolded Ret w2]] by blast
    have ps: "forM (\<lambda>p. Prices_Add sq i (price p) (dateTimestamp p)) (priceList info) w = (r, w')"
      using run Ret by simp
    obtain m where m: "fst (db w') = fst (db w)"
      "snd (db w') = snd (db w) @ map (\<lambda>p. (i, price p, dateTimestamp p)) (take m (priceList info))"
      "r = Ret () \<longrightarrow> m = length (priceList info)"
      using db.prices_loop [OF assms(1) ps] by blast
    have "db_good (db w') \<and> grows (db w) (db w')"
      by (rule prices_good [OF assms(3) m(1,2) _ idx]) auto
    then show ?thesis using m idx by auto
  qed (use run assms(3) grows_refl in auto)
qed

lemma update_symbol_effect:
  assumes "host_ok api cu sq db saved" and "\<not> mtx_locked c" and "db_good (db w)"
    and "update_symbol api cu sq symbol (c, w) = (r, (c', w'))"
  shows "c' = c \<and> db_good (db w') \<and> grows (db w) (db w') \<and>
    (r = Ret () \<longrightarrow>
      (\<exists>info w1 i n l. GetHTTPCompanyInfo api cu symbol [] [] (c, w) = (Ret info, (c, w1)) \<and>
        fst (db w') (shortName info) = Some (i, n, l) \<and>
        snd (db w') = snd (db w) @ map (\<lambda>p. (i, price p, dateTimestamp p)) (priceList info)))"
proof -
  have h: "ptree_laws api" "names_ok api" "net_frame cu db" "db_laws sq db saved"
    using assms(1) by (simp_all add: host_ok_def)
  obtain r0 c0 w0 where req: "GetHTTPCompanyInfo api cu symbol [] [] (c, w) = (r0, (c0, w0))"
    by (metis prod.exhaust)
  note rf = request_frame [OF h(3,1) assms(2) h(2) req]
  note run = assms(4) [unfolded update_symbol_on_world bindp_def req]
  show ?thesis
  proof (cases r0)
    case (Ret info)
    have q: "quote_free (shortName info)" "c0 = c" "db w0 = db w" using rf Ret by simp_all
    obtain r1 w1 where add: "Companies_Add sq (shortName info) (fullName info) (logo info) w0 = (r1, w1)"
      by fastforce
    show ?thesis
    proof (cases "r1 = Ret ()")
      case True
      note add = add [unfolded True]
      have g1: "db_good (db w1)" "grows (db w) (db w1)"
        using db.add_done [OF h(4) add, unfolded q(3)] add_good [OF assms(3)] by blast+
      have st: "store_prices sq info w1 = (r, w')" "c' = c"
        using run Ret q(2) add by (simp_all add: on_world_apply thenp_def bindp_def prod_eq_iff)
      note e = store_prices_effect [OF h(4) q(1) g1(1) st(1)]
      have "snd (db w1) = snd (db w)" using db.add_done [OF h(4) add] q(3) by simp
      moreover have "grows (db w) (db w')" using grows_trans [OF g1(2)] e by blast
      ultimately show ?thesis using e st(2) req Ret q(2) by auto
    next
      case False
      then have "db w1 = db w" using db.add_failed [OF h(4) add False] q(3) by simp
      then show ?thesis
        using run Ret add q(2) False assms(3) grows_refl
        by (cases r1) (auto simp: thenp_def bindp_def on_world_apply)
    qed
  qed (use run assms(3) rf grows_refl in auto)
qed

section \<open>The thread\<close>


text \<open>The world of the witnesses, with one page for the quote and one for the logo.\<close>

definition served :: demo_host where
  "served = (([(CURLE_OK, 200, quote_page), (CURLE_OK, 200, logo_page)], 0), empty_db, empty_db)"

lemma host_frame: "net_frame host_curl demo_content"
  by (auto simp: net_frame_def host_curl_def on_net_def demo_content_def split: prod.split)

lemma demo_host_ok: "host_ok host_tree host_curl demo_sql demo_content demo_saved"
  using host_tree_laws host_tree_names host_frame demo_db_laws by (auto simp: host_ok_def names_ok_def)

lemma served_good: "db_good (demo_content served)"
  by (simp add: db_good_def refs_ok_def ids_unique_def demo_content_def served_def db_view_def empty_db_def)


definition thread_inv ::
  "('w \<Rightarrow> company_rows \<times> price_rows) \<Rightarrow> 'w \<Rightarrow> ('a, 'w) cfg \<Rightarrow> bool" where
  "thread_inv db w0 s \<longleftrightarrow>
     \<not> mtx_locked (fst s) \<and> db_good (db (snd s)) \<and> grows (db w0) (db (snd s))"

lemma symbol_keeps:
  assumes "host_ok api cu sq db saved" and "thread_inv db w0 s" and "update_symbol api cu sq x s = (r, s')"
  shows "thread_inv db w0 s'"
proof -
  obtain c w c' w' where e: "s = (c, w)" "s' = (c', w')" by fastforce
  have p: "\<not> mtx_locked c" "db_good (db w)" "update_symbol api cu sq x (c, w) = (r, (c', w'))"
    using assms(2,3) e by (simp_all add: thread_inv_def)
  have "c' = c \<and> db_good (db w') \<and> grows (db w) (db w')"
    using update_symbol_effect [OF assms(1) p] by blast
  moreover from this have "grows (db w0) (db w')"
    using grows_trans [of "db w0" "db w" "db w'"] assms(2) e by (simp add: thread_inv_def)
  ultimately show ?thesis using assms(2) e by (simp add: thread_inv_def)
qed

lemma round_keeps:
  assumes "host_ok api cu sq db saved" and "thread_inv db w0 s"
    and "forM (update_symbol api cu sq) xs s = (r, s')"
  shows "thread_inv db w0 s'"
  by (rule forM_invariant [where P = "thread_inv db w0", OF assms(2,3)]) (rule symbol_keeps [OF assms(1)])

lemma loop_keeps:
  assumes "host_ok api cu sq db saved" and "thread_inv db w0 s"
    and "update_loop (forM (update_symbol api cu sq) xs) flags s = (r, s')"
  shows "thread_inv db w0 s'"
  by (rule update_loop_invariant [where P = "thread_inv db w0", OF assms(2,3)]) (rule round_keeps [OF assms(1)])

lemma symbols_world:
  assumes "\<not> mtx_locked c" and "GetIEXUpdateSymbols api (c, w) = (r, (c', w'))"
  shows "w' = w \<and> (\<forall>xs. r = Ret xs \<longrightarrow> c' = c)"
  using assms GetArray_found [OF assms(1), of api price_key] GetArray_missing [OF assms(1), of api price_key]
  by (cases "pt_get_child api (root c) price_key") (auto simp: getters)





text \<open>
  The rounds of the update thread. A thread that reads the flag as unset \<open>n\<close> times and then
  as set makes exactly \<open>n\<close> rounds over all symbols, one after the other, and ends; it starts
  no round after it has seen the flag, and with no symbols it ends at once.
\<close>

theorem update_rounds:
  assumes "GetIEXUpdateTimeout api lx s = (Ret t, s1)" and "GetIEXUpdateSymbols api s1 = (Ret symbols, s2)"
  shows "UpdatePrices api lx cu sq (replicate n False @ True # rest) s =
    (if symbols = [] then (Ret Stopped, s2)
     else thenp (repeat_prog n (forM (update_symbol api cu sq) symbols)) (ret Stopped) s2)"
  using assms by (simp add: UpdatePrices_def bindp_def update_loop_rounds del: ret_apply) simp

theorem update_rounds_witness:
  "UpdatePrices host_tree demo_lex host_curl demo_sql [True] (user_cfg, served) = (Ret Stopped, (user_cfg, served))"
proof -
  have t: "GetIEXUpdateTimeout host_tree demo_lex (user_cfg, served) = (Ret 3, (user_cfg, served))"
    by (simp add: served_def) code_simp
  have g: "GetIEXUpdateSymbols host_tree (user_cfg, served) = (Ret [''aapl'', ''fb''], (user_cfg, served))"
    by (simp add: served_def) code_simp
  show ?thesis using update_rounds [OF t g, of host_curl demo_sql 0 "[]"] by (simp add: thenp_ret)
qed

end
