(* ===== verification/Supervisor.thy ===== *)
theory Supervisor
  imports Controller
begin

text \<open>
  Models \<open>Daemon/src/main.cpp\<close> in its release build: the process that forks the worker and
  starts it again, as a step relation over what the operating system reports, and the worker
  with its signal mask and the controller it owns. The system log
  and the pid file are in \<open>Main_Process\<close>.
\<close>

section \<open>Signals and statuses\<close>

datatype sig = SIGQUIT | SIGINT | SIGTERM | SIGCHLD | SIGABRT | SIGFPE | SIGSEGV | SIGBUS | SIGKILL | SIGHUP

fun sig_number :: "sig \<Rightarrow> nat" where
  "sig_number SIGHUP = 1"
| "sig_number SIGINT = 2"
| "sig_number SIGQUIT = 3"
| "sig_number SIGABRT = 6"
| "sig_number SIGBUS = 7"
| "sig_number SIGFPE = 8"
| "sig_number SIGKILL = 9"
| "sig_number SIGSEGV = 11"
| "sig_number SIGTERM = 15"
| "sig_number SIGCHLD = 17"

datatype eDaemonStatus = NeedToWork | NeedToTerminate

fun status_code :: "eDaemonStatus \<Rightarrow> cint" where
  "status_code NeedToWork = 0"
| "status_code NeedToTerminate = 1"

text \<open>How a process ends, the status word \<open>wait\<close> stores for it, and \<open>WEXITSTATUS\<close>.\<close>

datatype proc_end = Exited cint | Killed sig

fun wait_status :: "proc_end \<Rightarrow> cint" where
  "wait_status (Exited code) = push_bit 8 (and code 0xFF)"
| "wait_status (Killed s) = of_nat (sig_number s)"

definition WEXITSTATUS :: "cint \<Rightarrow> cint" where
  "WEXITSTATUS status = drop_bit 8 (and status 0xFF00)"

section \<open>The supervisor\<close>

text \<open>The set the supervisor blocks and waits for.\<close>

definition proc_sigset :: "sig list" where
  "proc_sigset = [SIGQUIT, SIGINT, SIGTERM, SIGCHLD, SIGABRT]"

text \<open>
  At the top of the loop, in \<open>sigwaitinfo\<close> with the worker's process id, and after the loop
  with the status it returns. \<open>children\<close> are the workers that run, and \<open>signalled\<close> those the
  supervisor has sent a signal; the program itself keeps only the last process id.
\<close>

datatype sup_pc = LoopTop | Waiting nat | Finished cint

record Sup =
  pc :: sup_pc
  need_start :: bool
  children :: "nat list"
  signalled :: "(nat \<times> sig) list"

definition PeakworkDaemonProc_init :: Sup where
  "PeakworkDaemonProc_init = \<lparr>pc = LoopTop, need_start = True, children = [], signalled = []\<rparr>"

text \<open>What the operating system answers: a fork, or a signal together with the end of a child.\<close>

datatype sup_event =
    ForkFails
  | Forked nat
  | ChildEnds proc_end
  | OtherSignal sig

text \<open>One event handled by the loop; \<open>None\<close> when the event cannot occur there.\<close>

definition sup_next :: "Sup \<Rightarrow> sup_event \<Rightarrow> Sup option" where
  "sup_next s ev =
     (case (pc s, ev) of
        (LoopTop, ForkFails) \<Rightarrow> Some (s\<lparr>need_start := True\<rparr>)
      | (LoopTop, Forked pid) \<Rightarrow>
          if pid \<noteq> 0 \<and> pid \<notin> set (children s)
          then Some (s\<lparr>pc := Waiting pid, need_start := True, children := pid # children s\<rparr>)
          else None
      | (Waiting pid, ChildEnds e) \<Rightarrow>
          (let status = WEXITSTATUS (wait_status e); s' = s\<lparr>children := remove1 pid (children s)\<rparr>
           in if status = status_code NeedToTerminate then Some (s'\<lparr>pc := Finished status\<rparr>)
              else Some (s'\<lparr>pc := LoopTop\<rparr>))
      | (Waiting pid, OtherSignal sg) \<Rightarrow>
          if sg \<in> set proc_sigset \<and> sg \<noteq> SIGCHLD
          then Some (s\<lparr>pc := Finished 0, signalled := (pid, SIGTERM) # signalled s\<rparr>)
          else None
      | _ \<Rightarrow> None)"

inductive sup_reach :: "Sup \<Rightarrow> bool" where
  sup_init: "sup_reach PeakworkDaemonProc_init"
| sup_step: "sup_reach s \<Longrightarrow> sup_next s ev = Some s' \<Longrightarrow> sup_reach s'"

text \<open>
  \<open>main\<close>: the first process forks and leaves; the child, whose fork returned 0, becomes the
  supervisor and returns its status. \<open>fork_result\<close> is what \<open>fork\<close> returned.
\<close>

definition daemon_main :: "int \<Rightarrow> cint \<Rightarrow> cint" where
  "daemon_main fork_result supervisor_status =
     (if fork_result = -1 then -1
      else if fork_result = 0 then supervisor_status
      else 0)"

section \<open>The worker\<close>

text \<open>
  The worker inherits the blocked signals of the supervisor; \<open>sigprocmask(SIG_BLOCK, ...)\<close> adds
  the signals of an empty set. \<open>sigwait\<close> takes the first pending signal of its set, and
  blocks, \<open>None\<close>, when there is none.
\<close>

definition work_sigset :: "sig list" where
  "work_sigset = []"

definition sigprocmask_block :: "sig list \<Rightarrow> sig list \<Rightarrow> sig list" where
  "sigprocmask_block added blocked = blocked @ added"

definition work_mask :: "sig list" where
  "work_mask = sigprocmask_block work_sigset proc_sigset"

definition sigwait :: "sig list \<Rightarrow> sig list \<Rightarrow> sig option" where
  "sigwait sigset pending = List.find (\<lambda>s. s \<in> set sigset) pending"

definition handled_signals :: "sig list" where
  "handled_signals = [SIGFPE, SIGSEGV, SIGBUS]"

text \<open>What a signal does to the worker: it stays pending, runs \<open>SignalError\<close>, or kills.\<close>

datatype reaction = Pending | HandlerRuns | Dies

definition react :: "sig \<Rightarrow> reaction" where
  "react sg =
     (if sg = SIGKILL then Dies
      else if sg \<in> set work_mask then Pending
      else if sg \<in> set handled_signals then HandlerRuns
      else Dies)"

text \<open>
  Leaving through \<open>exit\<close> destroys the static pointer \<open>dmn\<close>, and with it the controller it
  still holds; \<open>std::terminate\<close> aborts. \<open>None\<close> is a process that does not end.
\<close>

definition exit_process :: "bool \<Rightarrow> cint \<Rightarrow> Controller option \<Rightarrow> proc_end option" where
  "exit_process thread_ends code dmn =
     (case dmn of
        None \<Rightarrow> Some (Exited code)
      | Some ctl \<Rightarrow>
          (case fst (Controller_destroy thread_ends ctl) of
             Done \<Rightarrow> Some (Exited code)
           | Stuck \<Rightarrow> None
           | _ \<Rightarrow> Some (Killed SIGABRT)))"

definition new_Controller :: "RPCService \<Rightarrow> Controller" where
  "new_Controller rpc = \<lparr>stopFlag = False, joinable = False, rpcService = rpc\<rparr>"

text \<open>
  \<open>WorkProc\<close> and the exit after it. \<open>construct\<close> is the outcome of the controller's
  constructor, which stands before the \<open>try\<close>; \<open>pending\<close> the signals that are pending when
  \<open>sigwait\<close> is called.
\<close>

definition WorkProc ::
  "('a, 'w, 'x) ptree_api_scheme \<Rightarrow> ('w, 'y) grpc_api_scheme \<Rightarrow> exn option \<Rightarrow> RPCService \<Rightarrow> bool \<Rightarrow>
     sig list \<Rightarrow> ('a, 'w) cfg \<Rightarrow> proc_end option" where
  "WorkProc api gr construct rpc thread_ends pending cw =
     (case construct of
        Some e \<Rightarrow> Some (Killed SIGABRT)
      | None \<Rightarrow>
          (case Controller_Start api gr 1 (new_Controller rpc, cw) of
             (Done, (ctl, cw1)) \<Rightarrow>
               (case sigwait work_sigset pending of
                  None \<Rightarrow> None
                | Some signo \<Rightarrow>
                    (case Controller_Stop thread_ends ctl of
                       (Done, ctl1) \<Rightarrow> exit_process thread_ends (status_code NeedToTerminate) (Some ctl1)
                     | (Raised e, ctl1) \<Rightarrow> exit_process thread_ends (status_code NeedToTerminate) (Some ctl1)
                     | (Stuck, ctl1) \<Rightarrow> None
                     | (Terminated, ctl1) \<Rightarrow> Some (Killed SIGABRT)))
           | (Raised e, (ctl, cw1)) \<Rightarrow> exit_process thread_ends (status_code NeedToTerminate) (Some ctl)
           | (Stuck, _) \<Rightarrow> None
           | (Terminated, _) \<Rightarrow> Some (Killed SIGABRT)))"

text \<open>
  The handler, on a thread other than the update thread (\<open>handle_fault\<close> of \<open>Main_Process\<close> has both):
  stop, let go of the controller, exit with \<open>NeedToWork\<close>.
\<close>

definition SignalError :: "bool \<Rightarrow> Controller \<Rightarrow> proc_end option" where
  "SignalError thread_ends ctl =
     (case Controller_Stop thread_ends ctl of
        (Done, _) \<Rightarrow> exit_process thread_ends (status_code NeedToWork) None
      | (Stuck, _) \<Rightarrow> None
      | _ \<Rightarrow> Some (Killed SIGABRT))"

section \<open>Lemmas\<close>

lemma WEXITSTATUS_exit: "WEXITSTATUS (wait_status (Exited code)) = and code 0xFF"
proof -
  have m: "(0xFF :: cint) = mask 8" "(0xFF00 :: cint) = push_bit 8 (mask 8)"
    by (simp_all add: mask_eq_exp_minus_1)
  show ?thesis
    unfolding WEXITSTATUS_def wait_status.simps m
    by (rule bit_word_eqI) (auto simp: bit_simps)
qed

lemma WEXITSTATUS_killed: "WEXITSTATUS (wait_status (Killed s)) = 0"
  by (cases s) (simp_all add: WEXITSTATUS_def)

end
