(* ===== verification/Supervisor_Properties.thy ===== *)
theory Supervisor_Properties
  imports Supervisor Service_Properties
begin

text \<open>
  What the supervisor and the worker promise each other: there is never more than one
  worker, when the supervisor starts a new one and when it ends, and that the worker never
  asks it to end.
\<close>

section \<open>The invariant of the loop\<close>

definition sup_inv :: "Sup \<Rightarrow> bool" where
  "sup_inv s \<longleftrightarrow> need_start s \<and>
     (case pc s of
        LoopTop \<Rightarrow> children s = [] \<and> signalled s = []
      | Waiting pid \<Rightarrow> pid \<noteq> 0 \<and> children s = [pid] \<and> signalled s = []
      | Finished st \<Rightarrow>
          (st = status_code NeedToTerminate \<and> children s = [] \<and> signalled s = []) \<or>
          (st = 0 \<and> (\<exists>pid. children s = [pid] \<and> signalled s = [(pid, SIGTERM)])))"

lemma sup_next_inv: "sup_inv s \<Longrightarrow> sup_next s ev = Some s' \<Longrightarrow> sup_inv s'"
  by (cases s; cases ev)
    (auto simp: sup_inv_def sup_next_def Let_def split: sup_pc.splits if_splits)

lemma sup_reach_inv: "sup_reach s \<Longrightarrow> sup_inv s"
proof (induction rule: sup_reach.induct)
  case sup_init
  show ?case by (simp add: sup_inv_def PeakworkDaemonProc_init_def)
qed (rule sup_next_inv)

text \<open>
  C15: One worker at a time. In every reachable state of the supervisor at most one worker
  runs, and it is the one the supervisor waits for; a fork happens only after the previous
  worker has been collected. When the loop has ended, either the last worker is gone and
  had exited with \<open>NeedToTerminate\<close>, or the supervisor was told to stop and leaves with
  status 0 while its worker, which it has sent \<open>SIGTERM\<close>, is still there.
\<close>

theorem one_worker:
  assumes "sup_reach s"
  shows "length (children s) \<le> 1 \<and>
    (\<forall>pid. pc s = Waiting pid \<longrightarrow> children s = [pid]) \<and>
    (\<forall>pid s'. sup_next s (Forked pid) = Some s' \<longrightarrow> children s = []) \<and>
    (\<forall>st. pc s = Finished st \<longrightarrow>
       (st = status_code NeedToTerminate \<and> children s = []) \<or>
       (st = 0 \<and> (\<exists>pid. children s = [pid] \<and> (pid, SIGTERM) \<in> set (signalled s))))"
proof -
  have inv: "sup_inv s" by (rule sup_reach_inv [OF assms])
  have f: "children s = []" if "sup_next s (Forked pid) = Some s'" for pid s'
    using inv that by (auto simp: sup_inv_def sup_next_def split: sup_pc.splits)
  show ?thesis using inv f by (auto simp: sup_inv_def split: sup_pc.splits)
qed

theorem one_worker_witness:
  "\<exists>s. sup_reach s \<and> pc s = Finished 0 \<and> length (children s) \<le> 1"
proof -
  obtain s1 where s1: "sup_next PeakworkDaemonProc_init (Forked 7) = Some s1" "pc s1 = Waiting 7"
    by (auto simp: sup_next_def PeakworkDaemonProc_init_def)
  then obtain s2 where s2: "sup_next s1 (OtherSignal SIGTERM) = Some s2" "pc s2 = Finished 0"
    by (auto simp: sup_next_def proc_sigset_def)
  have r: "sup_reach s2" by (intro sup_step [OF sup_step [OF sup_init s1(1)] s2(1)])
  then show ?thesis using one_worker [OF r] s2(2) by blast
qed

text \<open>
  When the worker is started again. While the supervisor waits for its worker, the end of
  the worker stops the loop exactly when it exited with a code whose low byte is
  \<open>NeedToTerminate\<close>, and that is then the status; a worker killed by a signal counts as
  \<open>NeedToWork\<close>, and after any other end the supervisor forks again.
\<close>

theorem worker_restarted:
  assumes "pc s = Waiting pid"
  shows "(\<forall>code. \<exists>s'. sup_next s (ChildEnds (Exited code)) = Some s' \<and>
      pc s' = (if and code 0xFF = 1 then Finished 1 else LoopTop)) \<and>
    (\<forall>sg. \<exists>s'. sup_next s (ChildEnds (Killed sg)) = Some s' \<and> pc s' = LoopTop) \<and>
    (\<forall>s' p. pc s' = LoopTop \<and> p \<noteq> 0 \<and> p \<notin> set (children s') \<longrightarrow>
      (\<exists>s''. sup_next s' (Forked p) = Some s'' \<and> pc s'' = Waiting p)) \<and>
    (\<forall>s'. pc s' = LoopTop \<longrightarrow> (\<exists>s''. sup_next s' ForkFails = Some s'' \<and> pc s'' = LoopTop))"
proof (intro conjI allI impI)
  fix code
  show "\<exists>s'. sup_next s (ChildEnds (Exited code)) = Some s' \<and>
      pc s' = (if and code 0xFF = 1 then Finished 1 else LoopTop)"
    using assms by (simp add: sup_next_def Let_def WEXITSTATUS_exit del: wait_status.simps)
next
  fix sg
  show "\<exists>s'. sup_next s (ChildEnds (Killed sg)) = Some s' \<and> pc s' = LoopTop"
    using assms by (simp add: sup_next_def Let_def WEXITSTATUS_killed del: wait_status.simps)
qed (auto simp: sup_next_def)

theorem worker_restarted_witness:
  "\<exists>s'. sup_next \<lparr>pc = Waiting 7, need_start = True, children = [7], signalled = []\<rparr>
     (ChildEnds (Killed SIGSEGV)) = Some s' \<and> pc s' = LoopTop"
  using worker_restarted [of "\<lparr>pc = Waiting 7, need_start = True, children = [7], signalled = []\<rparr>" 7] by simp

section \<open>The worker\<close>

lemma sigwait_work: "sigwait work_sigset pending = None"
  by (simp add: sigwait_def work_sigset_def find_None_iff)

lemma Start_raised_not_joinable:
  "Controller_Start api gr h (new_Controller rpc, cw) = (Raised e, (ctl, cw')) \<Longrightarrow> \<not> joinable ctl"
  by (auto simp: Controller_Start_def new_Controller_def Let_def split: prod.splits outcome.splits if_splits)

text \<open>
  C14: The worker never asks the supervisor to end. Whatever the constructor, the start and
  the pending signals do, a run of \<open>WorkProc\<close> either does not end at all or is killed by
  \<open>SIGABRT\<close>, so that the status the supervisor sees is never \<open>NeedToTerminate\<close> but always
  the one of a restart: once started it waits for a signal of an empty set, and when the
  start fails, the destructor of the static controller joins a thread that was never
  created.
\<close>

theorem worker_never_terminates_cleanly:
  "WorkProc api gr construct rpc thread_ends pending cw \<in> {None, Some (Killed SIGABRT)} \<and>
   WEXITSTATUS (wait_status (Killed SIGABRT)) \<noteq> status_code NeedToTerminate \<and>
   (\<forall>ctl cw1. construct = None \<and> Controller_Start api gr 1 (new_Controller rpc, cw) = (Done, (ctl, cw1)) \<longrightarrow>
      WorkProc api gr construct rpc thread_ends pending cw = None)"
proof (intro conjI allI impI)
  show "WorkProc api gr construct rpc thread_ends pending cw \<in> {None, Some (Killed SIGABRT)}"
  proof (cases construct)
    case None
    obtain r ctl cw1 where st: "Controller_Start api gr 1 (new_Controller rpc, cw) = (r, (ctl, cw1))"
      by (metis prod.exhaust)
    show ?thesis
      using st Start_raised_not_joinable [of api gr 1 rpc cw _ ctl cw1]
      by (cases r)
        (auto simp: WorkProc_def None sigwait_work exit_process_def Controller_destroy_def Controller_Stop_def)
  qed (simp add: WorkProc_def)
next
  show "WEXITSTATUS (wait_status (Killed SIGABRT)) \<noteq> status_code NeedToTerminate"
    unfolding WEXITSTATUS_killed by simp
qed (auto simp: WorkProc_def sigwait_work)

theorem worker_never_terminates_cleanly_witness:
  "WorkProc demo_settings demo_grpc None new_RPCService True [SIGTERM] (fresh_cfg, []) = None"
proof -
  have "fst (Controller_Start demo_settings demo_grpc 1 (new_Controller new_RPCService, (fresh_cfg, []))) = Done"
    by code_simp
  then obtain ctl cw1 where "Controller_Start demo_settings demo_grpc 1 (new_Controller new_RPCService, (fresh_cfg, [])) =
      (Done, (ctl, cw1))" by (metis prod.collapse)
  then show ?thesis
    using worker_never_terminates_cleanly [of demo_settings demo_grpc None new_RPCService True "[SIGTERM]" "(fresh_cfg, [])"]
    by blast
qed

text \<open>
  Asking the worker to stop has no effect. The signals that end a daemon, among them the
  \<open>SIGTERM\<close> the supervisor sends, are blocked in the worker, stay pending, and are not in the
  set it waits for; only \<open>SIGKILL\<close> and signals nobody handles end it, and the three fault
  signals run the handler, whose regular exit makes the supervisor start a new worker.
\<close>

theorem stop_signals_ignored:
  "(\<forall>sg \<in> {SIGTERM, SIGINT, SIGQUIT}. react sg = Pending \<and> sigwait work_sigset (sg # pending) = None) \<and>
   (\<forall>sg \<in> {SIGFPE, SIGSEGV, SIGBUS}. react sg = HandlerRuns) \<and>
   react SIGKILL = Dies \<and>
   (joinable ctl \<longrightarrow> SignalError True ctl = Some (Exited (status_code NeedToWork)) \<and>
      sup_next (s\<lparr>pc := Waiting pid\<rparr>) (ChildEnds (Exited (status_code NeedToWork))) =
        Some (s\<lparr>pc := LoopTop, children := remove1 pid (children s)\<rparr>))"
  by (auto simp: react_def work_mask_def sigprocmask_block_def work_sigset_def proc_sigset_def
      handled_signals_def sigwait_def find_None_iff SignalError_def Controller_Stop_def exit_process_def
      sup_next_def Let_def WEXITSTATUS_def)

theorem stop_signals_ignored_witness:
  "react SIGTERM = Pending \<and>
   SignalError True ((new_Controller new_RPCService)\<lparr>joinable := True\<rparr>) = Some (Exited 0)"
  using stop_signals_ignored [where pending = "[]" and ctl = "(new_Controller new_RPCService)\<lparr>joinable := True\<rparr>"]
  by (simp add: new_Controller_def)

end
