(* ===== verification/Main_Process.thy ===== *)
theory Main_Process
  imports Supervisor_Properties
begin

text \<open>
  The parts of \<open>Daemon/src/main.cpp\<close> that talk to the system: the system log with its mask, the
  pid file around the loop of the supervisor, the limit of open files, and the report the
  fault handler writes. The system is a record of functions on a world. \<open>sy_write_file\<close> opens
  a file for writing, truncates it, writes the text and closes it, and says whether it could
  be opened; \<open>sy_backtrace\<close> is the call stack with at most the given number of addresses, and
  \<open>sy_symbols\<close> one text per address, or \<open>None\<close> when there is no memory for them.
\<close>

record 'w sys_api =
  sy_getpid :: "'w \<Rightarrow> nat"
  sy_write_file :: "string \<Rightarrow> string \<Rightarrow> 'w \<Rightarrow> bool \<times> 'w"
  sy_unlink :: "string \<Rightarrow> 'w \<Rightarrow> 'w"
  sy_log :: "nat \<Rightarrow> string \<Rightarrow> 'w \<Rightarrow> 'w"
  sy_setrlimit :: "64 word \<Rightarrow> 64 word \<Rightarrow> 'w \<Rightarrow> cint \<times> 'w"
  sy_strerror :: "'w \<Rightarrow> string"
  sy_strsignal :: "sig \<Rightarrow> string"
  sy_backtrace :: "nat \<Rightarrow> 'w \<Rightarrow> 64 word list"
  sy_symbols :: "64 word list \<Rightarrow> 'w \<Rightarrow> string list option"

section \<open>The system log\<close>

definition LOG_ERR :: nat where "LOG_ERR = 3"
definition LOG_NOTICE :: nat where "LOG_NOTICE = 5"
definition LOG_INFO :: nat where "LOG_INFO = 6"
definition LOG_DEBUG :: nat where "LOG_DEBUG = 7"

definition LOG_UPTO :: "nat \<Rightarrow> cint" where
  "LOG_UPTO pri = push_bit (Suc pri) 1 - 1"

text \<open>The mask \<open>main\<close> sets; \<open>syslog\<close> drops a message whose level is not in the mask.\<close>

definition main_logmask :: cint where
  "main_logmask = LOG_UPTO LOG_NOTICE"

definition syslog :: "('w, 'x) sys_api_scheme \<Rightarrow> cint \<Rightarrow> nat \<Rightarrow> string \<Rightarrow> 'w \<Rightarrow> 'w" where
  "syslog sy logmask pri msg w = (if bit logmask pri then sy_log sy pri msg w else w)"

definition prefixed :: "string \<Rightarrow> string" where
  "prefixed msg = ''[PeakworkDaemon] '' @ msg"

section \<open>The pid file\<close>

definition kPidFile :: string where
  "kPidFile = ''/var/run/peakwork_daemon.pid''"

definition CreatePidFile :: "('w, 'x) sys_api_scheme \<Rightarrow> cint \<Rightarrow> string \<Rightarrow> 'w \<Rightarrow> 'w" where
  "CreatePidFile sy lm fileName w =
     (case sy_write_file sy fileName (show_nat (sy_getpid sy w)) w of
        (True, w') \<Rightarrow> w'
      | (False, w') \<Rightarrow> syslog sy lm LOG_ERR (prefixed ''Can't open pid file'') w')"

section \<open>The supervisor with its messages\<close>

definition sup_message ::
  "('w, 'x) sys_api_scheme \<Rightarrow> cint \<Rightarrow> Sup \<Rightarrow> sup_event \<Rightarrow> 'w \<Rightarrow> 'w" where
  "sup_message sy lm s ev w =
     (case (pc s, ev) of
        (LoopTop, ForkFails) \<Rightarrow>
          syslog sy lm LOG_ERR (prefixed (''Fork failed ('' @ sy_strerror sy w @ '')'' @ [NL])) w
      | (Waiting pid, ChildEnds e) \<Rightarrow>
          (let status = WEXITSTATUS (wait_status e)
           in if status = status_code NeedToTerminate then syslog sy lm LOG_INFO (prefixed (''Child stopped'' @ [NL])) w
              else if status = status_code NeedToWork then syslog sy lm LOG_INFO (prefixed (''Child restart'' @ [NL])) w
              else w)
      | (Waiting pid, OtherSignal sg) \<Rightarrow>
          syslog sy lm LOG_INFO (prefixed (''Signal '' @ sy_strsignal sy sg @ [NL])) w
      | _ \<Rightarrow> w)"

text \<open>The loop on the events that occur, up to the first that cannot, or to its end.\<close>

fun supervise ::
  "('w, 'x) sys_api_scheme \<Rightarrow> cint \<Rightarrow> Sup \<Rightarrow> sup_event list \<Rightarrow> 'w \<Rightarrow> Sup \<times> 'w" where
  "supervise sy lm s [] w = (s, w)"
| "supervise sy lm s (ev # evs) w =
     (case sup_next s ev of
        None \<Rightarrow> (s, w)
      | Some s' \<Rightarrow> supervise sy lm s' evs (sup_message sy lm s ev w))"

definition PeakworkDaemonProc ::
  "('w, 'x) sys_api_scheme \<Rightarrow> cint \<Rightarrow> sup_event list \<Rightarrow> 'w \<Rightarrow> cint option \<times> Sup \<times> 'w" where
  "PeakworkDaemonProc sy lm evs w =
     (case supervise sy lm PeakworkDaemonProc_init evs (CreatePidFile sy lm kPidFile w) of
        (s, w1) \<Rightarrow>
          (case pc s of
             Finished status \<Rightarrow>
               (Some status, s, sy_unlink sy kPidFile (syslog sy lm LOG_INFO (prefixed (''Stop'' @ [NL])) w1))
           | _ \<Rightarrow> (None, s, w1)))"

section \<open>The worker's limit of open files\<close>

definition kFdLimit :: uint32 where
  "kFdLimit = 2048"

definition SetFdLimit :: "('w, 'x) sys_api_scheme \<Rightarrow> cint \<Rightarrow> 'w \<Rightarrow> cint \<times> 'w" where
  "SetFdLimit sy maxFd w = sy_setrlimit sy (scast maxFd) (scast maxFd) w"

text \<open>What \<open>WorkProc\<close> does before it makes the controller; the status of the limit is not used.\<close>

definition work_prologue :: "('w, 'x) sys_api_scheme \<Rightarrow> cint \<Rightarrow> 'w \<Rightarrow> 'w" where
  "work_prologue sy lm w =
     syslog sy lm LOG_INFO (prefixed (''Started'' @ [NL])) (snd (SetFdLimit sy kFdLimit w))"

section \<open>The report of the fault handler\<close>

text \<open>
  The loop over the texts of the stack: \<open>None\<close> when it would read past their end. The array has
  room for 16 addresses; its second one is overwritten with the address of the fault.
\<close>

function log_frames ::
  "('w, 'x) sys_api_scheme \<Rightarrow> cint \<Rightarrow> string list \<Rightarrow> nat \<Rightarrow> nat \<Rightarrow> 'w \<Rightarrow> 'w option" where
  "log_frames sy lm messages traceSize x w =
     (if x < traceSize then
        (if x < length messages
         then log_frames sy lm messages traceSize (Suc x) (syslog sy lm LOG_DEBUG ((messages ! x) @ [NL]) w)
         else None)
      else Some w)"
  by pat_completeness auto
termination
  by (relation "measure (\<lambda>(sy, lm, messages, traceSize, x, w). traceSize - x)") simp_all

declare log_frames.simps [simp del]

definition trace_capacity :: nat where
  "trace_capacity = 16"

definition log_backtrace ::
  "('w, 'x) sys_api_scheme \<Rightarrow> cint \<Rightarrow> 64 word \<Rightarrow> 'w \<Rightarrow> 'w option" where
  "log_backtrace sy lm errorAddr w =
     (let trace = sy_backtrace sy trace_capacity w;
          traceSize = length trace
      in case sy_symbols sy (trace[1 := errorAddr]) w of
           None \<Rightarrow> Some w
         | Some messages \<Rightarrow>
             (case log_frames sy lm messages traceSize 1
                     (syslog sy lm LOG_DEBUG (''== Backtrace =='' @ [NL]) w) of
                None \<Rightarrow> None
              | Some w' \<Rightarrow> Some (syslog sy lm LOG_DEBUG (''== End Backtrace =='' @ [NL]) w')))"

definition fault_message :: "('w, 'x) sys_api_scheme \<Rightarrow> sig \<Rightarrow> string \<Rightarrow> string" where
  "fault_message sy sg addr =
     prefixed (''Signal: '' @ sy_strsignal sy sg @ '', Addr: '' @ addr @ [NL])"

text \<open>\<open>SignalError\<close> up to its last message; \<open>addr\<close> is \<open>si_addr\<close> as a stream prints it.\<close>

definition report_fault ::
  "('w, 'x) sys_api_scheme \<Rightarrow> cint \<Rightarrow> sig \<Rightarrow> string \<Rightarrow> 64 word \<Rightarrow> 'w \<Rightarrow> 'w option" where
  "report_fault sy lm sg addr errorAddr w =
     (case log_backtrace sy lm errorAddr (syslog sy lm LOG_ERR (fault_message sy sg addr) w) of
        None \<Rightarrow> None
      | Some w' \<Rightarrow> Some (syslog sy lm LOG_INFO (prefixed (''Stopped'' @ [NL])) w'))"

section \<open>The fault handler\<close>

text \<open>
  \<open>Stop\<close> called by the handler. A fault is delivered to the thread that made it: when that is the
  update thread, \<open>join\<close> is called by the thread it waits for, and throws.
\<close>

definition fault_Stop :: "bool \<Rightarrow> bool \<Rightarrow> Controller \<Rightarrow> ctl_outcome \<times> Controller" where
  "fault_Stop on_update_thread thread_ends ctl =
     (if on_update_thread \<and> joinable ctl
      then (Raised (SystemError ''Resource deadlock avoided''), ctl\<lparr>stopFlag := True\<rparr>)
      else Controller_Stop thread_ends ctl)"

text \<open>
  All of \<open>SignalError\<close>: \<open>None\<close> when the report leaves its arrays, and otherwise the end of the
  process, if there is one. An exception that leaves the handler ends in \<open>std::terminate\<close>.
\<close>

definition handle_fault ::
  "('w, 'x) sys_api_scheme \<Rightarrow> cint \<Rightarrow> sig \<Rightarrow> string \<Rightarrow> 64 word \<Rightarrow> bool \<Rightarrow> bool \<Rightarrow> Controller \<Rightarrow> 'w \<Rightarrow>
     (proc_end option \<times> 'w) option" where
  "handle_fault sy lm sg addr errorAddr on_update_thread thread_ends ctl w =
     (case report_fault sy lm sg addr errorAddr w of
        None \<Rightarrow> None
      | Some w' \<Rightarrow>
          Some (case fault_Stop on_update_thread thread_ends ctl of
                  (Done, _) \<Rightarrow> exit_process thread_ends (status_code NeedToWork) None
                | (Stuck, _) \<Rightarrow> None
                | _ \<Rightarrow> Some (Killed SIGABRT), w'))"

section \<open>What the system promises\<close>

text \<open>
  \<open>files\<close> are the contents of the files and \<open>logged\<close> the messages of the log: writing a file
  gives it its text, unlinking removes it, and a message goes to the end of the log and
  touches no file.
\<close>

definition sys_laws ::
  "('w, 'x) sys_api_scheme \<Rightarrow> ('w \<Rightarrow> string \<Rightarrow> string option) \<Rightarrow> ('w \<Rightarrow> (nat \<times> string) list) \<Rightarrow> bool" where
  "sys_laws sy files logged \<longleftrightarrow>
     (\<forall>p txt w w'. sy_write_file sy p txt w = (True, w') \<longrightarrow> files w' p = Some txt) \<and>
     (\<forall>p w. files (sy_unlink sy p w) p = None) \<and>
     (\<forall>pri msg w. files (sy_log sy pri msg w) = files w) \<and>
     (\<forall>pri msg w. logged (sy_log sy pri msg w) = logged w @ [(pri, msg)])"

text \<open>The stack has at most the addresses asked for, and the symbols are one per address.\<close>

definition trace_laws :: "('w, 'x) sys_api_scheme \<Rightarrow> bool" where
  "trace_laws sy \<longleftrightarrow>
     (\<forall>n w. length (sy_backtrace sy n w) \<le> n) \<and>
     (\<forall>tr w ms. sy_symbols sy tr w = Some ms \<longrightarrow> length ms = length tr)"

end
