(* ===== verification/Process_Properties.thy ===== *)
theory Process_Properties
  imports Main_Process
begin

text \<open>
  What the daemon leaves behind on the system: the pid file lives as long as the supervisor,
  and the fault handler stays inside its arrays but writes its stack to a log that drops it;
  every crash that ends the worker makes the supervisor fork again.
\<close>

section \<open>A system to run things on\<close>

record demo_sys =
  ds_files :: "(string \<times> string) list"
  ds_log :: "(nat \<times> string) list"

definition demo_sysapi :: "demo_sys sys_api" where
  "demo_sysapi = \<lparr>
     sy_getpid = (\<lambda>_. 4711),
     sy_write_file = (\<lambda>p txt w. (True, w\<lparr>ds_files := (p, txt) # ds_files w\<rparr>)),
     sy_unlink = (\<lambda>p w. w\<lparr>ds_files := filter (\<lambda>f. fst f \<noteq> p) (ds_files w)\<rparr>),
     sy_log = (\<lambda>pri msg w. w\<lparr>ds_log := ds_log w @ [(pri, msg)]\<rparr>),
     sy_setrlimit = (\<lambda>_ _ w. (0, w)),
     sy_strerror = (\<lambda>_. ''again''),
     sy_strsignal = (\<lambda>_. ''fault''),
     sy_backtrace = (\<lambda>n _. take n [1, 2, 3]),
     sy_symbols = (\<lambda>tr _. Some (map (\<lambda>a. show_nat (unat a)) tr))\<rparr>"

definition demo_files :: "demo_sys \<Rightarrow> string \<Rightarrow> string option" where
  "demo_files w = map_of (ds_files w)"

lemma demo_sys_laws: "sys_laws demo_sysapi demo_files ds_log"
  by (auto simp: sys_laws_def demo_sysapi_def demo_files_def map_of_eq_None_iff)

lemma demo_trace_laws: "trace_laws demo_sysapi"
  by (auto simp: trace_laws_def demo_sysapi_def)

section \<open>The pid file\<close>

lemma syslog_files: "sys_laws sy files logged \<Longrightarrow> files (syslog sy lm pri msg w) = files w"
  by (simp add: syslog_def sys_laws_def)

lemma sup_message_files: "sys_laws sy files logged \<Longrightarrow> files (sup_message sy lm s ev w) = files w"
  by (auto simp: sup_message_def Let_def syslog_files split: sup_pc.split sup_event.split)

lemma supervise_run:
  assumes "sys_laws sy files logged" and "sup_reach s"
    and "supervise sy lm s evs w = (s', w')"
  shows "sup_reach s' \<and> files w' = files w"
  using assms(2,3)
proof (induction evs arbitrary: s w)
  case (Cons ev evs)
  show ?case
  proof (cases "sup_next s ev")
    case (Some s1)
    have "sup_reach s1" by (rule sup_step [OF Cons.prems(1) Some])
    then show ?thesis
      using Cons.IH [of s1 "sup_message sy lm s ev w"] Cons.prems(2) Some
      by (simp add: sup_message_files [OF assms(1)])
  qed (use Cons.prems in simp)
qed simp

text \<open>
  C20: The pid file lives as long as the supervisor. If it could be written at the start, then
  whatever happens to the workers, the file holds the process id of the supervisor as long
  as the loop runs, and it is gone when the supervisor returns; the supervisor is then in a
  reachable state of its loop, and its status is that of \<open>NeedToWork\<close> or \<open>NeedToTerminate\<close>.
\<close>

theorem pid_file_lifetime:
  assumes "sys_laws sy files logged"
    and "sy_write_file sy kPidFile (show_nat (sy_getpid sy w)) w = (True, w1)"
    and "PeakworkDaemonProc sy lm evs w = (st, s, w')"
  shows "sup_reach s \<and>
    (st = None \<longrightarrow> files w' kPidFile = Some (show_nat (sy_getpid sy w))) \<and>
    (\<forall>status. st = Some status \<longrightarrow>
      files w' kPidFile = None \<and> pc s = Finished status \<and>
      status \<in> {status_code NeedToWork, status_code NeedToTerminate})"
proof -
  obtain s2 w2 where l: "supervise sy lm PeakworkDaemonProc_init evs w1 = (s2, w2)" by fastforce
  have r: "sup_reach s2" "files w2 = files w1" using supervise_run [OF assms(1) sup_init l] by simp_all
  have f: "files w1 kPidFile = Some (show_nat (sy_getpid sy w))"
    using assms(1,2) unfolding sys_laws_def by blast
  have run: "PeakworkDaemonProc sy lm evs w =
      (case pc s2 of
         Finished status \<Rightarrow>
           (Some status, s2, sy_unlink sy kPidFile (syslog sy lm LOG_INFO (prefixed (''Stop'' @ [NL])) w2))
       | _ \<Rightarrow> (None, s2, w2))"
    by (simp add: PeakworkDaemonProc_def CreatePidFile_def assms(2) l)
  have u: "files (sy_unlink sy kPidFile v) kPidFile = None" for v using assms(1) by (simp add: sys_laws_def)
  have fin: "status \<in> {status_code NeedToWork, status_code NeedToTerminate}" if "pc s2 = Finished status" for status
    using sup_reach_inv [OF r(1)] that by (auto simp: sup_inv_def)
  show ?thesis
    using assms(3) run r f u fin by (auto split: sup_pc.splits)
qed

theorem pid_file_lifetime_witness:
  "\<exists>s w'. PeakworkDaemonProc demo_sysapi main_logmask [Forked 7, ChildEnds (Killed SIGSEGV), Forked 8, OtherSignal SIGTERM]
     \<lparr>ds_files = [], ds_log = []\<rparr> = (Some 0, s, w') \<and> demo_files w' kPidFile = None"
proof -
  let ?w = "\<lparr>ds_files = [], ds_log = []\<rparr> :: demo_sys"
  let ?evs = "[Forked 7, ChildEnds (Killed SIGSEGV), Forked 8, OtherSignal SIGTERM]"
  obtain st s w' where r: "PeakworkDaemonProc demo_sysapi main_logmask ?evs ?w = (st, s, w')"
    by (metis prod.exhaust)
  have "fst (PeakworkDaemonProc demo_sysapi main_logmask ?evs ?w) = Some 0"
    by (simp add: PeakworkDaemonProc_def sup_next_def PeakworkDaemonProc_init_def WEXITSTATUS_killed
        proc_sigset_def del: wait_status.simps)
  then have st: "st = Some 0" using r by simp
  have w: "sy_write_file demo_sysapi kPidFile (show_nat (sy_getpid demo_sysapi ?w)) ?w =
      (True, \<lparr>ds_files = [(kPidFile, show_nat 4711)], ds_log = []\<rparr>)"
    by (simp add: demo_sysapi_def)
  show ?thesis using pid_file_lifetime [OF demo_sys_laws w r] st r by blast
qed

section \<open>The fault handler\<close>

lemma syslog_logged:
  "sys_laws sy files logged \<Longrightarrow>
     logged (syslog sy lm pri msg w) = logged w @ filter (\<lambda>m. bit lm (fst m)) [(pri, msg)]"
  by (simp add: syslog_def sys_laws_def)

lemma log_frames_all:
  assumes "sys_laws sy files logged" and "x \<le> length ms"
  shows "\<exists>w'. log_frames sy lm ms (length ms) x w = Some w' \<and> files w' = files w \<and>
    logged w' = logged w @ filter (\<lambda>m. bit lm (fst m)) (map (\<lambda>m. (LOG_DEBUG, m @ [NL])) (drop x ms))"
  using assms(2)
proof (induction "length ms - x" arbitrary: x w)
  case 0
  then have "x = length ms" by simp
  then show ?case by (simp add: log_frames.simps)
next
  case (Suc n)
  then have x: "x < length ms" by simp
  let ?w1 = "syslog sy lm LOG_DEBUG ((ms ! x) @ [NL]) w"
  have "\<exists>w'. log_frames sy lm ms (length ms) (Suc x) ?w1 = Some w' \<and> files w' = files ?w1 \<and>
      logged w' = logged ?w1 @ filter (\<lambda>m. bit lm (fst m)) (map (\<lambda>m. (LOG_DEBUG, m @ [NL])) (drop (Suc x) ms))"
    by (rule Suc.hyps(1)) (use Suc.hyps(2) x in auto)
  then obtain w' where w': "log_frames sy lm ms (length ms) (Suc x) ?w1 = Some w'"
    "files w' = files ?w1" "logged w' = logged ?w1 @ filter (\<lambda>m. bit lm (fst m)) (map (\<lambda>m. (LOG_DEBUG, m @ [NL])) (drop (Suc x) ms))"
    by blast
  have "drop x ms = (ms ! x) # drop (Suc x) ms" using x by (simp add: Cons_nth_drop_Suc)
  then show ?case
    using w' x by (subst log_frames.simps) (simp add: syslog_logged [OF assms(1)] syslog_files [OF assms(1)])
qed

text \<open>The messages of a fault, before the mask of the log.\<close>

definition trace_lines :: "string list option \<Rightarrow> (nat \<times> string) list" where
  "trace_lines messages =
     (case messages of
        None \<Rightarrow> []
      | Some ms \<Rightarrow>
          [(LOG_DEBUG, ''== Backtrace =='' @ [NL])] @ map (\<lambda>m. (LOG_DEBUG, m @ [NL])) (tl ms) @
          [(LOG_DEBUG, ''== End Backtrace =='' @ [NL])])"

definition fault_lines ::
  "('w, 'x) sys_api_scheme \<Rightarrow> sig \<Rightarrow> string \<Rightarrow> string list option \<Rightarrow> (nat \<times> string) list" where
  "fault_lines sy sg addr messages =
     [(LOG_ERR, fault_message sy sg addr)] @ trace_lines messages @ [(LOG_INFO, prefixed (''Stopped'' @ [NL]))]"

lemma log_backtrace_run:
  assumes "sys_laws sy files logged" and "trace_laws sy"
    and syms: "syms = sy_symbols sy ((sy_backtrace sy trace_capacity w)[1 := errorAddr]) w"
  shows "\<exists>w'. log_backtrace sy lm errorAddr w = Some w' \<and> files w' = files w \<and>
    logged w' = logged w @ filter (\<lambda>m. bit lm (fst m)) (trace_lines syms)"
proof (cases syms)
  case None
  then show ?thesis using syms by (simp add: log_backtrace_def Let_def trace_lines_def)
next
  case (Some ms)
  then have len: "length ms = length (sy_backtrace sy trace_capacity w)"
    using assms(2) syms [symmetric] by (metis length_list_update trace_laws_def)
  note lg = syslog_logged [OF assms(1)] syslog_files [OF assms(1)]
  let ?w1 = "syslog sy lm LOG_DEBUG (''== Backtrace =='' @ [NL]) w"
  have "\<exists>w2. log_frames sy lm ms (length ms) 1 ?w1 = Some w2 \<and> files w2 = files ?w1 \<and>
      logged w2 = logged ?w1 @ filter (\<lambda>m. bit lm (fst m)) (map (\<lambda>m. (LOG_DEBUG, m @ [NL])) (tl ms))"
  proof (cases ms)
    case Nil
    then show ?thesis by (simp add: log_frames.simps)
  next
    case (Cons m ms')
    then show ?thesis using log_frames_all [OF assms(1), of 1 ms lm ?w1] by (simp add: drop_Suc)
  qed
  then show ?thesis
    using Some syms [symmetric] by (auto simp: log_backtrace_def Let_def len lg trace_lines_def)
qed

lemma report_fault_run:
  assumes "sys_laws sy files logged" and "trace_laws sy"
    and w1: "w1 = syslog sy lm LOG_ERR (fault_message sy sg addr) w"
  shows "\<exists>w'. report_fault sy lm sg addr errorAddr w = Some w' \<and> files w' = files w \<and>
    logged w' = logged w @ filter (\<lambda>m. bit lm (fst m))
      (fault_lines sy sg addr (sy_symbols sy ((sy_backtrace sy trace_capacity w1)[1 := errorAddr]) w1))"
proof -
  note lg = syslog_logged [OF assms(1)] syslog_files [OF assms(1)]
  obtain w2 where w2: "log_backtrace sy lm errorAddr w1 = Some w2" "files w2 = files w1"
    "logged w2 = logged w1 @ filter (\<lambda>m. bit lm (fst m))
      (trace_lines (sy_symbols sy ((sy_backtrace sy trace_capacity w1)[1 := errorAddr]) w1))"
    using log_backtrace_run [OF assms(1,2) refl] by blast
  have "report_fault sy lm sg addr errorAddr w = Some (syslog sy lm LOG_INFO (prefixed (''Stopped'' @ [NL])) w2)"
    using w2(1) by (simp add: report_fault_def w1)
  then show ?thesis by (simp add: lg w2(2,3) fault_lines_def) (simp add: w1 lg)
qed

lemma masked_lines: "filter (\<lambda>m. bit main_logmask (fst m)) (fault_lines sy sg addr syms) =
    [(LOG_ERR, fault_message sy sg addr)]"
proof -
  have "bit main_logmask LOG_ERR" "\<not> bit main_logmask LOG_INFO" "\<not> bit main_logmask LOG_DEBUG"
    by code_simp+
  then show ?thesis by (simp add: fault_lines_def trace_lines_def filter_map comp_def split: option.split)
qed

text \<open>
  C31: The fault handler stays inside its arrays. The stack fits into the array of 16 addresses,
  the loop never reads past the texts, and what it sends to the log is its error message,
  the texts of all frames but the first with the address of the fault in place of the
  second, and its last message. But with the mask \<open>main\<close> sets, only the error message
  is ever written: the back trace is dropped.
\<close>

theorem fault_report_in_bounds:
  assumes "sys_laws sy files logged" and "trace_laws sy"
    and w1: "w1 = syslog sy lm LOG_ERR (fault_message sy sg addr) w"
  shows "length (sy_backtrace sy trace_capacity w1) \<le> trace_capacity \<and>
    (\<exists>w'. report_fault sy lm sg addr errorAddr w = Some w' \<and>
      logged w' = logged w @ filter (\<lambda>m. bit lm (fst m))
        (fault_lines sy sg addr (sy_symbols sy ((sy_backtrace sy trace_capacity w1)[1 := errorAddr]) w1)) \<and>
      (lm = main_logmask \<longrightarrow> logged w' = logged w @ [(LOG_ERR, fault_message sy sg addr)]))"
  using report_fault_run [OF assms, where errorAddr = errorAddr] assms(2) masked_lines
  by (auto simp: trace_laws_def)

theorem fault_report_in_bounds_witness:
  "\<exists>w'. report_fault demo_sysapi main_logmask SIGSEGV ''0x7'' 9 \<lparr>ds_files = [], ds_log = []\<rparr> = Some w' \<and>
     ds_log w' = [(LOG_ERR, fault_message demo_sysapi SIGSEGV ''0x7'')]"
proof -
  let ?w = "\<lparr>ds_files = [], ds_log = []\<rparr> :: demo_sys"
  have "\<exists>w'. report_fault demo_sysapi main_logmask SIGSEGV ''0x7'' 9 ?w = Some w' \<and>
      ds_log w' = ds_log ?w @ [(LOG_ERR, fault_message demo_sysapi SIGSEGV ''0x7'')]"
    using fault_report_in_bounds [OF demo_sys_laws demo_trace_laws refl, of main_logmask SIGSEGV "''0x7''" ?w 9]
    by blast
  then show ?thesis by simp
qed

text \<open>
  C19: A crash always leads to a new worker. On a fault in a running worker the handler writes its
  report, touches no file, and stops the controller: on the update thread the join throws and
  the process is aborted, on any other thread the process exits with \<open>NeedToWork\<close> once the
  update thread has come to its end, and stays if it does not. However the process ends, the
  supervisor that waits for it goes back to forking, and its message is dropped by the mask.
\<close>

theorem fault_restarts_worker:
  assumes "sys_laws sy files logged" and "trace_laws sy" and "joinable ctl" and "pc s = Waiting pid"
  shows "\<exists>e w'. handle_fault sy main_logmask sg addr errorAddr on_update_thread thread_ends ctl w = Some (e, w') \<and>
    e = (if on_update_thread then Some (Killed SIGABRT)
         else if thread_ends then Some (Exited (status_code NeedToWork)) else None) \<and>
    files w' = files w \<and> logged w' = logged w @ [(LOG_ERR, fault_message sy sg addr)] \<and>
    (\<forall>x. e = Some x \<longrightarrow>
      sup_next s (ChildEnds x) = Some (s\<lparr>pc := LoopTop, children := remove1 pid (children s)\<rparr>) \<and>
      sup_message sy main_logmask s (ChildEnds x) w' = w')"
proof -
  obtain w' where w': "report_fault sy main_logmask sg addr errorAddr w = Some w'" "files w' = files w"
    "logged w' = logged w @ [(LOG_ERR, fault_message sy sg addr)]"
    using report_fault_run [OF assms(1,2) refl, where lm = main_logmask and sg = sg and addr = addr and w = w
        and errorAddr = errorAddr] by (auto simp: masked_lines)
  let ?e = "if on_update_thread then Some (Killed SIGABRT)
      else if thread_ends then Some (Exited (status_code NeedToWork)) else None"
  have run: "handle_fault sy main_logmask sg addr errorAddr on_update_thread thread_ends ctl w = Some (?e, w')"
    using w'(1) assms(3) by (simp add: handle_fault_def fault_Stop_def Controller_Stop_def exit_process_def)
  have ends: "WEXITSTATUS (wait_status x) = 0" if "?e = Some x" for x
    using that by (auto simp: WEXITSTATUS_killed WEXITSTATUS_exit simp del: wait_status.simps split: if_splits)
  have "\<not> bit main_logmask LOG_INFO" by code_simp
  then show ?thesis
    using run w'(2,3) ends assms(4)
    by (intro exI [of _ ?e] exI [of _ w'])
      (auto simp: sup_next_def sup_message_def Let_def syslog_def simp del: wait_status.simps)
qed

theorem fault_restarts_worker_witness:
  "\<exists>w'. handle_fault demo_sysapi main_logmask SIGSEGV ''0x7'' 9 True True
       ((new_Controller new_RPCService)\<lparr>joinable := True\<rparr>) \<lparr>ds_files = [], ds_log = []\<rparr> =
     Some (Some (Killed SIGABRT), w') \<and> length (ds_log w') = 1"
proof -
  let ?ctl = "(new_Controller new_RPCService)\<lparr>joinable := True\<rparr>"
  let ?s = "\<lparr>pc = Waiting 7, need_start = True, children = [7], signalled = []\<rparr>"
  have j: "joinable ?ctl" and p: "pc ?s = Waiting 7" by simp_all
  show ?thesis
    using fault_restarts_worker [OF demo_sys_laws demo_trace_laws j p, of SIGSEGV "''0x7''" 9 True True
        "\<lparr>ds_files = [], ds_log = []\<rparr>"] by auto
qed

end
