(* ===== verification/Regex_Replace.thy ===== *)
theory Regex_Replace
  imports Cpp_String
begin

text \<open>
  Models \<open>ReplaceString\<close> of \<open>Daemon/common_utils/common_functions.cpp\<close> and \<open>Config::ReplaceDots\<close>,
  its only caller. The matcher of \<open>std::regex\<close> is a parameter: for an expression and a text
  it gives the matches from left to right, or throws. \<open>std::regex_replace\<close> and its format
  strings are written out as the C++ library has them.
\<close>

section \<open>std::regex_replace\<close>

record re_match =
  m_position :: nat
  m_length :: nat
  m_groups :: "string list"

definition is_digit_char :: "char \<Rightarrow> bool" where
  "is_digit_char c \<longleftrightarrow> c \<in> set ''0123456789''"

definition digit_value :: "char \<Rightarrow> nat" where
  "digit_value c = length (takeWhile (\<lambda>d. d \<noteq> c) ''0123456789'')"

text \<open>Group 0 is the whole match; a number without a group stands for nothing.\<close>

definition group_text :: "string \<Rightarrow> string list \<Rightarrow> nat \<Rightarrow> string" where
  "group_text whole groups n =
     (if n = 0 then whole else if n - 1 < length groups then groups ! (n - 1) else [])"

text \<open>The text a format string stands for, with what comes before the match and after it.\<close>

fun format_match :: "string \<Rightarrow> string \<Rightarrow> string list \<Rightarrow> string \<Rightarrow> string \<Rightarrow> string" where
  "format_match prefix whole groups suffix [] = []"
| "format_match prefix whole groups suffix [c] = [c]"
| "format_match prefix whole groups suffix (c # d # rest) =
     (if c \<noteq> CHR 0x24 then c # format_match prefix whole groups suffix (d # rest)
      else if d = CHR 0x24 then CHR 0x24 # format_match prefix whole groups suffix rest
      else if d = CHR 0x26 then whole @ format_match prefix whole groups suffix rest
      else if d = CHR 0x60 then prefix @ format_match prefix whole groups suffix rest
      else if d = CHR 0x27 then suffix @ format_match prefix whole groups suffix rest
      else if is_digit_char d then
        (case rest of
           [] \<Rightarrow> group_text whole groups (digit_value d)
         | e # rest' \<Rightarrow>
             if is_digit_char e
             then group_text whole groups (10 * digit_value d + digit_value e) @
               format_match prefix whole groups suffix rest'
             else group_text whole groups (digit_value d) @ format_match prefix whole groups suffix rest)
      else CHR 0x24 # format_match prefix whole groups suffix (d # rest))"

text \<open>The loop over the matches; \<open>from_pos\<close> is where the previous match ended.\<close>

fun replace_matches :: "string \<Rightarrow> string \<Rightarrow> nat \<Rightarrow> re_match list \<Rightarrow> string" where
  "replace_matches str fmt from_pos [] = drop from_pos str"
| "replace_matches str fmt from_pos (m # ms) =
     (let prefix = take (m_position m - from_pos) (drop from_pos str);
          whole = take (m_length m) (drop (m_position m) str);
          stop = m_position m + m_length m
      in prefix @ format_match prefix whole (m_groups m) (drop stop str) fmt @
         replace_matches str fmt stop ms)"

definition ReplaceString ::
  "(string \<Rightarrow> string \<Rightarrow> exn + re_match list) \<Rightarrow> string \<Rightarrow> string \<Rightarrow> string \<Rightarrow> exn + string" where
  "ReplaceString matches str expr replaceString =
     (case matches expr str of
        Inl e \<Rightarrow> Inl e
      | Inr ms \<Rightarrow> Inr (replace_matches str replaceString 0 ms))"

section \<open>Dots\<close>

definition dots_expr :: string where
  "dots_expr = ''('' @ [CHR 0x5C] @ ''.)''"

definition ReplaceDots ::
  "(string \<Rightarrow> string \<Rightarrow> exn + re_match list) \<Rightarrow> string \<Rightarrow> string \<Rightarrow> exn + string" where
  "ReplaceDots matches key replaceString = ReplaceString matches key dots_expr replaceString"

text \<open>What the matcher finds for the expression: each dot, which is also the first group.\<close>

fun dot_matches :: "nat \<Rightarrow> string \<Rightarrow> re_match list" where
  "dot_matches i [] = []"
| "dot_matches i (c # cs) =
     (if c = CHR ''.''
      then \<lparr>m_position = i, m_length = 1, m_groups = [''.'']\<rparr> # dot_matches (Suc i) cs
      else dot_matches (Suc i) cs)"

definition finds_dots :: "(string \<Rightarrow> string \<Rightarrow> exn + re_match list) \<Rightarrow> bool" where
  "finds_dots matches \<longleftrightarrow> (\<forall>str. matches dots_expr str = Inr (dot_matches 0 str))"

section \<open>Properties\<close>

text \<open>A format string whose text is always the same.\<close>

definition stands_for :: "string \<Rightarrow> string \<Rightarrow> bool" where
  "stands_for fmt val \<longleftrightarrow> (\<forall>prefix suffix. format_match prefix ''.'' [''.''] suffix fmt = val)"

lemma format_plain: "CHR 0x24 \<notin> set fmt \<Longrightarrow> format_match prefix whole groups suffix fmt = fmt"
  by (induction prefix whole groups suffix fmt rule: format_match.induct) auto

lemma stands_for_plain: "CHR 0x24 \<notin> set fmt \<Longrightarrow> stands_for fmt fmt"
  by (simp add: stands_for_def format_plain)

lemma stands_for_dot: "stands_for [CHR 0x24, CHR ''1''] ''.''" "stands_for [CHR 0x24, CHR 0x26] ''.''"
  by (simp_all add: stands_for_def is_digit_char_def group_text_def digit_value_def)

lemma replace_dot_matches:
  assumes "stands_for fmt val" and "str = pre @ mid @ cs" and "from_pos = length pre"
  shows "replace_matches str fmt from_pos (dot_matches (length (pre @ mid)) cs) =
    mid @ concat (map (\<lambda>c. if c = CHR ''.'' then val else [c]) cs)"
  using assms(2,3)
proof (induction cs arbitrary: pre mid from_pos)
  case Nil
  then show ?case by simp
next
  case (Cons c cs)
  show ?case
  proof (cases "c = CHR ''.''")
    case True
    have ih: "replace_matches str fmt (length (pre @ mid @ [c])) (dot_matches (length ((pre @ mid @ [c]) @ [])) cs) =
        [] @ concat (map (\<lambda>c. if c = CHR ''.'' then val else [c]) cs)"
      by (rule Cons.IH) (use Cons.prems in simp_all)
    have f: "format_match mid ''.'' [''.''] suffix fmt = val" for suffix
      using assms(1) by (simp add: stands_for_def)
    show ?thesis using ih Cons.prems True f by (simp add: Let_def)
  next
    case False
    have "replace_matches str fmt from_pos (dot_matches (length (pre @ mid @ [c])) cs) =
        (mid @ [c]) @ concat (map (\<lambda>c. if c = CHR ''.'' then val else [c]) cs)"
      using Cons.IH [of pre "mid @ [c]" from_pos] Cons.prems by simp
    then show ?thesis using False by simp
  qed
qed

text \<open>
  Replacing the dots of a key. \<open>ReplaceDots\<close> puts the replacement in the place of every dot
  and leaves every other character, as a replacement character by character would do it,
  if the replacement has no dollar sign; a replacement without dots then gives a text
  without dots. The format \<open>$1\<close>, and also \<open>$&\<close>, gives the key back.
\<close>

theorem ReplaceDots_characters:
  assumes "finds_dots matches"
  shows "(CHR 0x24 \<notin> set r \<longrightarrow>
      ReplaceDots matches key r = Inr (concat (map (\<lambda>c. if c = CHR ''.'' then r else [c]) key))) \<and>
    (CHR 0x24 \<notin> set r \<and> CHR ''.'' \<notin> set r \<longrightarrow>
      (\<exists>val. ReplaceDots matches key r = Inr val \<and> CHR ''.'' \<notin> set val)) \<and>
    ReplaceDots matches key [CHR 0x24, CHR ''1''] = Inr key \<and>
    ReplaceDots matches key [CHR 0x24, CHR 0x26] = Inr key"
proof -
  have run: "ReplaceDots matches key fmt = Inr (concat (map (\<lambda>c. if c = CHR ''.'' then val else [c]) key))"
    if "stands_for fmt val" for fmt val
    using replace_dot_matches [OF that, of key "[]" "[]" key 0] assms
    by (simp add: ReplaceDots_def ReplaceString_def finds_dots_def)
  have same: "concat (map (\<lambda>c. if c = CHR ''.'' then ''.'' else [c]) key) = key"
    by (induction key) auto
  show ?thesis
    using run [OF stands_for_plain, of r] run [OF stands_for_dot(1)] run [OF stands_for_dot(2)] same
    by (auto split: if_splits)
qed

theorem ReplaceDots_characters_witness:
  "ReplaceDots (\<lambda>expr str. Inr (dot_matches 0 str)) ''iex_api.url'' ''/'' = Inr ''iex_api/url''"
proof -
  have f: "finds_dots (\<lambda>expr str. Inr (dot_matches 0 str))" by (simp add: finds_dots_def)
  have d: "CHR 0x24 \<notin> set ''/''" by simp
  show ?thesis using ReplaceDots_characters [OF f, of "''/''" "''iex_api.url''"] d by simp
qed

end
