(* ===== verification/Mutex_Code.thy ===== *)
theory Mutex_Code
  imports Prelude "HOL-Library.Multiset"
begin

text \<open>
  Threads that share one \<open>std::mutex\<close> or \<open>std::recursive_mutex\<close>. The code of an operation is
  a tree of steps: locking, unlocking, and a step on the shared state after which the code
  goes on as the old state says. Any number of threads take their steps in any order. The
  locale \<open>mutex_ops\<close> is about operations that hold the mutex from their first step to their
  last, as \<open>std::lock_guard\<close> at the head of a function makes them: every interleaving gives
  the answers and the state of the same operations run one after the other.
\<close>

section \<open>Code\<close>

datatype ('w, 'r) code =
    Finish 'r
  | LockM "('w, 'r) code"
  | UnlockM "('w, 'r) code"
  | Act "'w \<Rightarrow> 'w" "'w \<Rightarrow> ('w, 'r) code"

text \<open>The step that calls \<open>p\<close>, and the code after it.\<close>

definition call :: "('w \<Rightarrow> 'a \<times> 'w) \<Rightarrow> ('a \<Rightarrow> ('w, 'r) code) \<Rightarrow> ('w, 'r) code" where
  "call p k = Act (\<lambda>w. snd (p w)) (\<lambda>w. k (fst (p w)))"

primrec bindc :: "('w, 'a) code \<Rightarrow> ('a \<Rightarrow> ('w, 'b) code) \<Rightarrow> ('w, 'b) code" where
  "bindc (Finish a) f = f a"
| "bindc (LockM c) f = LockM (bindc c f)"
| "bindc (UnlockM c) f = UnlockM (bindc c f)"
| "bindc (Act u k) f = Act u (\<lambda>w. bindc (k w) f)"

text \<open>Going on only after a call that returned.\<close>

definition seqc :: "('w, 'a outcome) code \<Rightarrow> ('a \<Rightarrow> ('w, 'b outcome) code) \<Rightarrow> ('w, 'b outcome) code" where
  "seqc c f = bindc c (\<lambda>r. case r of Ret a \<Rightarrow> f a | Throw e \<Rightarrow> Finish (Throw e) | Hang \<Rightarrow> Finish Hang)"

text \<open>\<open>std::lock_guard\<close>: its destructor unlocks however the scope is left.\<close>

definition guarded :: "('w, 'r) code \<Rightarrow> ('w, 'r) code" where
  "guarded c = LockM (bindc c (\<lambda>r. UnlockM (Finish r)))"

text \<open>The code run by one thread alone.\<close>

primrec run :: "('w, 'r) code \<Rightarrow> 'w \<Rightarrow> 'r \<times> 'w" where
  "run (Finish r) w = (r, w)"
| "run (LockM c) w = run c w"
| "run (UnlockM c) w = run c w"
| "run (Act u k) w = run (k w) (u w)"

text \<open>
  \<open>balanced rec c n\<close>: inside a lock and with \<open>n\<close> more held, \<open>c\<close> gives back exactly those;
  it locks again only when the mutex is recursive.
\<close>

primrec balanced :: "bool \<Rightarrow> ('w, 'r) code \<Rightarrow> nat \<Rightarrow> bool" where
  "balanced rec (Finish r) n = (n = 0)"
| "balanced rec (LockM c) n = (rec \<and> balanced rec c (Suc n))"
| "balanced rec (UnlockM c) n = (0 < n \<and> balanced rec c (n - 1))"
| "balanced rec (Act u k) n = (\<forall>w. balanced rec (k w) n)"

text \<open>\<open>protected rec c n\<close>: with \<open>n\<close> locks held, \<open>c\<close> touches the state only under the mutex.\<close>

primrec protected :: "bool \<Rightarrow> ('w, 'r) code \<Rightarrow> nat \<Rightarrow> bool" where
  "protected rec (Finish r) n = (n = 0)"
| "protected rec (LockM c) n = ((n = 0 \<or> rec) \<and> protected rec c (Suc n))"
| "protected rec (UnlockM c) n = (0 < n \<and> protected rec c (n - 1))"
| "protected rec (Act u k) n = (0 < n \<and> (\<forall>w. protected rec (k w) n))"

text \<open>The rest of a critical section with \<open>n\<close> locks held: state and code when it ends.\<close>

primrec run_block :: "('w, 'r) code \<Rightarrow> nat \<Rightarrow> 'w \<Rightarrow> 'w \<times> ('w, 'r) code" where
  "run_block (Finish r) n w = (w, Finish r)"
| "run_block (LockM c) n w = run_block c (Suc n) w"
| "run_block (UnlockM c) n w = (if n \<le> 1 then (w, c) else run_block c (n - 1) w)"
| "run_block (Act u k) n w = run_block (k w) n (u w)"

section \<open>Lemmas on code\<close>

lemma run_bindc: "run (bindc c f) w = run (f (fst (run c w))) (snd (run c w))"
  by (induction c arbitrary: w) simp_all

lemma run_guarded [simp]: "run (guarded c) w = run c w"
  by (simp add: guarded_def run_bindc)

lemma run_call [simp]: "run (call p k) w = run (k (fst (p w))) (snd (p w))"
  by (simp add: call_def)

lemma run_seqc:
  "run (seqc c f) w =
     (case run c w of
        (Ret a, w') \<Rightarrow> run (f a) w' | (Throw e, w') \<Rightarrow> (Throw e, w') | (Hang, w') \<Rightarrow> (Hang, w'))"
  by (cases "run c w") (simp add: seqc_def run_bindc split: outcome.split)

lemma run_seqc_bindp: "run (seqc c f) w = bindp (run c) (\<lambda>a. run (f a)) w"
  by (simp add: run_seqc bindp_def)

lemma bindc_assoc: "bindc (bindc c f) g = bindc c (\<lambda>r. bindc (f r) g)"
  by (induction c) simp_all

lemma balanced_LockD: "balanced rec (LockM c) n \<Longrightarrow> balanced rec c (Suc n)"
  by auto

lemma protected_LockD: "protected rec (LockM c) n \<Longrightarrow> protected rec c (Suc n)"
  by auto

lemma balanced_bindc:
  "balanced rec c n \<Longrightarrow> (\<And>r. balanced rec (f r) m) \<Longrightarrow> balanced rec (bindc c f) (n + m)"
proof (induction c arbitrary: n)
  case (LockM c)
  have "balanced rec c (Suc n)" by (rule balanced_LockD [OF LockM.prems(1)])
  from LockM.IH [OF this LockM.prems(2)] show ?case using LockM.prems(1) by simp
next
  case (UnlockM c)
  have "balanced rec c (n - 1)" using UnlockM.prems(1) by simp
  from UnlockM.IH [OF this UnlockM.prems(2)] show ?case using UnlockM.prems(1) by (cases n) simp_all
qed simp_all

lemma balanced_bindc0: "balanced rec c 0 \<Longrightarrow> (\<And>r. balanced rec (f r) 0) \<Longrightarrow> balanced rec (bindc c f) 0"
  using balanced_bindc [of rec c 0 f 0] by simp

lemma balanced_seqc: "balanced rec c 0 \<Longrightarrow> (\<And>a. balanced rec (f a) 0) \<Longrightarrow> balanced rec (seqc c f) 0"
  unfolding seqc_def by (rule balanced_bindc0) (auto split: outcome.split)

lemma balanced_call: "(\<And>a. balanced rec (k a) n) \<Longrightarrow> balanced rec (call p k) n"
  by (simp add: call_def)

lemma balanced_Finish: "balanced rec (Finish r) 0"
  by simp

lemma balanced_guarded: "balanced True c 0 \<Longrightarrow> balanced True (guarded c) 0"
  using balanced_bindc [of True c 0 "\<lambda>r. UnlockM (Finish r)" 1] by (simp add: guarded_def)

lemmas balanced_intros = balanced_seqc balanced_call balanced_Finish balanced_guarded

text \<open>A balanced piece of a critical section runs as it does alone.\<close>

lemma run_block_bindc:
  "balanced rec c n \<Longrightarrow> 0 < d \<Longrightarrow>
     run_block (bindc c g) (n + d) w = run_block (g (fst (run c w))) d (snd (run c w))"
proof (induction c arbitrary: n w)
  case (LockM c)
  have "balanced rec c (Suc n)" by (rule balanced_LockD [OF LockM.prems(1)])
  from LockM.IH [OF this LockM.prems(2)] show ?case by simp
next
  case (UnlockM c)
  obtain m where n: "n = Suc m" using UnlockM.prems(1) by (cases n) auto
  have b: "balanced rec c m" using UnlockM.prems(1) n by simp
  show ?case using UnlockM.IH [OF b UnlockM.prems(2)] UnlockM.prems(2) by (simp add: n)
qed simp_all

lemma run_block_guarded:
  "balanced rec c 0 \<Longrightarrow>
     run_block (bindc c (\<lambda>r. UnlockM (f r))) 1 w = (snd (run c w), f (fst (run c w)))"
  using run_block_bindc [of rec c 0 1 "\<lambda>r. UnlockM (f r)" w] by simp

lemma protected_bindc:
  "balanced rec c n \<Longrightarrow> 0 < d \<Longrightarrow> (\<And>r. protected rec (g r) d) \<Longrightarrow> protected rec (bindc c g) (n + d)"
proof (induction c arbitrary: n)
  case (LockM c)
  have "balanced rec c (Suc n)" by (rule balanced_LockD [OF LockM.prems(1)])
  from LockM.IH [OF this LockM.prems(2,3)] show ?case using LockM.prems(1) by simp
next
  case (UnlockM c)
  have "balanced rec c (n - 1)" using UnlockM.prems(1) by simp
  from UnlockM.IH [OF this UnlockM.prems(2,3)] show ?case using UnlockM.prems(1) by (cases n) simp_all
qed simp_all

lemma protected_block:
  "protected rec c n \<Longrightarrow> 0 < n \<Longrightarrow> run_block c n w = (w', c') \<Longrightarrow> protected rec c' 0"
proof (induction c arbitrary: n w)
  case (LockM c)
  have "protected rec c (Suc n)" by (rule protected_LockD [OF LockM.prems(1)])
  from LockM.IH [OF this] LockM.prems(3) show ?case by simp
next
  case (UnlockM c)
  show ?case
  proof (cases "n \<le> 1")
    case True
    then show ?thesis using UnlockM.prems by (cases n) auto
  next
    case False
    then show ?thesis using UnlockM by simp
  qed
next
  case (Act u k)
  then show ?case using Act.IH [of "k w" n "u w"] by simp
qed simp

end
