(* ===== verification/Mutex_Threads.thy ===== *)
theory Mutex_Threads
  imports Mutex_Code
begin

text \<open>
  The threads of \<open>Mutex_Code\<close> under a scheduler, and the same threads with a whole critical
  section as one step. Shown here: each run of the first kind is matched by one of the
  second, it never gets stuck and it always ends; for operations that hold the mutex
  throughout, the second kind is running the operations one after the other.
\<close>

section \<open>Schedules\<close>

text \<open>A run is the list of the threads that move; \<open>None\<close> when one of them cannot.\<close>

fun run_list :: "('s \<Rightarrow> nat \<Rightarrow> 's option) \<Rightarrow> 's \<Rightarrow> nat list \<Rightarrow> 's option" where
  "run_list f s [] = Some s"
| "run_list f s (i # is) = (case f s i of None \<Rightarrow> None | Some s' \<Rightarrow> run_list f s' is)"

lemma run_list_append:
  "run_list f s (xs @ ys) = (case run_list f s xs of None \<Rightarrow> None | Some s' \<Rightarrow> run_list f s' ys)"
  by (induction f s xs rule: run_list.induct) (simp_all split: option.split)

lemma run_list_invariant:
  assumes "run_list f s is = Some s'" and "P s" and "\<And>s i s'. P s \<Longrightarrow> f s i = Some s' \<Longrightarrow> P s'"
  shows "P s'"
  using assms(1,2)
proof (induction "is" arbitrary: s)
  case (Cons i js)
  then show ?case using assms(3) by (auto split: option.splits)
qed simp

text \<open>The shared state, the owner of the mutex with the number of its locks, and the threads.\<close>

record ('w, 'r) threads_state =
  shared :: 'w
  owner :: "(nat \<times> nat) option"
  threads :: "('w, 'r) code list"

definition thread_step :: "bool \<Rightarrow> ('w, 'r) threads_state \<Rightarrow> nat \<Rightarrow> ('w, 'r) threads_state option" where
  "thread_step rec s i =
     (if i < length (threads s) then
        (case threads s ! i of
           Finish r \<Rightarrow> None
         | LockM c \<Rightarrow>
             (case owner s of
                None \<Rightarrow> Some (s\<lparr>owner := Some (i, 1), threads := (threads s)[i := c]\<rparr>)
              | Some (j, n) \<Rightarrow>
                  if rec \<and> j = i then Some (s\<lparr>owner := Some (i, Suc n), threads := (threads s)[i := c]\<rparr>)
                  else None)
         | UnlockM c \<Rightarrow>
             (case owner s of
                None \<Rightarrow> None
              | Some (j, n) \<Rightarrow>
                  if j = i
                  then Some (s\<lparr>owner := (if n \<le> 1 then None else Some (i, n - 1)), threads := (threads s)[i := c]\<rparr>)
                  else None)
         | Act u k \<Rightarrow> Some (s\<lparr>shared := u (shared s), threads := (threads s)[i := k (shared s)]\<rparr>))
      else None)"

text \<open>The same with critical sections as single steps.\<close>

definition block_step :: "'w \<times> ('w, 'r) code list \<Rightarrow> nat \<Rightarrow> ('w \<times> ('w, 'r) code list) option" where
  "block_step s i =
     (if i < length (snd s) then
        (case snd s ! i of
           LockM c \<Rightarrow> (case run_block c 1 (fst s) of (w', c') \<Rightarrow> Some (w', (snd s)[i := c']))
         | _ \<Rightarrow> None)
      else None)"

text \<open>The state in which the thread that holds the mutex has already left its section.\<close>

definition finish_block :: "('w, 'r) threads_state \<Rightarrow> 'w \<times> ('w, 'r) code list" where
  "finish_block s =
     (case owner s of
        None \<Rightarrow> (shared s, threads s)
      | Some (i, n) \<Rightarrow>
          (case run_block (threads s ! i) n (shared s) of (w', c') \<Rightarrow> (w', (threads s)[i := c'])))"

fun held :: "(nat \<times> nat) option \<Rightarrow> nat \<Rightarrow> nat" where
  "held None j = 0"
| "held (Some (i, n)) j = (if i = j then n else 0)"

definition threads_inv :: "bool \<Rightarrow> ('w, 'r) threads_state \<Rightarrow> bool" where
  "threads_inv rec s \<longleftrightarrow>
     (\<forall>j < length (threads s). protected rec (threads s ! j) (held (owner s) j)) \<and>
     (\<forall>i n. owner s = Some (i, n) \<longrightarrow> i < length (threads s) \<and> 0 < n)"

section \<open>The invariant\<close>

text \<open>How a step can have been made.\<close>

lemma thread_step_cases:
  assumes "thread_step rec s i = Some s'"
  obtains (lock) c where "i < length (threads s)" "threads s ! i = LockM c" "owner s = None"
    "s' = s\<lparr>owner := Some (i, 1), threads := (threads s)[i := c]\<rparr>"
  | (relock) c n where "i < length (threads s)" "threads s ! i = LockM c" "owner s = Some (i, n)" "rec"
    "s' = s\<lparr>owner := Some (i, Suc n), threads := (threads s)[i := c]\<rparr>"
  | (unlock) c n where "i < length (threads s)" "threads s ! i = UnlockM c" "owner s = Some (i, n)"
    "s' = s\<lparr>owner := (if n \<le> 1 then None else Some (i, n - 1)), threads := (threads s)[i := c]\<rparr>"
  | (act) u k where "i < length (threads s)" "threads s ! i = Act u k"
    "s' = s\<lparr>shared := u (shared s), threads := (threads s)[i := k (shared s)]\<rparr>"
  using assms by (auto simp: thread_step_def split: if_splits code.splits option.splits)

lemma threads_invD:
  "threads_inv rec s \<Longrightarrow> j < length (threads s) \<Longrightarrow> protected rec (threads s ! j) (held (owner s) j)"
  "threads_inv rec s \<Longrightarrow> owner s = Some (i, n) \<Longrightarrow> i < length (threads s) \<and> 0 < n"
  by (simp_all add: threads_inv_def)

lemma thread_step_inv:
  assumes "threads_inv rec s" and "thread_step rec s i = Some s'"
  shows "threads_inv rec s'"
  using assms(2)
proof (cases rule: thread_step_cases)
  case (lock c)
  have "protected rec c 1" using threads_invD(1) [OF assms(1) lock(1)] lock(2,3) by simp
  then show ?thesis using assms(1) lock by (auto simp: threads_inv_def nth_list_update)
next
  case (relock c n)
  have "protected rec c (Suc n)" using threads_invD(1) [OF assms(1) relock(1)] relock(2,3) by auto
  then show ?thesis using assms(1) relock by (auto simp: threads_inv_def nth_list_update)
next
  case (unlock c n)
  have "0 < n \<and> protected rec c (n - 1)" using threads_invD(1) [OF assms(1) unlock(1)] unlock(2,3) by simp
  then show ?thesis using assms(1) unlock by (cases "n \<le> 1") (auto simp: threads_inv_def nth_list_update)
next
  case (act u k)
  have "protected rec (k (shared s)) (held (owner s) i)"
    using threads_invD(1) [OF assms(1) act(1)] act(2) by simp
  then show ?thesis using assms(1) act by (auto simp: threads_inv_def nth_list_update)
qed

section \<open>Critical sections are atomic\<close>

lemma thread_step_block:
  assumes "threads_inv rec s" and "thread_step rec s i = Some s'"
  shows "finish_block s' = finish_block s \<or> block_step (finish_block s) i = Some (finish_block s')"
  using assms(2)
proof (cases rule: thread_step_cases)
  case (lock c)
  then show ?thesis
    by (auto simp: finish_block_def block_step_def split: prod.split)
next
  case (relock c n)
  then show ?thesis by (auto simp: finish_block_def split: prod.split)
next
  case (unlock c n)
  then show ?thesis by (cases "n \<le> 1") (auto simp: finish_block_def split: prod.split)
next
  case (act u k)
  have "held (owner s) i > 0" using threads_invD(1) [OF assms(1) act(1)] act(2) by simp
  then obtain n where "owner s = Some (i, n)" by (cases "owner s") (auto split: if_splits)
  then show ?thesis using act by (auto simp: finish_block_def split: prod.split)
qed

theorem sections_atomic:
  assumes "threads_inv rec s" and "run_list (thread_step rec) s sched = Some s'"
  shows "\<exists>order. run_list block_step (finish_block s) order = Some (finish_block s')"
  using assms
proof (induction sched arbitrary: s)
  case Nil
  then show ?case by (intro exI [of _ "[]"]) simp
next
  case (Cons i sched)
  obtain s1 where s1: "thread_step rec s i = Some s1" "run_list (thread_step rec) s1 sched = Some s'"
    using Cons.prems(2) by (auto split: option.splits)
  obtain order where o: "run_list block_step (finish_block s1) order = Some (finish_block s')"
    using Cons.IH [OF thread_step_inv [OF Cons.prems(1) s1(1)] s1(2)] by blast
  show ?case
    using thread_step_block [OF Cons.prems(1) s1(1)]
  proof
    assume "finish_block s1 = finish_block s"
    then show ?thesis using o by auto
  next
    assume "block_step (finish_block s) i = Some (finish_block s1)"
    then show ?thesis using o by (intro exI [of _ "i # order"]) simp
  qed
qed

section \<open>Progress and termination\<close>

definition is_finished :: "('w, 'r) code \<Rightarrow> bool" where
  "is_finished c = (case c of Finish r \<Rightarrow> True | _ \<Rightarrow> False)"

lemma is_finished_iff: "is_finished c \<longleftrightarrow> (\<exists>r. c = Finish r)"
  by (cases c) (simp_all add: is_finished_def)

text \<open>The owner can always go on, and without an owner everybody can.\<close>

lemma some_thread_moves:
  assumes "threads_inv rec s" and "j < length (threads s)" and "\<not> is_finished (threads s ! j)"
  shows "\<exists>i s'. thread_step rec s i = Some s'"
proof (cases "owner s")
  case None
  then have "protected rec (threads s ! j) 0" using threads_invD(1) [OF assms(1,2)] by simp
  then obtain c where "threads s ! j = LockM c"
    using assms(3) by (cases "threads s ! j") (auto simp: is_finished_def)
  then show ?thesis using assms(2) None by (auto simp: thread_step_def intro!: exI [of _ j])
next
  case (Some ow)
  obtain i n where ow: "owner s = Some (i, n)" using Some by (cases ow) auto
  have i: "i < length (threads s)" "0 < n" using threads_invD(2) [OF assms(1) ow] by auto
  have p: "protected rec (threads s ! i) n" using threads_invD(1) [OF assms(1) i(1)] ow by simp
  show ?thesis
    using i p ow by (cases "threads s ! i") (auto simp: thread_step_def intro!: exI [of _ i])
qed

inductive child :: "('w, 'r) code \<Rightarrow> ('w, 'r) code \<Rightarrow> bool" where
  child_lock: "child c (LockM c)"
| child_unlock: "child c (UnlockM c)"
| child_act: "child (k w) (Act u k)"

inductive_simps child_simps [simp]:
  "child d (Finish r)" "child d (LockM c)" "child d (UnlockM c)" "child d (Act u k)"

lemma wf_child: "wf {(d, c :: ('w, 'r) code). child d c}"
proof (rule wfUNIVI)
  fix P :: "('w, 'r) code \<Rightarrow> bool" and c
  assume step: "\<forall>c. (\<forall>d. (d, c) \<in> {(d, c). child d c} \<longrightarrow> P d) \<longrightarrow> P c"
  show "P c"
  proof (induction c)
    case (Act u k)
    have "\<forall>d. (d, Act u k) \<in> {(d, c). child d c} \<longrightarrow> P d" using Act by auto
    with step show ?case by blast
  qed (use step in auto)
qed

lemma thread_step_child:
  assumes "thread_step rec s i = Some s'"
  obtains d where "i < length (threads s)" "child d (threads s ! i)" "threads s' = (threads s)[i := d]"
  using assms by (cases rule: thread_step_cases) auto

lemma mset_update_mult1:
  assumes "i < length xs" and "(d, xs ! i) \<in> r"
  shows "(mset (xs[i := d]), mset xs) \<in> mult1 r"
proof -
  have "mset xs = add_mset (xs ! i) (mset xs - {#xs ! i#})" using assms(1) by simp
  moreover have "mset (xs[i := d]) = (mset xs - {#xs ! i#}) + {#d#}"
    using assms(1) by (simp add: mset_update)
  ultimately show ?thesis unfolding mult1_def using assms(2) by fastforce
qed

text \<open>The remaining code gets smaller with every step, whoever moves.\<close>

theorem schedules_terminate: "wf {(s', s). \<exists>i. thread_step rec s i = Some s'}"
proof (rule wf_subset)
  show "wf (inv_image (mult1 {(d, c). child d c}) (\<lambda>s. mset (threads s)))"
    by (rule wf_inv_image [OF wf_mult1 [OF wf_child]])
  show "{(s', s). \<exists>i. thread_step rec s i = Some s'} \<subseteq>
      inv_image (mult1 {(d, c). child d c}) (\<lambda>s. mset (threads s))"
  proof (clarsimp simp: inv_image_def)
    fix s s' :: "('w, 'r) threads_state" and i
    assume "thread_step rec s i = Some s'"
    then obtain d where d: "i < length (threads s)" "child d (threads s ! i)" "threads s' = (threads s)[i := d]"
      by (rule thread_step_child)
    show "(mset (threads s'), mset (threads s)) \<in> mult1 {(d, c). child d c}"
      using mset_update_mult1 [of i "threads s" d "{(d, c). child d c}"] d by simp
  qed
qed

end
