(* ===== verification/Mutex_Ops.thy ===== *)
theory Mutex_Ops
  imports Mutex_Threads
begin

text \<open>
  Threads that each run a list of operations, as the interface \<open>mutex_ops\<close>: each operation
  holds the mutex from its first step to its last and, alone, does what \<open>sem\<close> says. The
  lemmas of the locale are proved once and used for the tables and for the configuration.
\<close>

section \<open>Programs as code\<close>

text \<open>A program as one step, a program or a code with its result mapped.\<close>

definition step_code :: "('w, 'a) prog \<Rightarrow> ('w, 'a outcome) code" where
  "step_code p = call p Finish"

definition map_prog :: "('a \<Rightarrow> 'b) \<Rightarrow> ('w, 'a) prog \<Rightarrow> ('w, 'b) prog" where
  "map_prog f p = bindp p (\<lambda>a. ret (f a))"

definition map_code :: "('a \<Rightarrow> 'b) \<Rightarrow> ('w, 'a outcome) code \<Rightarrow> ('w, 'b outcome) code" where
  "map_code f c = seqc c (\<lambda>a. Finish (Ret (f a)))"

text \<open>What a thread that has ended has computed.\<close>

fun code_result :: "('w, 'r) code \<Rightarrow> 'r option" where
  "code_result (Finish r) = Some r"
| "code_result _ = None"

lemma code_result_Some: "code_result c = Some r \<longleftrightarrow> c = Finish r"
  by (cases c) simp_all

lemma run_step_code [simp]: "run (step_code p) = p"
  by (rule ext) (simp add: step_code_def)

lemma run_seqc_fun: "run (seqc c f) = bindp (run c) (\<lambda>a. run (f a))"
  by (rule ext) (rule run_seqc_bindp)

lemma run_guarded_fun: "run (guarded c) = run c"
  by (rule ext) simp

lemma run_Finish_Ret: "run (Finish (Ret a)) = ret a"
  by (rule ext) simp

lemma run_map_code: "run (map_code f c) = map_prog f (run c)"
  unfolding map_code_def map_prog_def run_seqc_fun run_Finish_Ret ..

lemma balanced_step_code: "balanced rec (step_code p) 0"
  by (simp add: step_code_def balanced_call)

text \<open>Code that holds the mutex from its first step to its last.\<close>

definition guarded_code :: "bool \<Rightarrow> ('w, 'r) code \<Rightarrow> bool" where
  "guarded_code rec c \<longleftrightarrow> (\<exists>d. c = guarded d \<and> balanced rec d 0)"

lemma guarded_codeI: "balanced rec d 0 \<Longrightarrow> guarded_code rec (guarded d)"
  by (auto simp: guarded_code_def)

lemma guarded_bindc_Finish: "bindc (guarded c) (\<lambda>r. Finish (f r)) = guarded (bindc c (\<lambda>r. Finish (f r)))"
  by (simp add: guarded_def bindc_assoc)

lemma guarded_map_code: "guarded_code rec c \<Longrightarrow> guarded_code rec (map_code f c)"
proof -
  assume "guarded_code rec c"
  then obtain d where d: "c = guarded d" "balanced rec d 0" by (auto simp: guarded_code_def)
  have f: "(\<lambda>r. case r of Ret a \<Rightarrow> Finish (Ret (f a)) | Throw e \<Rightarrow> Finish (Throw e) | Hang \<Rightarrow> Finish Hang) =
      (\<lambda>r. Finish (case r of Ret a \<Rightarrow> Ret (f a) | Throw e \<Rightarrow> Throw e | Hang \<Rightarrow> Hang))"
    by (rule ext) (simp split: outcome.split)
  show ?thesis
    unfolding map_code_def seqc_def f d(1) guarded_bindc_Finish
    by (rule guarded_codeI) (simp add: balanced_bindc0 d(2))
qed

section \<open>Threads\<close>

text \<open>A thread: its operations in order, collecting their results.\<close>

primrec ops_code :: "('op \<Rightarrow> ('w, 'r) code) \<Rightarrow> 'op list \<Rightarrow> 'r list \<Rightarrow> ('w, 'r list) code" where
  "ops_code code [] = (\<lambda>rs. Finish rs)"
| "ops_code code (x # xs) = (\<lambda>rs. bindc (code x) (\<lambda>r. ops_code code xs (rs @ [r])))"

definition start_threads :: "('op \<Rightarrow> ('w, 'r) code) \<Rightarrow> 'w \<Rightarrow> 'op list list \<Rightarrow> ('w, 'r list) threads_state" where
  "start_threads code w opss =
     \<lparr>shared = w, owner = None, threads = map (\<lambda>xs. ops_code code xs []) opss\<rparr>"

text \<open>The specification: one operation after the other, each by the thread that is named.\<close>

definition serial_step ::
  "('op \<Rightarrow> 'w \<Rightarrow> 'r \<times> 'w) \<Rightarrow> 'w \<times> ('op list \<times> 'r list) list \<Rightarrow> nat \<Rightarrow>
     ('w \<times> ('op list \<times> 'r list) list) option" where
  "serial_step sem s i =
     (if i < length (snd s) then
        (case snd s ! i of
           ([], rs) \<Rightarrow> None
         | (x # xs, rs) \<Rightarrow> (case sem x (fst s) of (r, w') \<Rightarrow> Some (w', (snd s)[i := (xs, rs @ [r])])))
      else None)"

definition serial_run ::
  "('op \<Rightarrow> 'w \<Rightarrow> 'r \<times> 'w) \<Rightarrow> 'w \<Rightarrow> 'op list list \<Rightarrow> nat list \<Rightarrow> ('w \<times> ('op list \<times> 'r list) list) option" where
  "serial_run sem w opss = run_list (serial_step sem) (w, map (\<lambda>xs. (xs, [])) opss)"

text \<open>All threads have ended, with these results.\<close>

definition all_finished :: "('w, 'r) threads_state \<Rightarrow> 'r list \<Rightarrow> bool" where
  "all_finished s rs \<longleftrightarrow> threads s = map Finish rs"

definition op_counts :: "'w \<times> ('op list \<times> 'r list) list \<Rightarrow> nat list" where
  "op_counts s = map (\<lambda>(xs, rs). length xs + length rs) (snd s)"

lemma serial_step_counts:
  assumes "serial_step sem s i = Some s'"
  shows "op_counts s' = op_counts s"
proof -
  obtain x xs rs r w' where "i < length (snd s)" "snd s ! i = (x # xs, rs)"
    "s' = (w', (snd s)[i := (xs, rs @ [r])])"
    using assms by (auto simp: serial_step_def split: if_splits prod.splits list.splits)
  then show ?thesis
    by (auto simp: op_counts_def map_update intro!: list_update_same_conv [THEN iffD2])
qed

lemma serial_list_counts: "run_list (serial_step sem) s order = Some s' \<Longrightarrow> op_counts s' = op_counts s"
proof (induction order arbitrary: s)
  case (Cons i order)
  then show ?case by (auto split: option.splits dest!: serial_step_counts)
qed simp

text \<open>Every operation has exactly one result.\<close>

lemma serial_run_lengths:
  assumes "serial_run sem w opss order = Some (w', map (\<lambda>rs. ([], rs)) rss)"
  shows "map length rss = map length opss"
  using serial_list_counts [OF assms [unfolded serial_run_def]] by (simp add: op_counts_def comp_def)

text \<open>
  Replacing the operations by those of a simpler state: each operation keeps \<open>rel\<close> and has the
  answer \<open>g\<close> makes of its result.
\<close>

definition op_refines ::
  "('op \<Rightarrow> bool) \<Rightarrow> ('s \<Rightarrow> 'a \<Rightarrow> bool) \<Rightarrow> ('op \<Rightarrow> 's \<Rightarrow> 'r \<times> 's) \<Rightarrow> ('op \<Rightarrow> 'a \<Rightarrow> 'q \<times> 'a) \<Rightarrow> ('r \<Rightarrow> 'q) \<Rightarrow> bool" where
  "op_refines op_ok rel sem spec g \<longleftrightarrow>
     (\<forall>x s a r s'. op_ok x \<longrightarrow> rel s a \<longrightarrow> sem x s = (r, s') \<longrightarrow> (\<exists>a'. spec x a = (g r, a') \<and> rel s' a'))"

lemma serial_step_refines:
  assumes "op_refines op_ok rel sem spec g"
    and "rel (fst t) a" and "\<forall>p \<in> set (snd t). \<forall>x \<in> set (fst p). op_ok x"
    and "serial_step sem t i = Some t'"
  shows "\<exists>a'. serial_step spec (a, map (\<lambda>(xs, rs). (xs, map g rs)) (snd t)) i =
      Some (a', map (\<lambda>(xs, rs). (xs, map g rs)) (snd t')) \<and> rel (fst t') a' \<and>
    (\<forall>p \<in> set (snd t'). \<forall>x \<in> set (fst p). op_ok x)"
proof -
  obtain x xs rs r w' where i: "i < length (snd t)" "snd t ! i = (x # xs, rs)" and
    r: "sem x (fst t) = (r, w')" and t': "t' = (w', (snd t)[i := (xs, rs @ [r])])"
    using assms(4) by (auto simp: serial_step_def split: if_splits prod.splits list.splits)
  have m: "(x # xs, rs) \<in> set (snd t)" using i nth_mem by metis
  then have x: "op_ok x" and xs: "\<forall>y \<in> set xs. op_ok y" using assms(3) by auto
  obtain a' where a': "spec x a = (g r, a')" "rel w' a'" using assms(1,2) x r unfolding op_refines_def by blast
  have "\<forall>p \<in> set ((snd t)[i := (xs, rs @ [r])]). \<forall>y \<in> set (fst p). op_ok y"
    using assms(3) xs set_update_subset_insert [of "snd t" i "(xs, rs @ [r])"] by fastforce
  then show ?thesis
    using i a' by (simp add: t' serial_step_def map_update)
qed

lemma serial_run_refines:
  assumes "op_refines op_ok rel sem spec g"
    and "rel (fst t) a" and "\<forall>p \<in> set (snd t). \<forall>x \<in> set (fst p). op_ok x"
    and "run_list (serial_step sem) t order = Some t'"
  shows "\<exists>a'. run_list (serial_step spec) (a, map (\<lambda>(xs, rs). (xs, map g rs)) (snd t)) order =
      Some (a', map (\<lambda>(xs, rs). (xs, map g rs)) (snd t')) \<and> rel (fst t') a'"
  using assms(2-4)
proof (induction order arbitrary: t a)
  case (Cons i order)
  obtain t1 where t1: "serial_step sem t i = Some t1" "run_list (serial_step sem) t1 order = Some t'"
    using Cons.prems(3) by (auto split: option.splits)
  obtain a1 where a1: "serial_step spec (a, map (\<lambda>(xs, rs). (xs, map g rs)) (snd t)) i =
      Some (a1, map (\<lambda>(xs, rs). (xs, map g rs)) (snd t1))" "rel (fst t1) a1"
    "\<forall>p \<in> set (snd t1). \<forall>x \<in> set (fst p). op_ok x"
    using serial_step_refines [OF assms(1) Cons.prems(1,2) t1(1)] by blast
  show ?case using Cons.IH [OF a1(2,3) t1(2)] a1(1) by simp
qed simp

lemma serial_run_spec:
  assumes "op_refines op_ok rel sem spec g" and "rel w a" and "\<forall>xs \<in> set opss. \<forall>x \<in> set xs. op_ok x"
    and "serial_run sem w opss order = Some (w', map (\<lambda>rs. ([], rs)) rss)"
  shows "\<exists>a'. serial_run spec a opss order = Some (a', map (\<lambda>rs. ([], map g rs)) rss) \<and> rel w' a'"
  using serial_run_refines [OF assms(1) _ _ assms(4) [unfolded serial_run_def], where a = a] assms(2,3)
  by (auto simp: serial_run_def comp_def)

text \<open>The threads of the code and those of the specification, between two operations.\<close>

definition related ::
  "('op \<Rightarrow> ('w, 'r) code) \<Rightarrow> ('w \<Rightarrow> bool) \<Rightarrow> ('op \<Rightarrow> bool) \<Rightarrow>
     'w \<times> ('w, 'r list) code list \<Rightarrow> 'w \<times> ('op list \<times> 'r list) list \<Rightarrow> bool" where
  "related code ok op_ok s t \<longleftrightarrow>
     fst t = fst s \<and> ok (fst s) \<and> snd s = map (\<lambda>(xs, rs). ops_code code xs rs) (snd t) \<and>
     (\<forall>p \<in> set (snd t). \<forall>x \<in> set (fst p). op_ok x)"

locale mutex_ops =
  fixes rec :: bool
    and code :: "'op \<Rightarrow> ('w, 'r) code"
    and sem :: "'op \<Rightarrow> 'w \<Rightarrow> 'r \<times> 'w"
    and ok :: "'w \<Rightarrow> bool"
    and op_ok :: "'op \<Rightarrow> bool"
  assumes code_guarded: "op_ok x \<Longrightarrow> \<exists>c. code x = guarded c \<and> balanced rec c 0"
    and code_sem: "ok w \<Longrightarrow> op_ok x \<Longrightarrow> run (code x) w = sem x w"
    and sem_ok: "ok w \<Longrightarrow> op_ok x \<Longrightarrow> sem x w = (r, w') \<Longrightarrow> ok w'"
begin

lemma op_code_shape:
  assumes "op_ok x"
  obtains c where "bindc (code x) f = LockM (bindc c (\<lambda>r. UnlockM (f r)))" "code x = guarded c"
    "balanced rec c 0"
  using code_guarded [OF assms] by (auto simp: guarded_def bindc_assoc)

lemma ops_protected: "\<forall>x \<in> set xs. op_ok x \<Longrightarrow> protected rec (ops_code code xs rs) 0"
proof (induction xs arbitrary: rs)
  case (Cons x xs)
  obtain c where c: "bindc (code x) (\<lambda>r. ops_code code xs (rs @ [r])) =
      LockM (bindc c (\<lambda>r. UnlockM (ops_code code xs (rs @ [r]))))" "balanced rec c 0"
    using op_code_shape [of x] Cons.prems by (metis list.set_intros(1))
  have "protected rec (bindc c (\<lambda>r. UnlockM (ops_code code xs (rs @ [r])))) 1"
    using protected_bindc [OF c(2), of 1 "\<lambda>r. UnlockM (ops_code code xs (rs @ [r]))"] Cons by simp
  then show ?case by (simp add: c(1))
qed simp

lemma start_inv: "\<forall>xs \<in> set opss. \<forall>x \<in> set xs. op_ok x \<Longrightarrow> threads_inv rec (start_threads code w opss)"
  by (auto simp: threads_inv_def start_threads_def intro!: ops_protected)

text \<open>A critical section of such a thread is one of its operations.\<close>

lemma block_is_op:
  assumes "related code ok op_ok s t" and "block_step s i = Some s'"
  shows "\<exists>t'. serial_step sem t i = Some t' \<and> related code ok op_ok s' t'"
proof -
  obtain w ts where s: "s = (w, ts)" by fastforce
  obtain ps where t: "t = (w, ps)" using assms(1) s by (cases t) (simp add: related_def)
  have ts: "ts = map (\<lambda>(xs, rs). ops_code code xs rs) ps" and w: "ok w"
    and ops: "\<forall>p \<in> set ps. \<forall>x \<in> set (fst p). op_ok x"
    using assms(1) s t by (simp_all add: related_def)
  obtain c w' c' where i: "i < length ps" and c: "ts ! i = LockM c" and b: "run_block c 1 w = (w', c')"
    and s': "s' = (w', ts[i := c'])"
    using assms(2) s ts by (auto simp: block_step_def split: if_splits code.splits prod.splits)
  obtain xs0 rs where p: "ps ! i = (xs0, rs)" by fastforce
  then obtain x xs where xs: "xs0 = x # xs" using c ts i by (cases xs0) auto
  have pm: "(x # xs, rs) \<in> set ps" using p xs i nth_mem by metis
  have x: "op_ok x" and xs_ok: "\<forall>y \<in> set xs. op_ok y" using ops pm by auto
  obtain d where d: "bindc (code x) (\<lambda>r. ops_code code xs (rs @ [r])) =
      LockM (bindc d (\<lambda>r. UnlockM (ops_code code xs (rs @ [r]))))" "code x = guarded d" "balanced rec d 0"
    by (rule op_code_shape [OF x])
  have cd: "c = bindc d (\<lambda>r. UnlockM (ops_code code xs (rs @ [r])))" using c ts i p xs d(1) by simp
  have sem: "sem x w = run d w" using code_sem [OF w x] d(2) by simp
  have wc: "w' = snd (sem x w)" "c' = ops_code code xs (rs @ [fst (sem x w)])"
    using b run_block_guarded [OF d(3), of "\<lambda>r. ops_code code xs (rs @ [r])" w] by (simp_all add: cd sem)
  let ?t = "(w', ps[i := (xs, rs @ [fst (sem x w)])])"
  have st: "serial_step sem t i = Some ?t"
    using i p xs wc(1) by (simp add: serial_step_def t split: prod.split)
  have ok': "ok w'" using sem_ok [OF w x] wc(1) by (metis prod.collapse)
  have "\<forall>q \<in> set (ps[i := (xs, rs @ [fst (sem x w)])]). \<forall>y \<in> set (fst q). op_ok y"
    using ops xs_ok set_update_subset_insert [of ps i] by fastforce
  then have "related code ok op_ok s' ?t" using ok' by (simp add: related_def s' ts wc(2) map_update)
  then show ?thesis using st by blast
qed

lemma blocks_are_ops:
  "related code ok op_ok s t \<Longrightarrow> run_list block_step s order = Some s' \<Longrightarrow>
     \<exists>t'. run_list (serial_step sem) t order = Some t' \<and> related code ok op_ok s' t'"
proof (induction order arbitrary: s t)
  case (Cons i order)
  obtain s1 where s1: "block_step s i = Some s1" "run_list block_step s1 order = Some s'"
    using Cons.prems(2) by (auto split: option.splits)
  obtain t1 where "serial_step sem t i = Some t1" "related code ok op_ok s1 t1"
    using block_is_op [OF Cons.prems(1) s1(1)] by blast
  then show ?case using Cons.IH [OF _ s1(2)] by auto
qed simp

lemma ops_code_finished: "\<forall>x \<in> set xs. op_ok x \<Longrightarrow> ops_code code xs rs = Finish q \<Longrightarrow> xs = [] \<and> rs = q"
proof (cases xs)
  case (Cons x ys)
  assume a: "\<forall>x \<in> set xs. op_ok x" "ops_code code xs rs = Finish q"
  then obtain c where "bindc (code x) (\<lambda>r. ops_code code ys (rs @ [r])) =
      LockM (bindc c (\<lambda>r. UnlockM (ops_code code ys (rs @ [r]))))"
    using op_code_shape [of x] Cons by (metis list.set_intros(1))
  then show ?thesis using a(2) Cons by simp
qed simp

text \<open>Every finished run has the results and the state of a serial one.\<close>

lemma serializable:
  assumes "ok w" and "\<forall>xs \<in> set opss. \<forall>x \<in> set xs. op_ok x"
    and "run_list (thread_step rec) (start_threads code w opss) sched = Some s" and "all_finished s rss"
  shows "\<exists>order. serial_run sem w opss order = Some (shared s, map (\<lambda>rs. ([], rs)) rss)"
proof -
  let ?s0 = "start_threads code w opss"
  have inv0: "threads_inv rec ?s0" by (rule start_inv [OF assms(2)])
  have inv: "threads_inv rec s"
    by (rule run_list_invariant [OF assms(3), where P = "threads_inv rec", OF inv0 thread_step_inv])
  have ow: "owner s = None"
  proof (rule ccontr)
    assume "owner s \<noteq> None"
    then obtain i n where o: "owner s = Some (i, n)" by auto
    note i = threads_invD(2) [OF inv o]
    have "protected rec (threads s ! i) n" using threads_invD(1) [OF inv] i o by fastforce
    then show False using assms(4) i by (simp add: all_finished_def)
  qed
  have fin: "finish_block s = (shared s, threads s)" "finish_block ?s0 = (w, map (\<lambda>xs. ops_code code xs []) opss)"
    using ow by (simp_all add: finish_block_def start_threads_def)
  obtain order where o: "run_list block_step (finish_block ?s0) order = Some (finish_block s)"
    using sections_atomic [OF inv0 assms(3)] by blast
  have rel: "related code ok op_ok (finish_block ?s0) (w, map (\<lambda>xs. (xs, [])) opss)"
    using assms(1,2) by (auto simp: related_def fin)
  obtain t where t: "run_list (serial_step sem) (w, map (\<lambda>xs. (xs, [])) opss) order = Some t"
    and r: "related code ok op_ok (finish_block s) t"
    using blocks_are_ops [OF rel o] by blast
  obtain ps where ps: "t = (shared s, ps)" using r by (cases t) (simp add: related_def fin)
  have m: "map Finish rss = map (\<lambda>(xs, rs). ops_code code xs rs) ps"
    and oks: "\<forall>p \<in> set ps. \<forall>x \<in> set (fst p). op_ok x"
    using r assms(4) by (simp_all add: related_def fin ps all_finished_def)
  have "ps = map (\<lambda>rs. ([], rs)) rss"
  proof (rule nth_equalityI)
    show len: "length ps = length (map (\<lambda>rs. ([], rs)) rss)" using m by (metis length_map)
    fix i assume i: "i < length ps"
    obtain xs rs where p: "ps ! i = (xs, rs)" by fastforce
    have "ops_code code xs rs = Finish (rss ! i)"
      using arg_cong [OF m, of "\<lambda>l. l ! i"] i p len by simp
    moreover have "\<forall>x \<in> set xs. op_ok x" using oks p i nth_mem by fastforce
    ultimately show "ps ! i = map (\<lambda>rs. ([], rs)) rss ! i"
      using ops_code_finished p i len by auto
  qed
  then show ?thesis using t ps by (auto simp: serial_run_def)
qed

text \<open>No run gets stuck before all threads have ended.\<close>

lemma never_stuck:
  assumes "\<forall>xs \<in> set opss. \<forall>x \<in> set xs. op_ok x"
    and "run_list (thread_step rec) (start_threads code w opss) sched = Some s"
  shows "(\<exists>rss. all_finished s rss) \<or> (\<exists>i s'. thread_step rec s i = Some s')"
proof (cases "\<forall>j < length (threads s). is_finished (threads s ! j)")
  case True
  then have "\<forall>c \<in> set (threads s). \<exists>r. c = Finish r" by (metis in_set_conv_nth is_finished_iff)
  then have "\<exists>rss. threads s = map Finish rss" by (simp add: ex_map_conv)
  then show ?thesis by (simp add: all_finished_def)
next
  case False
  have "threads_inv rec s"
    by (rule run_list_invariant [OF assms(2), where P = "threads_inv rec", OF start_inv [OF assms(1)] thread_step_inv])
  then show ?thesis using some_thread_moves False by blast
qed

end

end
