(* ===== verification/Table_Code.thy ===== *)
theory Table_Code
  imports Db_Tables Mutex_Ops
begin

text \<open>
  The operations of \<open>Daemon/db\<close> step by step, with the points at which they lock and unlock the
  static recursive mutex of \<open>ITable\<close>. \<open>RunTransaction\<close> and \<open>CreateGetFieldQuery\<close> lock it once
  more inside operations that hold it. Each lemma \<open>run_..\<close> says that one thread alone does what
  the single-step model of \<open>Itable\<close> and \<open>Db_Tables\<close> does.
\<close>

section \<open>Transactions and statements\<close>

text \<open>The destructor of \<open>SQLite::Transaction\<close> rolls back what was not committed.\<close>

definition rollback_code :: "('w, 'x) sql_api_scheme \<Rightarrow> exn \<Rightarrow> ('w, unit outcome) code" where
  "rollback_code sq e = call (sq_rollback sq) (\<lambda>_. Finish (Throw e))"

definition transaction_code ::
  "('w, 'x) sql_api_scheme \<Rightarrow> ('w \<Rightarrow> exn option \<times> 'w) \<Rightarrow> ('w, unit outcome) code" where
  "transaction_code sq body =
     call (sq_begin sq) (\<lambda>r. case r of
       Some e \<Rightarrow> Finish (Throw e)
     | None \<Rightarrow> call body (\<lambda>r. case r of
         Some e \<Rightarrow> rollback_code sq e
       | None \<Rightarrow> call (sq_commit sq) (\<lambda>r. case r of
           Some e \<Rightarrow> rollback_code sq e
         | None \<Rightarrow> Finish (Ret ()))))"

definition RunTransaction_code :: "('w, 'x) sql_api_scheme \<Rightarrow> string \<Rightarrow> ('w, unit outcome) code" where
  "RunTransaction_code sq cmd = guarded (transaction_code sq (sq_exec sq cmd))"

definition RunTransaction_stmt_code ::
  "('w, 'x) sql_api_scheme \<Rightarrow> string \<Rightarrow> sql_binds \<Rightarrow> ('w, unit outcome) code" where
  "RunTransaction_stmt_code sq cmd bs = guarded (transaction_code sq (sq_exec_stmt sq cmd bs))"

text \<open>Preparing a statement and running it in a transaction.\<close>

definition statement_code ::
  "('w, 'x) sql_api_scheme \<Rightarrow> string \<Rightarrow> sql_binds \<Rightarrow> ('w, unit outcome) code" where
  "statement_code sq cmd bs =
     seqc (step_code (make_statement sq cmd bs)) (\<lambda>_. RunTransaction_stmt_code sq cmd bs)"

section \<open>The operations of a table\<close>

definition IsExist_code :: "('w, 'x) sql_api_scheme \<Rightarrow> string \<Rightarrow> ('w, bool outcome) code" where
  "IsExist_code sq name = guarded (step_code (IsExist sq name))"

definition Drop_code :: "('w, 'x) sql_api_scheme \<Rightarrow> string \<Rightarrow> ('w, unit outcome) code" where
  "Drop_code sq name = RunTransaction_code sq (''DROP TABLE IF EXISTS '' @ name)"

text \<open>A query whose first cell is the answer.\<close>

definition get_code ::
  "('w, 'x) sql_api_scheme \<Rightarrow> string \<Rightarrow> (sql_value \<Rightarrow> 'r) \<Rightarrow> ('w, 'r outcome) code" where
  "get_code sq cmd f = guarded (seqc (step_code (exec_and_get sq cmd)) (\<lambda>v. Finish (Ret (f v))))"

definition IsCellPresent_code ::
  "('w, 'x) sql_api_scheme \<Rightarrow> string \<Rightarrow> string \<Rightarrow> string \<Rightarrow> ('w, bool outcome) code" where
  "IsCellPresent_code sq name field compareValue =
     get_code sq (cell_query name field compareValue) (\<lambda>v. cl_int sq v \<noteq> 0)"

definition CreateGetFieldQuery_code ::
  "('w, 'x) sql_api_scheme \<Rightarrow> string \<Rightarrow> string \<Rightarrow> string \<Rightarrow> sql_value \<Rightarrow> ('w, (string \<times> sql_binds) outcome) code" where
  "CreateGetFieldQuery_code sq name field filter_field v =
     guarded (step_code (CreateGetFieldQuery sq name field filter_field v))"

text \<open>The part of \<open>GetFieldValue\<close> after the query has been made.\<close>

definition single_row ::
  "('w, 'x) sql_api_scheme \<Rightarrow> (sql_value \<Rightarrow> 'r) \<Rightarrow> string \<Rightarrow> string \<Rightarrow> string \<times> sql_binds \<Rightarrow> ('w, 'r) prog" where
  "single_row sq get_column filter_field shown q w =
     (case sq_rows sq (fst q) (snd q) w of
        ([], None) \<Rightarrow> (Throw (LogicError ''There is no one results''), w)
      | ([], Some e) \<Rightarrow> (Throw e, w)
      | (x # xs, e) \<Rightarrow>
          if x = SqlNull then (Throw (OutOfRange ''Asked results is NULL''), w)
          else (case (xs, e) of
                  ([], None) \<Rightarrow> (Ret (get_column x), w)
                | ([], Some e) \<Rightarrow> (Throw e, w)
                | (_ # _, _) \<Rightarrow>
                    (Throw (LogicError (''There are more than one results for field='' @ filter_field @
                       '' and value='' @ shown)), w)))"

definition GetFieldValue_code ::
  "('w, 'x) sql_api_scheme \<Rightarrow> (sql_value \<Rightarrow> 'r) \<Rightarrow> string \<Rightarrow> string \<Rightarrow> string \<Rightarrow> sql_value \<Rightarrow>
     string \<Rightarrow> ('w, 'r outcome) code" where
  "GetFieldValue_code sq get_column name field filter_field v shown =
     guarded (seqc (CreateGetFieldQuery_code sq name field filter_field v)
       (\<lambda>q. step_code (single_row sq get_column filter_field shown q)))"

definition UpdateField_code ::
  "('w, 'x) sql_api_scheme \<Rightarrow> string \<Rightarrow> string \<Rightarrow> sql_value \<Rightarrow> string \<Rightarrow> sql_value \<Rightarrow> ('w, unit outcome) code" where
  "UpdateField_code sq name field new_value search_field search_value =
     guarded (statement_code sq (update_query name field search_field)
       [('':newValue'', new_value), ('':searchValue'', search_value)])"

definition RemoveRows_code ::
  "('w, 'x) sql_api_scheme \<Rightarrow> string \<Rightarrow> string \<Rightarrow> sql_value \<Rightarrow> ('w, unit outcome) code" where
  "RemoveRows_code sq name search_field search_value =
     guarded (statement_code sq (remove_query name search_field) [('':searchValue'', search_value)])"

section \<open>The operations of the three tables\<close>

definition Companies_Add_code ::
  "('w, 'x) sql_api_scheme \<Rightarrow> string \<Rightarrow> string \<Rightarrow> string \<Rightarrow> ('w, unit outcome) code" where
  "Companies_Add_code sq uuid name lg =
     guarded (statement_code sq companies_add_cmd
       [('':uuid'', SqlText uuid), ('':name'', SqlText name), ('':logo'', SqlText lg)])"

definition GetRowID_code :: "('w, 'x) sql_api_scheme \<Rightarrow> string \<Rightarrow> ('w, int64 outcome) code" where
  "GetRowID_code sq uuid = get_code sq (companies_rowid_cmd uuid) (cl_int64 sq)"

definition by_rowid_code ::
  "('w, 'x) sql_api_scheme \<Rightarrow> company_field \<Rightarrow> int64 \<Rightarrow> ('w, string outcome) code" where
  "by_rowid_code sq f rowId =
     GetFieldValue_code sq (cl_string sq) companies_name (companies_fields f) (companies_fields C_ID)
       (SqlInt rowId) (show_int (sint rowId))"

definition SetLogoByID_code :: "('w, 'x) sql_api_scheme \<Rightarrow> int64 \<Rightarrow> string \<Rightarrow> ('w, unit outcome) code" where
  "SetLogoByID_code sq rowId link =
     UpdateField_code sq companies_name (companies_fields C_LOGO) (SqlText link) (companies_fields C_ID)
       (SqlInt rowId)"

definition IsUUIDPresent_code :: "('w, 'x) sql_api_scheme \<Rightarrow> string \<Rightarrow> ('w, bool outcome) code" where
  "IsUUIDPresent_code sq uuid = IsCellPresent_code sq companies_name (companies_fields C_UUID) uuid"

definition IsIDPresent_code :: "('w, 'x) sql_api_scheme \<Rightarrow> int64 \<Rightarrow> ('w, bool outcome) code" where
  "IsIDPresent_code sq rowId = get_code sq (companies_id_cmd rowId) (\<lambda>v. cl_int sq v \<noteq> 0)"

definition RemoveByRowID_code :: "('w, 'x) sql_api_scheme \<Rightarrow> int64 \<Rightarrow> ('w, unit outcome) code" where
  "RemoveByRowID_code sq rowId = RemoveRows_code sq companies_name (companies_fields C_ID) (SqlInt rowId)"

text \<open>The prices prepare their statement before the mutex is taken.\<close>

definition Prices_Add_code ::
  "('w, 'x) sql_api_scheme \<Rightarrow> int64 \<Rightarrow> float32 \<Rightarrow> int64 \<Rightarrow> ('w, unit outcome) code" where
  "Prices_Add_code sq companyRowId pr ts =
     statement_code sq prices_add_cmd
       [('':rowid'', SqlInt companyRowId), ('':price'', SqlReal pr), ('':time'', SqlInt ts)]"

definition RemoveAllByCompanyRowID_code :: "('w, 'x) sql_api_scheme \<Rightarrow> int64 \<Rightarrow> ('w, unit outcome) code" where
  "RemoveAllByCompanyRowID_code sq companyRowId =
     RemoveRows_code sq prices_name (prices_fields P_COMPANY_ROWID) (SqlInt companyRowId)"

definition IsVersionPresent_code :: "('w, 'x) sql_api_scheme \<Rightarrow> ('w, bool outcome) code" where
  "IsVersionPresent_code sq = get_code sq version_present_cmd (\<lambda>v. cl_int sq v \<noteq> 0)"

definition DBVersion_Create_code :: "('w, 'x) sql_api_scheme \<Rightarrow> size_t \<Rightarrow> ('w, unit outcome) code" where
  "DBVersion_Create_code sq version =
     guarded
       (seqc (RunTransaction_code sq version_create_cmd) (\<lambda>_.
        seqc (IsVersionPresent_code sq) (\<lambda>present.
          if \<not> present then RunTransaction_code sq (version_insert_cmd version) else Finish (Ret ()))))"

definition DBVersion_Get_code :: "('w, 'x) sql_api_scheme \<Rightarrow> ('w, size_t outcome) code" where
  "DBVersion_Get_code sq = get_code sq version_get_cmd (\<lambda>v. ucast (cl_uint sq v))"

definition UpdateDBVersion_code :: "('w, 'x) sql_api_scheme \<Rightarrow> size_t \<Rightarrow> ('w, unit outcome) code" where
  "UpdateDBVersion_code sq newVersion = RunTransaction_code sq (version_update_cmd newVersion)"

section \<open>One thread alone\<close>

lemma run_transaction_code: "run (transaction_code sq body) w = run_transaction sq body w"
  by (simp add: transaction_code_def run_transaction_def rollback_code_def split: option.split prod.split)

lemma run_RunTransaction: "run (RunTransaction_code sq cmd) = RunTransaction sq cmd"
  and run_RunTransaction_stmt: "run (RunTransaction_stmt_code sq cmd bs) = RunTransaction_stmt sq cmd bs"
  by (auto simp: RunTransaction_code_def RunTransaction_def RunTransaction_stmt_code_def
      RunTransaction_stmt_def run_transaction_code)

lemma run_statement:
  "run (statement_code sq cmd bs) = thenp (make_statement sq cmd bs) (RunTransaction_stmt sq cmd bs)"
  by (simp add: statement_code_def run_seqc_fun run_RunTransaction_stmt thenp_def)

lemma run_get_code: "run (get_code sq cmd f) = bindp (exec_and_get sq cmd) (\<lambda>v. ret (f v))"
  by (simp add: get_code_def run_guarded_fun run_seqc_fun run_Finish_Ret)

lemma GetFieldValue_single_row:
  "GetFieldValue sq get_column name field filter_field v shown =
     bindp (CreateGetFieldQuery sq name field filter_field v) (single_row sq get_column filter_field shown)"
  unfolding GetFieldValue_def by (intro arg_cong [where f = "bindp _"] ext) (simp add: single_row_def)

lemma run_GetFieldValue:
  "run (GetFieldValue_code sq get_column name field filter_field v shown) =
     GetFieldValue sq get_column name field filter_field v shown"
  by (simp add: GetFieldValue_code_def run_guarded_fun run_seqc_fun CreateGetFieldQuery_code_def
      GetFieldValue_single_row)

lemmas run_ops =
  run_guarded_fun run_statement run_get_code run_GetFieldValue run_RunTransaction run_seqc_fun

lemma run_table_ops:
  "run (IsExist_code sq name) = IsExist sq name"
  "run (Drop_code sq name) = Drop sq name"
  "run (Companies_Add_code sq u n l) = Companies_Add sq u n l"
  "run (GetRowID_code sq u) = GetRowID sq u"
  "run (by_rowid_code sq f i) = by_rowid sq f i"
  "run (SetLogoByID_code sq i l) = SetLogoByID sq i l"
  "run (IsUUIDPresent_code sq u) = IsUUIDPresent sq u"
  "run (IsIDPresent_code sq i) = IsIDPresent sq i"
  "run (RemoveByRowID_code sq i) = RemoveByRowID sq i"
  "run (RemoveAllByCompanyRowID_code sq i) = RemoveAllByCompanyRowID sq i"
  "run (Prices_Add_code sq i p t) = Prices_Add sq i p t"
  "run (DBVersion_Get_code sq) = DBVersion_Get sq"
  "run (UpdateDBVersion_code sq v) = UpdateDBVersion sq v"
  by (simp_all add: IsExist_code_def Drop_code_def Drop_def Companies_Add_code_def Companies_Add_def
      GetRowID_code_def GetRowID_def by_rowid_code_def by_rowid_def SetLogoByID_code_def SetLogoByID_def
      UpdateField_code_def UpdateField_def IsUUIDPresent_code_def IsUUIDPresent_def IsCellPresent_code_def
      IsCellPresent_def IsIDPresent_code_def IsIDPresent_def RemoveByRowID_code_def RemoveByRowID_def
      RemoveRows_code_def RemoveRows_def RemoveAllByCompanyRowID_code_def RemoveAllByCompanyRowID_def
      Prices_Add_code_def Prices_Add_def DBVersion_Get_code_def DBVersion_Get_def UpdateDBVersion_code_def
      UpdateDBVersion_def Let_def run_ops)

lemma run_DBVersion_Create: "run (DBVersion_Create_code sq v) = DBVersion_Create sq v"
  unfolding DBVersion_Create_code_def DBVersion_Create_def run_ops IsVersionPresent_code_def
    IsVersionPresent_def thenp_def DBVersion_Create_table_def
  by (intro arg_cong [where f = "bindp _"] ext) (simp add: run_RunTransaction run_Finish_Ret)

end
