(* ===== verification/Table_Threads.thy ===== *)
theory Table_Threads
  imports Table_Code Demo_Db
begin

text \<open>
  Several threads on the tables. All operations but the prices' \<open>Add\<close> hold the static mutex
  from their first step to their last, so that the locale \<open>mutex_ops\<close> applies to them.
\<close>

section \<open>The operations as a data type\<close>

datatype table_op =
    TableExists string
  | DropTable string
  | CreateTables string
  | CompaniesAdd string string string
  | CompaniesRowID string
  | CompaniesField company_field int64
  | CompaniesSetLogo int64 string
  | CompaniesHasUUID string
  | CompaniesHasID int64
  | CompaniesRemove int64
  | PricesRemove int64
  | VersionCreate size_t
  | VersionGet
  | VersionUpdate size_t

datatype table_result = NoResult | RowId int64 | Text string | Answer bool | Version size_t

text \<open>Each operation in one step, and step by step.\<close>

fun table_sem :: "('w, 'x) sql_api_scheme \<Rightarrow> table_op \<Rightarrow> ('w, table_result) prog" where
  "table_sem sq (TableExists n) = map_prog Answer (IsExist sq n)"
| "table_sem sq (DropTable n) = map_prog (\<lambda>_. NoResult) (Drop sq n)"
| "table_sem sq (CreateTables cmd) = map_prog (\<lambda>_. NoResult) (RunTransaction sq cmd)"
| "table_sem sq (CompaniesAdd u n l) = map_prog (\<lambda>_. NoResult) (Companies_Add sq u n l)"
| "table_sem sq (CompaniesRowID u) = map_prog RowId (GetRowID sq u)"
| "table_sem sq (CompaniesField f i) = map_prog Text (by_rowid sq f i)"
| "table_sem sq (CompaniesSetLogo i l) = map_prog (\<lambda>_. NoResult) (SetLogoByID sq i l)"
| "table_sem sq (CompaniesHasUUID u) = map_prog Answer (IsUUIDPresent sq u)"
| "table_sem sq (CompaniesHasID i) = map_prog Answer (IsIDPresent sq i)"
| "table_sem sq (CompaniesRemove i) = map_prog (\<lambda>_. NoResult) (RemoveByRowID sq i)"
| "table_sem sq (PricesRemove i) = map_prog (\<lambda>_. NoResult) (RemoveAllByCompanyRowID sq i)"
| "table_sem sq (VersionCreate v) = map_prog (\<lambda>_. NoResult) (DBVersion_Create sq v)"
| "table_sem sq VersionGet = map_prog Version (DBVersion_Get sq)"
| "table_sem sq (VersionUpdate v) = map_prog (\<lambda>_. NoResult) (UpdateDBVersion sq v)"

fun table_code :: "('w, 'x) sql_api_scheme \<Rightarrow> table_op \<Rightarrow> ('w, table_result outcome) code" where
  "table_code sq (TableExists n) = map_code Answer (IsExist_code sq n)"
| "table_code sq (DropTable n) = map_code (\<lambda>_. NoResult) (Drop_code sq n)"
| "table_code sq (CreateTables cmd) = map_code (\<lambda>_. NoResult) (RunTransaction_code sq cmd)"
| "table_code sq (CompaniesAdd u n l) = map_code (\<lambda>_. NoResult) (Companies_Add_code sq u n l)"
| "table_code sq (CompaniesRowID u) = map_code RowId (GetRowID_code sq u)"
| "table_code sq (CompaniesField f i) = map_code Text (by_rowid_code sq f i)"
| "table_code sq (CompaniesSetLogo i l) = map_code (\<lambda>_. NoResult) (SetLogoByID_code sq i l)"
| "table_code sq (CompaniesHasUUID u) = map_code Answer (IsUUIDPresent_code sq u)"
| "table_code sq (CompaniesHasID i) = map_code Answer (IsIDPresent_code sq i)"
| "table_code sq (CompaniesRemove i) = map_code (\<lambda>_. NoResult) (RemoveByRowID_code sq i)"
| "table_code sq (PricesRemove i) = map_code (\<lambda>_. NoResult) (RemoveAllByCompanyRowID_code sq i)"
| "table_code sq (VersionCreate v) = map_code (\<lambda>_. NoResult) (DBVersion_Create_code sq v)"
| "table_code sq VersionGet = map_code Version (DBVersion_Get_code sq)"
| "table_code sq (VersionUpdate v) = map_code (\<lambda>_. NoResult) (UpdateDBVersion_code sq v)"

section \<open>They hold the mutex throughout\<close>

lemma balanced_transaction: "balanced rec (transaction_code sq body) 0"
  unfolding transaction_code_def rollback_code_def
  by (intro balanced_call) (simp split: option.split add: balanced_call)

lemma balanced_RunTransaction: "balanced True (RunTransaction_code sq cmd) 0"
  and balanced_RunTransaction_stmt: "balanced True (RunTransaction_stmt_code sq cmd bs) 0"
  unfolding RunTransaction_code_def RunTransaction_stmt_code_def
  by (intro balanced_guarded balanced_transaction)+

lemma balanced_get_code: "balanced True (get_code sq cmd f) 0"
  unfolding get_code_def by (intro balanced_intros balanced_step_code)

lemma balanced_statement: "balanced True (statement_code sq cmd bs) 0"
  unfolding statement_code_def
  by (intro balanced_seqc balanced_step_code balanced_RunTransaction_stmt)

lemma guarded_code_parts:
  "guarded_code True (RunTransaction_code sq cmd)"
  "guarded_code True (get_code sq cmd f)"
  "guarded_code True (guarded (statement_code sq cmd bs))"
  "guarded_code True (guarded (step_code p))"
  unfolding RunTransaction_code_def get_code_def
  by (intro guarded_codeI balanced_transaction balanced_statement balanced_step_code balanced_intros)+

lemma guarded_GetFieldValue:
  "guarded_code True (GetFieldValue_code sq get_column name field filter_field v shown)"
  unfolding GetFieldValue_code_def CreateGetFieldQuery_code_def
  by (intro guarded_codeI balanced_seqc balanced_guarded balanced_step_code)

lemma guarded_DBVersion_Create: "guarded_code True (DBVersion_Create_code sq v)"
  unfolding DBVersion_Create_code_def IsVersionPresent_code_def
  by (intro guarded_codeI balanced_seqc balanced_RunTransaction balanced_get_code)
    (simp add: balanced_RunTransaction)

lemma table_code_guarded: "guarded_code True (table_code sq x)"
  by (cases x)
    (simp_all add: guarded_map_code guarded_code_parts guarded_GetFieldValue guarded_DBVersion_Create
      IsExist_code_def Drop_code_def Companies_Add_code_def GetRowID_code_def by_rowid_code_def
      SetLogoByID_code_def UpdateField_code_def IsUUIDPresent_code_def IsCellPresent_code_def
      IsIDPresent_code_def RemoveByRowID_code_def RemoveRows_code_def RemoveAllByCompanyRowID_code_def
      DBVersion_Get_code_def UpdateDBVersion_code_def)

lemma run_table_code: "run (table_code sq x) = table_sem sq x"
  by (cases x) (simp_all add: run_map_code run_table_ops run_DBVersion_Create run_RunTransaction)

interpretation tables: mutex_ops True "table_code sq" "table_sem sq" "\<lambda>_. True" "\<lambda>_. True"
  for sq :: "('w, 'x) sql_api_scheme"
proof unfold_locales
  fix x
  show "\<exists>c. table_code sq x = guarded c \<and> balanced True c 0"
    using table_code_guarded [of sq x] by (simp add: guarded_code_def)
qed (simp_all add: run_table_code)

section \<open>Properties\<close>


definition demo_opss :: "table_op list list" where
  "demo_opss = [[CompaniesAdd ''aapl'' ''Apple'' ''x'', VersionGet], [CompaniesRowID ''aapl'']]"

text \<open>The second thread takes its turn between the two operations of the first.\<close>

definition demo_sched :: "nat list" where
  "demo_sched = replicate 8 0 @ replicate 3 1 @ replicate 3 0"

definition demo_start :: "(demo_host, table_result outcome list) threads_state" where
  "demo_start = start_threads (table_code demo_sql) (([], 0), empty_db, empty_db) demo_opss"

lemma demo_run:
  obtains s where "run_list (thread_step True) demo_start demo_sched = Some s"
    and "all_finished s [[Ret NoResult, Ret (Version 1)], [Ret (RowId 1)]]"
proof -
  have "map_option (\<lambda>s. map code_result (threads s)) (run_list (thread_step True) demo_start demo_sched) =
      Some [Some [Ret NoResult, Ret (Version 1)], Some [Ret (RowId 1)]]"
    by code_simp
  then obtain s where "run_list (thread_step True) demo_start demo_sched = Some s"
    and "map code_result (threads s) = [Some [Ret NoResult, Ret (Version 1)], Some [Ret (RowId 1)]]"
    by auto
  then show thesis using that by (auto simp: all_finished_def code_result_Some map_eq_Cons_conv)
qed


text \<open>
  C18: Threads on the tables always finish. Whatever the scheduler has done so far, either all
  threads have ended or some thread can take a step, although operations lock the mutex
  again while they hold it; and no scheduler can go on for ever.
\<close>

theorem table_threads_finish:
  "(run_list (thread_step True) (start_threads (table_code sq) w opss) sched = Some s \<longrightarrow>
     (\<exists>rss. all_finished s rss) \<or> (\<exists>i s'. thread_step True s i = Some s')) \<and>
   \<not> (\<exists>f :: nat \<Rightarrow> _. f 0 = start_threads (table_code sq) w opss \<and>
        (\<forall>n. \<exists>i. thread_step True (f n) i = Some (f (Suc n))))"
proof (intro conjI impI notI)
  assume "run_list (thread_step True) (start_threads (table_code sq) w opss) sched = Some s"
  then show "(\<exists>rss. all_finished s rss) \<or> (\<exists>i s'. thread_step True s i = Some s')"
    by (rule tables.never_stuck [rotated]) simp
next
  assume "\<exists>f :: nat \<Rightarrow> _. f 0 = start_threads (table_code sq) w opss \<and>
    (\<forall>n. \<exists>i. thread_step True (f n) i = Some (f (Suc n)))"
  then show False
    using schedules_terminate [of True, unfolded wf_iff_no_infinite_down_chain] by blast
qed

theorem table_threads_finish_witness:
  "\<exists>s i s'. run_list (thread_step True) demo_start [0, 0, 0] = Some s \<and> thread_step True s i = Some s'"
proof -
  have "map_option (\<lambda>s. map code_result (threads s)) (run_list (thread_step True) demo_start [0, 0, 0]) =
      Some [None, None]" by code_simp
  then obtain s where s: "run_list (thread_step True) demo_start [0, 0, 0] = Some s"
    and n: "map code_result (threads s) = [None, None]" by auto
  have "\<not> all_finished s rss" for rss using n by (auto simp: all_finished_def map_eq_Cons_conv)
  then show ?thesis
    using table_threads_finish [where sq = demo_sql and w = "(([], 0), empty_db, empty_db)" and opss = demo_opss
        and sched = "[0, 0, 0]" and s = s] s by (auto simp: demo_start_def)
qed

text \<open>
  Why the mutex has to be recursive: with a plain one, \<open>Companies::Add\<close> would wait for itself
  in \<open>RunTransaction\<close>, whatever the other threads do.
\<close>

lemma plain_mutex_stuck:
  assumes "make_statement sq companies_add_cmd
      [('':uuid'', SqlText u), ('':name'', SqlText n), ('':logo'', SqlText l)] w = (Ret (), w')"
  shows "\<exists>s. run_list (thread_step False) (start_threads (table_code sq) w [[CompaniesAdd u n l]]) [0, 0] = Some s \<and>
    (\<forall>i. thread_step False s i = None) \<and> \<not> (\<exists>rss. all_finished s rss)"
  using assms
  by (simp add: start_threads_def thread_step_def map_code_def Companies_Add_code_def guarded_def seqc_def
      statement_code_def step_code_def call_def RunTransaction_stmt_code_def all_finished_def)
    (auto simp: nth_Cons split: nat.splits)

text \<open>The prices' \<open>Add\<close> calls the database before it takes the mutex.\<close>

lemma Prices_Add_unprotected: "\<not> protected True (Prices_Add_code sq i p t) 0"
  by (simp add: Prices_Add_code_def statement_code_def seqc_def step_code_def call_def)

end
