(* ===== verification/Config_Threads.thy ===== *)
theory Config_Threads
  imports Config_Properties Mutex_Ops
begin

text \<open>
  Several threads on one \<open>Config\<close>: the update thread and the threads of the gRPC server read
  their settings from the same object. Here the mutex is the one of \<open>Mutex_Threads\<close>, a plain
  \<open>std::mutex\<close>, and the flag of the sequential model stays down; the lemmas \<open>run_..\<close> say that
  one thread alone does what the sequential model does.
\<close>

section \<open>The operations step by step\<close>

text \<open>The handlers run after the guard has been destroyed.\<close>

definition caught :: "string \<Rightarrow> unit outcome \<Rightarrow> unit outcome" where
  "caught text r = (case r of Throw e \<Rightarrow> Throw (handled text e) | _ \<Rightarrow> r)"

definition save_code ::
  "('a, 'w, 'x) ptree_api_scheme \<Rightarrow> string \<Rightarrow> ('a \<Rightarrow> exn + 'a) \<Rightarrow> (('a, 'w) cfg, unit outcome) code" where
  "save_code api text f =
     bindc (guarded (seqc (step_code (set_root f)) (\<lambda>_. step_code (save_root api)))) (\<lambda>r. Finish (caught text r))"

definition WriteString_code ::
  "('a, 'w, 'x) ptree_api_scheme \<Rightarrow> string \<Rightarrow> string \<Rightarrow> (('a, 'w) cfg, unit outcome) code" where
  "WriteString_code api key value =
     save_code api (quoted key @ '':'' @ quoted value @ '' : '') (pt_put api key value)"

definition WriteArray_code ::
  "('a, 'w, 'x) ptree_api_scheme \<Rightarrow> string \<Rightarrow> string list \<Rightarrow> (('a, 'w) cfg, unit outcome) code" where
  "WriteArray_code api key values =
     save_code api (quoted key @ '': array_of_values '') (add_array api key values)"

text \<open>The fallbacks of the readers write while the guard is still there.\<close>

definition GetString_code ::
  "('a, 'w, 'x) ptree_api_scheme \<Rightarrow> string \<Rightarrow> string \<Rightarrow> (('a, 'w) cfg, string outcome) code" where
  "GetString_code api key defValue =
     guarded
       (bindc (step_code (bindp (gets (\<lambda>s. pt_get_def api (root (fst s)) key defValue)) lift_sum))
         (\<lambda>r. case r of
            Throw (PtreeBadPath _) \<Rightarrow> seqc (WriteString_code api key defValue) (\<lambda>_. Finish (Ret defValue))
          | _ \<Rightarrow> Finish r))"

definition GetArray_code ::
  "('a, 'w, 'x) ptree_api_scheme \<Rightarrow> string \<Rightarrow> string list \<Rightarrow> (('a, 'w) cfg, string list outcome) code" where
  "GetArray_code api key defValue =
     guarded
       (seqc (step_code (gets (\<lambda>s. pt_get_child api (root (fst s)) key)))
         (\<lambda>child. case child of
            Some t \<Rightarrow>
              (let res = map (\<lambda>item. pt_data api (snd item)) (pt_children api t)
               in Finish (Ret (if res = [] then defValue else res)))
          | None \<Rightarrow> seqc (WriteArray_code api key defValue) (\<lambda>_. Finish (Ret defValue))))"

datatype config_op = CfgRead string string | CfgWrite string string | CfgArray string "string list"

fun config_code ::
  "('a, 'w, 'x) ptree_api_scheme \<Rightarrow> config_op \<Rightarrow> (('a, 'w) cfg, string list outcome) code" where
  "config_code api (CfgRead k d) = map_code (\<lambda>v. [v]) (GetString_code api k d)"
| "config_code api (CfgWrite k v) = map_code (\<lambda>_. []) (WriteString_code api k v)"
| "config_code api (CfgArray k ds) = GetArray_code api k ds"

fun config_sem ::
  "('a, 'w, 'x) ptree_api_scheme \<Rightarrow> config_op \<Rightarrow> (('a, 'w) cfg, string list) prog" where
  "config_sem api (CfgRead k d) = map_prog (\<lambda>v. [v]) (GetString api k d)"
| "config_sem api (CfgWrite k v) = map_prog (\<lambda>_. []) (WriteString api k v)"
| "config_sem api (CfgArray k ds) = GetArray api k ds"

text \<open>Reads and writes of dotted keys.\<close>

fun store_access :: "config_op \<Rightarrow> bool" where
  "store_access (CfgRead k d) = config_key k"
| "store_access (CfgWrite k v) = config_key k"
| "store_access (CfgArray k ds) = False"

section \<open>One thread alone\<close>

lemma guarded_save:
  "save_code api text f =
     guarded (bindc (seqc (step_code (set_root f)) (\<lambda>_. step_code (save_root api))) (\<lambda>r. Finish (caught text r)))"
  by (simp add: save_code_def guarded_bindc_Finish)

lemma run_save:
  assumes "\<not> mtx_locked c"
  shows "run (save_code api text f) (c, w) =
    catchp (lock_guard (thenp (set_root f) (save_root api))) (write_handler text) (c, w)"
proof (cases "f (root c)")
  case (Inl e)
  then show ?thesis
    using assms by (simp add: guarded_save run_bindc run_seqc catch_save lock_guard_def thenp_def bindp_def
        set_root_def caught_def)
next
  case (Inr t)
  obtain x w' where "js_save api (configPath c) t w = (x, w')" by fastforce
  then show ?thesis
    using locked_save [OF assms, of f t api w, OF Inr] Inr
    by (simp add: guarded_save run_bindc run_seqc catch_save set_root_def save_root_def save_result_def
        caught_def split: option.split)
qed

lemma run_WriteString: "\<not> mtx_locked (fst s) \<Longrightarrow> run (WriteString_code api k v) s = WriteString api k v s"
  by (cases s) (simp add: WriteString_code_def WriteString_def run_save)

lemma run_GetString:
  assumes "cfg_ok api s"
  shows "run (GetString_code api k d) s = GetString api k d s"
  using assms store.get_value [OF assms, of k d]
  by (cases s) (simp add: GetString_code_def run_bindc bindp_def ptree_get_def cfg_ok_def cfg_look_def)

lemma run_config_code: "cfg_ok api s \<Longrightarrow> store_access x \<Longrightarrow> run (config_code api x) s = config_sem api x s"
  by (cases x)
    (simp_all add: run_map_code map_prog_def bindp_def run_GetString run_WriteString cfg_ok_def)

lemma balanced_save: "balanced rec (bindc (seqc (step_code (set_root f)) (\<lambda>_. step_code (save_root api)))
    (\<lambda>r. Finish (caught text r))) 0"
  by (intro balanced_bindc0 balanced_seqc balanced_step_code) simp

lemma guarded_WriteString: "guarded_code rec (WriteString_code api k v)"
  unfolding WriteString_code_def guarded_save by (intro guarded_codeI balanced_save)

lemma guarded_GetString:
  assumes "ptree_laws api"
  shows "guarded_code rec (GetString_code api k d)"
  unfolding GetString_code_def
  by (rule guarded_codeI) (simp add: step_code_def call_def bindp_def ptree_get_def [OF assms])

lemma config_code_guarded: "ptree_laws api \<Longrightarrow> store_access x \<Longrightarrow> guarded_code rec (config_code api x)"
  by (cases x) (simp_all add: guarded_map_code guarded_GetString guarded_WriteString)

lemma config_sem_ok:
  assumes "cfg_ok api s" and "store_access x" and "config_sem api x s = (r, s')"
  shows "cfg_ok api s'"
proof (cases x)
  case (CfgRead k d)
  then show ?thesis using assms store.get_value [OF assms(1), of k d] by (simp add: map_prog_def bindp_def)
next
  case (CfgWrite k v)
  obtain q u where "WriteString api k v s = (q, u)" by (metis prod.exhaust)
  then show ?thesis
    using assms CfgWrite store.put_ok [OF assms(1)]
    by (cases q) (auto simp: map_prog_def bindp_def)
qed (use assms in simp)

interpretation cfg: mutex_ops False "config_code api" "config_sem api" "cfg_ok api"
    "\<lambda>x. ptree_laws api \<and> store_access x"
  for api :: "('a, 'w, 'x) ptree_api_scheme"
proof unfold_locales
  fix x assume "ptree_laws api \<and> store_access x"
  then show "\<exists>c. config_code api x = guarded c \<and> balanced False c 0"
    using config_code_guarded [of api x False] by (auto simp: guarded_code_def)
next
  fix s :: "('a, 'w) cfg" and x assume "cfg_ok api s" "ptree_laws api \<and> store_access x"
  then show "run (config_code api x) s = config_sem api x s" by (simp add: run_config_code)
next
  fix s s' :: "('a, 'w) cfg" and x r
  assume "cfg_ok api s" "ptree_laws api \<and> store_access x" "config_sem api x s = (r, s')"
  then show "cfg_ok api s'" using config_sem_ok by blast
qed

section \<open>Properties\<close>

text \<open>The configuration as a map, and the values an operation answers with.\<close>

fun config_spec :: "config_op \<Rightarrow> (string \<Rightarrow> string option) \<Rightarrow> string list \<times> (string \<Rightarrow> string option)" where
  "config_spec (CfgRead k d) m = ([case m k of None \<Rightarrow> d | Some v \<Rightarrow> v], m)"
| "config_spec (CfgWrite k v) m = ([], m(k \<mapsto> v))"
| "config_spec (CfgArray k ds) m = ([], m)"

definition values_of :: "'a list outcome \<Rightarrow> 'a list" where
  "values_of r = (case r of Ret vs \<Rightarrow> vs | _ \<Rightarrow> [])"

definition map_view :: "('a, 'w, 'x) ptree_api_scheme \<Rightarrow> ('a, 'w) cfg \<Rightarrow> (string \<Rightarrow> string option) \<Rightarrow> bool" where
  "map_view api s m \<longleftrightarrow> cfg_ok api s \<and> (\<forall>k. config_key k \<longrightarrow> pt_get_opt api (root (fst s)) k = m k)"

lemma config_refines_spec:
  "op_refines store_access (map_view api) (config_sem api) config_spec values_of"
  unfolding op_refines_def
proof (intro allI impI)
  fix x s m r s'
  assume x: "store_access x" and v: "map_view api s m" and run: "config_sem api x s = (r, s')"
  have ok: "cfg_ok api s" using v by (simp add: map_view_def)
  have ok': "cfg_ok api s'" by (rule config_sem_ok [OF ok x run])
  show "\<exists>m'. config_spec x m = (values_of r, m') \<and> map_view api s' m'"
  proof (cases x)
    case (CfgRead k d)
    then have "pt_get_opt api (root (fst s)) k = m k" using v x by (simp add: map_view_def)
    then show ?thesis
      using run store.get_value [OF ok, of k d] CfgRead v
      by (auto simp: map_prog_def bindp_def values_of_def cfg_look_def)
  next
    case (CfgWrite k w)
    have k: "config_key k" using x CfgWrite by simp
    obtain q where q: "WriteString api k w s = (q, s')" "r = (case q of Ret _ \<Rightarrow> Ret [] | Throw e \<Rightarrow> Throw e | Hang \<Rightarrow> Hang)"
      using run CfgWrite by (auto simp: map_prog_def bindp_def split: prod.splits outcome.splits)
    have "pt_get_opt api (root (fst s')) k' = (m(k \<mapsto> w)) k'" if "config_key k'" for k'
      using store.put_same [OF ok k q(1)] store.put_other [OF ok k that _ q(1)] v that
      by (cases "k' = k") (simp_all add: cfg_look_def map_view_def)
    then show ?thesis
      using q(2) ok' CfgWrite by (simp add: map_view_def values_of_def split: outcome.split)
  qed (use x in simp)
qed

text \<open>
  C12: The shared configuration is a map for all threads. However the steps of \<open>GetString\<close> and
  \<open>WriteString\<close> calls of several threads on dotted keys are interleaved, the values the
  threads have read when they have ended, and the values the configuration then has, are
  those of the same calls on a map, made one after the other in some order, even where the
  file could not be written. And the threads never block each other for ever.
\<close>

theorem config_threads_linearizable:
  assumes "ptree_laws api" and "\<not> mtx_locked c" and "\<forall>xs \<in> set opss. \<forall>x \<in> set xs. store_access x"
    and "run_list (thread_step False) (start_threads (config_code api) (c, w) opss) sched = Some s"
  shows "((\<exists>rss. all_finished s rss) \<or> (\<exists>i s'. thread_step False s i = Some s')) \<and>
    (\<forall>rss. all_finished s rss \<longrightarrow>
      (\<exists>order m. serial_run config_spec (pt_get_opt api (root c)) opss order =
           Some (m, map (\<lambda>rs. ([], map values_of rs)) rss) \<and>
         (\<forall>k. config_key k \<longrightarrow> pt_get_opt api (root (fst (shared s))) k = m k)))"
proof (intro conjI allI impI)
  have ops: "\<forall>xs \<in> set opss. \<forall>x \<in> set xs. ptree_laws api \<and> store_access x" using assms(1,3) by blast
  show "(\<exists>rss. all_finished s rss) \<or> (\<exists>i s'. thread_step False s i = Some s')"
    by (rule cfg.never_stuck [OF ops assms(4)])
  fix rss assume fin: "all_finished s rss"
  have ok: "cfg_ok api (c, w)" using assms(1,2) by (simp add: cfg_ok_def)
  obtain order where o: "serial_run (config_sem api) (c, w) opss order = Some (shared s, map (\<lambda>rs. ([], rs)) rss)"
    using cfg.serializable [OF ok ops assms(4) fin] by blast
  have v: "map_view api (c, w) (pt_get_opt api (root c))" using ok by (simp add: map_view_def)
  from serial_run_spec [OF config_refines_spec, OF v assms(3) o]
  show "\<exists>order m. serial_run config_spec (pt_get_opt api (root c)) opss order =
      Some (m, map (\<lambda>rs. ([], map values_of rs)) rss) \<and>
    (\<forall>k. config_key k \<longrightarrow> pt_get_opt api (root (fst (shared s))) k = m k)"
    by (auto simp: map_view_def)
qed

definition demo_config_opss :: "config_op list list" where
  "demo_config_opss = [[CfgWrite ''iex_api.url'' ''u''], [CfgRead ''iex_api.url'' ''d'']]"

theorem config_threads_linearizable_witness:
  "\<exists>s order m. run_list (thread_step False)
       (start_threads (config_code demo_tree) (demo_cfg, []) demo_config_opss) [0, 0, 0, 0, 1, 1, 1] = Some s \<and>
     serial_run config_spec (pt_get_opt demo_tree (root demo_cfg)) demo_config_opss order =
       Some (m, [([], [[]]), ([], [[''u'']])])"
proof -
  let ?run = "run_list (thread_step False)
    (start_threads (config_code demo_tree) (demo_cfg, []) demo_config_opss) [0, 0, 0, 0, 1, 1, 1]"
  have "map_option (\<lambda>s. map code_result (threads s)) ?run = Some [Some [Ret []], Some [Ret [''u'']]]"
    by code_simp
  then obtain s where s: "?run = Some s" "all_finished s [[Ret []], [Ret [''u'']]]"
    by (auto simp: all_finished_def code_result_Some map_eq_Cons_conv)
  have l: "\<not> mtx_locked demo_cfg" by (simp add: demo_cfg_def)
  have k: "\<forall>xs \<in> set demo_config_opss. \<forall>x \<in> set xs. store_access x" by code_simp
  from config_threads_linearizable [OF demo_tree_laws l k s(1), THEN conjunct2, rule_format, OF s(2)]
  obtain order m where "serial_run config_spec (pt_get_opt demo_tree (root demo_cfg)) demo_config_opss order =
      Some (m, map (\<lambda>rs. ([], map values_of rs)) [[Ret []], [Ret [''u'']]])" by blast
  then show ?thesis using s(1) by (simp add: values_of_def del: run_list.simps) blast
qed

text \<open>
  C30: One missing list stops every thread. A thread that asks \<open>GetArray\<close> for a key that is not in
  the tree keeps the mutex for ever after two steps: from then on no thread that has a
  configuration call left to make can take a step, whatever the calls are, and no thread
  ends.
\<close>

theorem missing_array_stops_all:
  assumes "pt_get_child api (root c) k = None"
  shows "\<exists>s. run_list (thread_step False) (start_threads (config_code api) (c, w) ([CfgArray k ds] # opss)) [0, 0] = Some s \<and>
    (\<forall>i. thread_step False s i = None) \<and> \<not> (\<exists>rss. all_finished s rss)"
proof -
  have lock: "\<exists>c. config_code api x = LockM c" for x
    by (cases x) (simp_all add: GetString_code_def GetArray_code_def WriteString_code_def guarded_save
        guarded_def map_code_def seqc_def)
  have blocked: "ops_code (config_code api) xs [] = Finish [] \<or> (\<exists>c. ops_code (config_code api) xs [] = LockM c)" for xs
  proof (cases xs)
    case (Cons x ys)
    then show ?thesis using lock [of x] by auto
  qed simp
  obtain d e where d: "ops_code (config_code api) [CfgArray k ds] [] = LockM (Act (\<lambda>s. s) d)" "d (c, w) = LockM e"
    using assms by (auto simp: GetArray_code_def guarded_def seqc_def step_code_def call_def bindc_assoc
        WriteArray_code_def guarded_save)
  let ?ts = "map (\<lambda>xs. ops_code (config_code api) xs []) opss"
  let ?s = "\<lparr>shared = (c, w), owner = Some (0, 1), threads = LockM e # ?ts\<rparr>"
  have "thread_step False ?s i = None" for i
  proof (cases i)
    case (Suc j)
    then show ?thesis using blocked [of "opss ! j"] by (auto simp: thread_step_def)
  qed (simp add: thread_step_def)
  moreover have "run_list (thread_step False) (start_threads (config_code api) (c, w) ([CfgArray k ds] # opss)) [0, 0] = Some ?s"
    using d by (simp add: start_threads_def thread_step_def)
  moreover have "\<not> (\<exists>rss. all_finished ?s rss)" by (auto simp: all_finished_def)
  ultimately show ?thesis by blast
qed

theorem missing_array_stops_all_witness:
  "\<exists>s. run_list (thread_step False) (start_threads (config_code demo_tree) (demo_cfg, [])
       ([CfgArray ''iex_api.update_symbols'' [''aapl'']] # demo_config_opss)) [0, 0] = Some s \<and>
     (\<forall>i. thread_step False s i = None)"
proof -
  have "pt_get_child demo_tree (root demo_cfg) ''iex_api.update_symbols'' = None" by code_simp
  from missing_array_stops_all [OF this, of "[]" "[''aapl'']" demo_config_opss] show ?thesis by blast
qed

end
