(* ===== verification/Rpc_Threads.thy ===== *)
theory Rpc_Threads
  imports Service_Properties Mutex_Ops
begin

text \<open>
  \<open>RPCService::Start\<close> and \<open>RPCService::Stop\<close> step by step under the plain \<open>std::mutex\<close> of
  \<open>Daemon/rpc/rpc.h\<close>, for any number of threads that call them.
\<close>

section \<open>The operations step by step\<close>

definition set_service :: "(RPCService \<Rightarrow> RPCService) \<Rightarrow> (RPCService \<times> 'c, unit outcome) code" where
  "set_service f = step_code (modify (\<lambda>s. (f (fst s), snd s)))"

definition reset_step ::
  "('w, 'y) grpc_api_scheme \<Rightarrow> PeakworkServiceImpl \<Rightarrow> (RPCService \<times> ('a, 'w) cfg, unit) prog" where
  "reset_step gr svc s =
     (case reset_server gr svc (fst s, snd (snd s)) of (rpc, w) \<Rightarrow> (Ret (), (rpc, (fst (snd s), w))))"

text \<open>The call of \<open>Start\<close> on the new server object, which \<open>grpcServer\<close> points to.\<close>

definition server_start ::
  "('a, 'w, 'x) ptree_api_scheme \<Rightarrow> ('w, 'y) grpc_api_scheme \<Rightarrow> PeakworkServiceImpl \<Rightarrow>
     (RPCService \<times> ('a, 'w) cfg, unit) prog" where
  "server_start api gr svc s =
     (case PeakworkService_Start api gr (svc, snd s) of
        (r, (svc', cw)) \<Rightarrow> (r, ((fst s)\<lparr>grpcServer := Some svc'\<rparr>, cw)))"

definition Start_code ::
  "('a, 'w, 'x) ptree_api_scheme \<Rightarrow> ('w, 'y) grpc_api_scheme \<Rightarrow> nat \<Rightarrow>
     (RPCService \<times> ('a, 'w) cfg, unit outcome) code" where
  "Start_code api gr h =
     guarded
       (seqc (step_code (gets (\<lambda>s. isStarted (fst s)))) (\<lambda>started.
          if started then Finish (Ret ())
          else
            seqc (set_service (\<lambda>r. r\<lparr>userHandler := Some h\<rparr>)) (\<lambda>_.
            seqc (step_code (reset_step gr (new_PeakworkServiceImpl h))) (\<lambda>_.
            seqc (step_code (server_start api gr (new_PeakworkServiceImpl h))) (\<lambda>_.
            set_service (\<lambda>r. r\<lparr>isStarted := True\<rparr>))))))"

definition Stop_code :: "(RPCService \<times> 'c, unit outcome) code" where
  "Stop_code =
     guarded
       (seqc (set_service (\<lambda>r. r\<lparr>grpcServer := None\<rparr>)) (\<lambda>_.
        seqc (set_service (\<lambda>r. r\<lparr>userHandler := None\<rparr>)) (\<lambda>_.
        set_service (\<lambda>r. r\<lparr>isStarted := False\<rparr>))))"

datatype rpc_op = RpcStart nat | RpcStop

fun rpc_code ::
  "('a, 'w, 'x) ptree_api_scheme \<Rightarrow> ('w, 'y) grpc_api_scheme \<Rightarrow> rpc_op \<Rightarrow>
     (RPCService \<times> ('a, 'w) cfg, unit outcome) code" where
  "rpc_code api gr (RpcStart h) = Start_code api gr h"
| "rpc_code api gr RpcStop = Stop_code"

fun rpc_sem ::
  "('a, 'w, 'x) ptree_api_scheme \<Rightarrow> ('w, 'y) grpc_api_scheme \<Rightarrow> rpc_op \<Rightarrow>
     (RPCService \<times> ('a, 'w) cfg, unit) prog" where
  "rpc_sem api gr (RpcStart h) = RPCService_Start api gr h"
| "rpc_sem api gr RpcStop = modify (\<lambda>s. (RPCService_Stop (fst s), snd s))"

section \<open>One thread alone\<close>

lemma run_set_service: "run (set_service f) s = (Ret (), (f (fst s), snd s))"
  by (simp add: set_service_def)

lemma run_Start_code: "run (Start_code api gr h) s = RPCService_Start api gr h s"
  by (cases s)
    (auto simp: Start_code_def run_guarded_fun run_seqc_fun bindp_def run_set_service reset_step_def
      server_start_def RPCService_Start_def Let_def split: prod.split outcome.split)

lemma run_rpc_code: "run (rpc_code api gr x) s = rpc_sem api gr x s"
  by (cases x)
    (auto simp: run_Start_code Stop_code_def RPCService_Stop_def run_guarded_fun run_seqc_fun bindp_def
      run_set_service)

lemma balanced_set_service: "balanced rec (set_service f) 0"
  unfolding set_service_def by (rule balanced_step_code)

lemma rpc_code_guarded: "\<exists>c. rpc_code api gr x = guarded c \<and> balanced rec c 0"
proof (cases x)
  case (RpcStart h)
  have "guarded_code rec (Start_code api gr h)"
    unfolding Start_code_def
    by (intro guarded_codeI balanced_seqc balanced_step_code)
      (simp add: balanced_seqc balanced_step_code balanced_set_service)
  then show ?thesis using RpcStart by (simp add: guarded_code_def)
next
  case RpcStop
  have "guarded_code rec (Stop_code :: (RPCService \<times> ('a, 'b) cfg, unit outcome) code)"
    unfolding Stop_code_def by (intro guarded_codeI balanced_seqc balanced_set_service)
  then show ?thesis using RpcStop by (simp add: guarded_code_def)
qed

interpretation rpc: mutex_ops False "rpc_code api gr" "rpc_sem api gr" "\<lambda>_. True" "\<lambda>_. True"
  for api :: "('a, 'w, 'x) ptree_api_scheme" and gr :: "('w, 'y) grpc_api_scheme"
  by unfold_locales (simp_all add: rpc_code_guarded run_rpc_code)

section \<open>Starting once\<close>

text \<open>The service and the world after one start from \<open>(c, w)\<close>.\<close>

definition started_once ::
  "('a, 'w, 'x) ptree_api_scheme \<Rightarrow> ('w, 'y) grpc_api_scheme \<Rightarrow> 'a Config \<Rightarrow> 'w \<Rightarrow> nat \<Rightarrow>
     RPCService \<times> ('a, 'w) cfg" where
  "started_once api gr c w h =
     (case gr_build gr (rpc_address api c) w of
        (srv, w') \<Rightarrow>
          (\<lparr>userHandler = Some h, grpcServer = Some \<lparr>server = srv, handler = h\<rparr>, isStarted = True\<rparr>, (c, w')))"

definition only_starts :: "nat set \<Rightarrow> rpc_op list \<Rightarrow> bool" where
  "only_starts H xs \<longleftrightarrow> set xs \<subseteq> RpcStart ` H"

lemma start_step:
  assumes "ptree_laws api" and "\<not> mtx_locked c" and "rpc_idle rpc" and "x \<in> RpcStart ` H"
    and "s = (rpc, (c, w)) \<or> (\<exists>h \<in> H. s = started_once api gr c w h)"
  shows "\<exists>h \<in> H. rpc_sem api gr x s = (Ret (), started_once api gr c w h)"
proof -
  obtain h where h: "x = RpcStart h" "h \<in> H" using assms(4) by auto
  show ?thesis
    using assms(5)
  proof
    assume "s = (rpc, (c, w))"
    then show ?thesis
      using h RPCService_Start_run [OF assms(1-3), of gr h w]
      by (auto simp: started_once_def split: prod.split intro!: bexI [of _ h])
  next
    assume "\<exists>h \<in> H. s = started_once api gr c w h"
    then show ?thesis
      using h by (auto simp: started_once_def RPCService_Start_def split: prod.splits)
  qed
qed

lemma starts_list:
  assumes "ptree_laws api" and "\<not> mtx_locked c" and "rpc_idle rpc"
  shows "run_list (serial_step (rpc_sem api gr)) t order = Some t' \<Longrightarrow>
    \<forall>p \<in> set (snd t). only_starts H (fst p) \<and> set (snd p) \<subseteq> {Ret ()} \<Longrightarrow>
    fst t = (rpc, (c, w)) \<or> (\<exists>h \<in> H. fst t = started_once api gr c w h) \<Longrightarrow>
    (\<forall>p \<in> set (snd t'). set (snd p) \<subseteq> {Ret ()}) \<and>
    (if order = [] then t' = t else \<exists>h \<in> H. fst t' = started_once api gr c w h)"
proof (induction order arbitrary: t)
  case (Cons i order)
  obtain t1 where t1: "serial_step (rpc_sem api gr) t i = Some t1"
    "run_list (serial_step (rpc_sem api gr)) t1 order = Some t'"
    using Cons.prems(1) by (auto split: option.splits)
  obtain x xs rs r w' where i: "i < length (snd t)" "snd t ! i = (x # xs, rs)" and
    r: "rpc_sem api gr x (fst t) = (r, w')" and t1': "t1 = (w', (snd t)[i := (xs, rs @ [r])])"
    using t1(1) by (auto simp: serial_step_def split: if_splits prod.splits list.splits)
  have m: "(x # xs, rs) \<in> set (snd t)" using i nth_mem by metis
  have p: "only_starts H (x # xs)" "set rs \<subseteq> {Ret ()}"
    using bspec [OF Cons.prems(2) m] by simp_all
  have x: "x \<in> RpcStart ` H" using p(1) by (simp add: only_starts_def)
  obtain h where h: "h \<in> H" "r = Ret ()" "w' = started_once api gr c w h"
    using start_step [OF assms x Cons.prems(3)] r by auto
  have "only_starts H xs \<and> set (rs @ [r]) \<subseteq> {Ret ()}"
    using p h(2) by (simp add: only_starts_def)
  then have ps: "\<forall>p \<in> set (snd t1). only_starts H (fst p) \<and> set (snd p) \<subseteq> {Ret ()}"
    using Cons.prems(2) set_update_subset_insert [of "snd t" i "(xs, rs @ [r])"] by (fastforce simp: t1')
  have w1: "\<exists>h \<in> H. fst t1 = started_once api gr c w h" using h by (auto simp: t1')
  show ?case using Cons.IH [OF t1(2) ps] w1 by (auto split: if_splits)
qed auto

text \<open>
  C21: However many threads start the service, one server is built. Threads that only call
  \<open>Start\<close>, on a service that is not running, interleaved step by step in any way, leave the
  service as a single \<open>Start\<close> by one of them does: the address of the configuration is opened
  once, the handler is that of one caller, and every call returns.
\<close>

theorem started_by_one:
  assumes "ptree_laws api" and "\<not> mtx_locked c" and "rpc_idle rpc"
    and "\<forall>xs \<in> set opss. only_starts H xs" and "concat opss \<noteq> []"
    and "run_list (thread_step False) (start_threads (rpc_code api gr) (rpc, (c, w)) opss) sched = Some s"
    and "all_finished s rss"
  shows "(\<exists>h \<in> H. shared s = started_once api gr c w h) \<and> (\<forall>rs \<in> set rss. set rs \<subseteq> {Ret ()})"
proof -
  obtain order where o: "serial_run (rpc_sem api gr) (rpc, (c, w)) opss order =
      Some (shared s, map (\<lambda>rs. ([], rs)) rss)"
    using rpc.serializable [OF TrueI _ assms(6,7)] by blast
  let ?t = "((rpc, (c, w)), map (\<lambda>xs. (xs, [] :: unit outcome list)) opss)"
  note r = starts_list [OF assms(1-3), of gr ?t order _ H w, OF o [unfolded serial_run_def]]
  have "order \<noteq> []"
  proof
    assume "order = []"
    then have "map (\<lambda>xs. (xs, [] :: unit outcome list)) opss = map (\<lambda>rs. ([], rs)) rss"
      using o by (simp add: serial_run_def)
    then have "\<forall>xs \<in> set opss. xs = []" by (metis (no_types, lifting) fst_conv imageE image_eqI set_map)
    then show False using assms(5) by simp
  qed
  then show ?thesis using r assms(4) by auto
qed

text \<open>Two threads, of which the second starts first.\<close>

definition two_starts :: "(RPCService \<times> (rtree, grpc_call list) cfg, unit outcome list) threads_state" where
  "two_starts = start_threads (rpc_code demo_settings demo_grpc) (new_RPCService, (fresh_cfg, []))
     [[RpcStart 1], [RpcStart 2]]"

definition two_sched :: "nat list" where
  "two_sched = replicate 7 1 @ replicate 3 0"

theorem started_by_one_witness:
  "\<exists>s. run_list (thread_step False) two_starts two_sched = Some s \<and> isStarted (fst (shared s)) \<and>
     snd (snd (shared s)) = [Build ''0.0.0.0:50050'']"
proof -
  have "map_option (\<lambda>s. map code_result (threads s)) (run_list (thread_step False) two_starts two_sched) =
      Some [Some [Ret ()], Some [Ret ()]]"
    by code_simp
  then obtain s where s: "run_list (thread_step False) two_starts two_sched = Some s"
    and "map code_result (threads s) = [Some [Ret ()], Some [Ret ()]]" by auto
  then have f: "all_finished s [[Ret ()], [Ret ()]]"
    by (auto simp: all_finished_def code_result_Some map_eq_Cons_conv)
  have l: "\<not> mtx_locked fresh_cfg" by (simp add: fresh_cfg_def)
  have i: "rpc_idle new_RPCService" by (simp add: rpc_idle_def new_RPCService_def)
  have st: "\<forall>xs \<in> set [[RpcStart 1], [RpcStart 2]]. only_starts {1, 2} xs"
    and ne: "concat [[RpcStart 1], [RpcStart 2]] \<noteq> []" by (simp_all add: only_starts_def)
  have addr: "rpc_address demo_settings fresh_cfg = ''0.0.0.0:50050''" by code_simp
  show ?thesis
    using started_by_one [OF demo_settings_laws l i st ne s [unfolded two_starts_def] f] s
    by (auto simp: started_once_def addr demo_grpc_def)
qed

end
