(* ===== verification/Db_Schema.thy ===== *)
theory Db_Schema
  imports Db_Properties
begin

text \<open>
  Opening the database: the constructor of \<open>DBManager\<close> over what SQLite documents of the
  statements that create and drop tables and of the table with the version.
\<close>

section \<open>What the statements do\<close>

text \<open>The tables there are, and the column with the versions.\<close>

type_synonym schema = "string set \<times> uint32 list"

fun drop_table :: "string \<Rightarrow> schema \<Rightarrow> schema" where
  "drop_table name (T, V) = (T - {name}, if name = version_name then [] else V)"

fun create_version :: "schema \<Rightarrow> schema" where
  "create_version (T, V) = (insert version_name T, if version_name \<in> T then V else [])"

definition open_law :: "('w, 'x) sql_api_scheme \<Rightarrow> ('w \<Rightarrow> schema) \<Rightarrow> bool" where
  "open_law sq view \<longleftrightarrow> (\<forall>p w. fst (sq_open sq p w) = None \<longrightarrow> view (snd (sq_open sq p w)) = view w)"

definition schema_laws ::
  "('w, 'x) sql_api_scheme \<Rightarrow> ('w \<Rightarrow> schema) \<Rightarrow> ('w \<Rightarrow> schema) \<Rightarrow> bool" where
  "schema_laws sq view saved \<longleftrightarrow>
     txn_laws sq view saved \<and>
     open_law sq view \<and>
     (\<forall>w w'. sq_exec sq version_create_cmd w = (None, w') \<longrightarrow> view w' = create_version (view w)) \<and>
     (\<forall>w w'. sq_exec sq companies_create_cmd w = (None, w') \<longrightarrow> view w' = (insert companies_name (fst (view w)), snd (view w))) \<and>
     (\<forall>w w'. sq_exec sq prices_create_cmd w = (None, w') \<longrightarrow> view w' = (insert prices_name (fst (view w)), snd (view w))) \<and>
     (\<forall>n w w'. sq_exec sq (''DROP TABLE IF EXISTS '' @ n) w = (None, w') \<longrightarrow> view w' = drop_table n (view w)) \<and>
     (\<forall>v w w'. sq_exec sq (version_insert_cmd v) w = (None, w') \<longrightarrow> view w' = (fst (view w), snd (view w) @ [ucast v])) \<and>
     (\<forall>v w. fst (sq_exec sq (version_update_cmd v) w) \<noteq> None) \<and>
     (\<forall>w x. sq_exec_and_get sq version_present_cmd w = Inr x \<longrightarrow> (cl_int sq x \<noteq> 0) = (snd (view w) \<noteq> [])) \<and>
     (\<forall>w x. sq_exec_and_get sq version_get_cmd w = Inr x \<longrightarrow> snd (view w) \<noteq> [] \<and> cl_uint sq x = hd (snd (view w))) \<and>
     (\<forall>w b. sq_table_exists sq version_name w = Inr b \<longrightarrow> b = (version_name \<in> fst (view w)))"

lemma schema_lawsD:
  assumes "schema_laws sq view saved"
  shows schema_txn: "txn_laws sq view saved"
    and schema_open: "open_law sq view"
    and schema_create_version: "sq_exec sq version_create_cmd w = (None, w') \<Longrightarrow> view w' = create_version (view w)"
    and schema_create_companies: "sq_exec sq companies_create_cmd w = (None, w') \<Longrightarrow>
      view w' = (insert companies_name (fst (view w)), snd (view w))"
    and schema_create_prices: "sq_exec sq prices_create_cmd w = (None, w') \<Longrightarrow>
      view w' = (insert prices_name (fst (view w)), snd (view w))"
    and schema_drop: "sq_exec sq (''DROP TABLE IF EXISTS '' @ n) w = (None, w') \<Longrightarrow> view w' = drop_table n (view w)"
    and schema_insert: "sq_exec sq (version_insert_cmd v) w = (None, w') \<Longrightarrow> view w' = (fst (view w), snd (view w) @ [ucast v])"
    and schema_update: "fst (sq_exec sq (version_update_cmd v) w) \<noteq> None"
    and schema_present: "sq_exec_and_get sq version_present_cmd w = Inr x \<Longrightarrow> (cl_int sq x \<noteq> 0) = (snd (view w) \<noteq> [])"
    and schema_get: "sq_exec_and_get sq version_get_cmd w = Inr x \<Longrightarrow> snd (view w) \<noteq> [] \<and> cl_uint sq x = hd (snd (view w))"
    and schema_exists: "sq_table_exists sq version_name w = Inr b \<Longrightarrow> b = (version_name \<in> fst (view w))"
  using assms unfolding schema_laws_def by blast+

section \<open>Creating and dropping\<close>

lemma RunTransaction_done:
  assumes "txn_laws sq view saved" and "RunTransaction sq cmd w = (Ret u, w')"
  obtains w1 w2 where "view w1 = view w" "sq_exec sq cmd w1 = (None, w2)" "view w' = view w2"
proof -
  obtain w1 w2 where b: "sq_begin sq w = (None, w1)" "sq_exec sq cmd w1 = (None, w2)" "sq_commit sq w2 = (None, w')"
    using assms(2) by (auto simp: RunTransaction_def run_transaction_def split: prod.splits option.splits)
  show thesis
    using that [OF txn_begin [OF assms(1) b(1)] b(2) txn_commit [OF assms(1) b(3)]] .
qed

text \<open>Commands whose effect on the view is a function.\<close>

lemma RunTransaction_view:
  assumes "txn_laws sq view saved" and "\<And>w w'. sq_exec sq cmd w = (None, w') \<Longrightarrow> view w' = f (view w)"
    and "RunTransaction sq cmd w = (Ret u, w')"
  shows "view w' = f (view w)"
  using RunTransaction_done [OF assms(1,3)] assms(2) by metis

lemma Drop_view:
  assumes "schema_laws sq view saved" and "Drop sq n w = (Ret u, w')"
  shows "view w' = drop_table n (view w)"
  using RunTransaction_view [OF schema_txn [OF assms(1)], of _ "drop_table n"] schema_drop [OF assms(1)]
    assms(2) unfolding Drop_def by blast

definition has_tables :: "schema \<Rightarrow> bool" where
  "has_tables s \<longleftrightarrow> {version_name, companies_name, prices_name} \<subseteq> fst s"

lemma exec_and_get_world: "exec_and_get sq cmd w = (r, w') \<Longrightarrow> w' = w"
  by (auto simp: exec_and_get_def lift_sum_def split: sum.splits)

lemma Create_view:
  assumes "schema_laws sq view saved" and "CreateAndInitAllTables sq w = (Ret u, w')"
  shows "has_tables (view w') \<and>
    snd (view w') = (if version_name \<in> fst (view w) \<and> snd (view w) \<noteq> [] then snd (view w) else [ucast dbVersion])"
proof -
  note t = schema_txn [OF assms(1)]
  obtain u1 w1 u2 w2 where v: "DBVersion_Create sq dbVersion w = (Ret u1, w1)"
    and c: "RunTransaction sq companies_create_cmd w1 = (Ret u2, w2)"
    and p: "RunTransaction sq prices_create_cmd w2 = (Ret (), w')"
    using assms(2)
    by (auto simp: CreateAndInitAllTables_def thenp_def Companies_Create_def Companies_Init_def Prices_Create_def
        Prices_Init_def elim!: bindp_RetE)
  obtain u3 w0 w0' x where v0: "RunTransaction sq version_create_cmd w = (Ret u3, w0)"
    and pr: "exec_and_get sq version_present_cmd w0 = (Ret x, w0')"
    and ins': "(if cl_int sq x = 0 then RunTransaction sq (version_insert_cmd dbVersion) else ret ()) w0' = (Ret u1, w1)"
    using v by (auto simp: DBVersion_Create_def DBVersion_Create_table_def thenp_def IsVersionPresent_def
        elim!: bindp_RetE)
  define q where "q = (cl_int sq x \<noteq> 0)"
  have ins: "(if \<not> q then RunTransaction sq (version_insert_cmd dbVersion) else ret ()) w0 = (Ret u1, w1)"
    using ins' exec_and_get_world [OF pr] by (simp add: q_def)
  have s0: "view w0 = create_version (view w)"
    by (rule RunTransaction_view [OF t _ v0]) (rule schema_create_version [OF assms(1)])
  have x: "sq_exec_and_get sq version_present_cmd w0 = Inr x"
    using pr by (auto simp: exec_and_get_def lift_sum_def split: sum.splits)
  have q: "q = (snd (view w0) \<noteq> [])" using schema_present [OF assms(1) x] by (simp add: q_def)
  have s1: "view w1 = (fst (view w0), if q then snd (view w0) else snd (view w0) @ [ucast dbVersion])"
  proof (cases q)
    case True
    then show ?thesis using ins by simp
  next
    case False
    then have "RunTransaction sq (version_insert_cmd dbVersion) w0 = (Ret u1, w1)" using ins by simp
    from RunTransaction_view [OF t _ this, of "\<lambda>s. (fst s, snd s @ [ucast dbVersion])"]
    show ?thesis using schema_insert [OF assms(1)] False by simp
  qed
  have s2: "view w2 = (insert companies_name (fst (view w1)), snd (view w1))"
    by (rule RunTransaction_view [OF t _ c, of "\<lambda>s. (insert companies_name (fst s), snd s)"])
      (rule schema_create_companies [OF assms(1)])
  have s3: "view w' = (insert prices_name (fst (view w2)), snd (view w2))"
    by (rule RunTransaction_view [OF t _ p, of "\<lambda>s. (insert prices_name (fst s), snd s)"])
      (rule schema_create_prices [OF assms(1)])
  obtain T V where tv: "view w = (T, V)" by fastforce
  have "snd (view w0) = (if version_name \<in> T then V else [])" "fst (view w0) = insert version_name T"
    using s0 by (simp_all add: tv)
  then show ?thesis using s1 s2 s3 q by (auto simp: has_tables_def tv)
qed

lemma DropAndCreate_view:
  assumes "schema_laws sq view saved" and "DropAndCreateAllTables sq w = (Ret u, w')"
  shows "has_tables (view w') \<and> snd (view w') = [ucast dbVersion]"
proof -
  obtain u1 u2 u3 w1 w2 w3 where d: "Drop sq version_name w = (Ret u1, w1)"
    "Drop sq companies_name w1 = (Ret u2, w2)" "Drop sq prices_name w2 = (Ret u3, w3)"
    and c: "CreateAndInitAllTables sq w3 = (Ret u, w')"
    using assms(2) unfolding DropAndCreateAllTables_def DropAllTables_def thenp_def
    by (elim bindp_RetE) blast
  obtain T V where "view w = (T, V)" by fastforce
  then have "version_name \<notin> fst (view w3)"
    using Drop_view [OF assms(1) d(1)] Drop_view [OF assms(1) d(2)] Drop_view [OF assms(1) d(3)]
    by (auto simp: version_name_def companies_name_def prices_name_def)
  then show ?thesis using Create_view [OF assms(1) c] by simp
qed

section \<open>The constructor\<close>

lemma ucast_up_down: "(ucast (ucast v :: size_t) :: uint32) = v"
  by (rule bit_word_eqI) (simp add: bit_simps)

lemma ucast_is_one: "(ucast (v :: uint32) :: size_t) = 1 \<Longrightarrow> v = 1"
  using ucast_up_down [of v] by simp

lemma schema_upgrade_throws:
  assumes "schema_laws sq view saved"
  shows "\<exists>e w1. Upgrade sq stored w = (Throw e, w1)"
  using schema_update [OF assms]
  by (auto simp: Upgrade_def UpdateDBVersion_def RunTransaction_def run_transaction_def
      split: prod.split option.split) (metis fst_conv option.discI)

lemma schema_stored_version:
  assumes "schema_laws sq view saved" and "DBVersion_Get sq w = (Ret stored, w)"
  shows "snd (view w) \<noteq> [] \<and> (stored = dbVersion \<longleftrightarrow> hd (snd (view w)) = ucast dbVersion)"
proof -
  obtain x where x: "sq_exec_and_get sq version_get_cmd w = Inr x" "stored = ucast (cl_uint sq x)"
    using assms(2) by (auto simp: DBVersion_Get_def bindp_def exec_and_get_def lift_sum_def split: sum.splits)
  have "snd (view w) \<noteq> []" "stored = ucast (hd (snd (view w)))"
    using schema_get [OF assms(1) x(1)] x(2) by auto
  then show ?thesis by (auto simp: dbVersion_def ucast_is_one)
qed

lemma UpgradeVersion_view:
  assumes "schema_laws sq view saved" and "has_tables (view w)" and "UpgradeVersion sq w = (Ret u, w')"
  shows "has_tables (view w') \<and> snd (view w') \<noteq> [] \<and> hd (snd (view w')) = ucast dbVersion \<and>
    (snd (view w) \<noteq> [] \<and> hd (snd (view w)) = ucast dbVersion \<longrightarrow>
      w' = w \<or> (\<exists>e. DBVersion_Get sq w = (Throw e, w)))"
proof -
  have rec: "has_tables (view v') \<and> snd (view v') \<noteq> [] \<and> hd (snd (view v')) = ucast dbVersion"
    if "DropAndCreateAllTables sq v = (Ret u, v')" for v v'
    using DropAndCreate_view [OF assms(1) that] by simp
  have ex: "IsExist sq version_name w = (Ret True, w)"
    using schema_exists [OF assms(1), of w] assms(2,3)
    by (auto simp: IsExist_def UpgradeVersion_def bindp_def has_tables_def split: sum.splits)
  obtain g where g: "DBVersion_Get sq w = (g, w)"
    by (cases "sq_exec_and_get sq version_get_cmd w") (simp_all add: DBVersion_Get_def bindp_def exec_and_get_def)
  show ?thesis
  proof (cases g)
    case (Ret stored)
    note v = schema_stored_version [OF assms(1) g [unfolded Ret]]
    show ?thesis
    proof (cases "stored = dbVersion")
      case True
      then show ?thesis
        using assms(2,3) ex g Ret v by (simp add: UpgradeVersion_def bindp_def catchp_def)
    next
      case False
      then have "dbVersion < stored \<or> \<not> dbVersion < stored \<and> dbVersion > stored" by auto
      then show ?thesis
        using assms(3) ex g Ret rec False v schema_upgrade_throws [OF assms(1), of stored w]
        by (auto simp: UpgradeVersion_def bindp_def catchp_def split: prod.splits outcome.splits)
    qed
  qed (use assms(3) ex g rec in \<open>auto simp: UpgradeVersion_def bindp_def catchp_def\<close>)
qed

lemma new_DBManager_steps:
  assumes "ptree_laws api" and "\<not> mtx_locked c" and "new_DBManager api sq (c, w) = (Ret m, (c', w'))"
  obtains w1 w2 where
    "sq_open sq (case pt_get_opt api (root c) (key2 ''daemon'' ''db_path'') of None \<Rightarrow> dbFile | Some p \<Rightarrow> p) w = (None, w1)"
    "CreateAndInitAllTables sq w1 = (Ret (), w2)" "UpgradeVersion sq w2 = (Ret (), w')"
    "c' = c" "m = \<lparr>db_open = True, tables_open = True\<rparr>"
proof -
  let ?path = "case pt_get_opt api (root c) (key2 ''daemon'' ''db_path'') of None \<Rightarrow> dbFile | Some p \<Rightarrow> p"
  have path: "GetDBPath api (c, w) = (Ret ?path, (c, w))"
    by (simp add: getters GetString_run [OF assms(2,1)])
  show thesis
    using assms(3) path that
    by (auto simp: new_DBManager_def bindp_def thenp_def split: prod.splits option.splits outcome.splits)
qed

text \<open>
  What the constructor of \<open>DBManager\<close> promises. It opens the database at the path of the
  configuration, and when it returns, all three tables are there and the version in the
  database is the program's, whatever was there before: a database of the right version is
  left as it is but for missing tables, if its version can be read, and any other has been
  dropped and made anew, since the command that would upgrade it is malformed. A
  configuration that was free stays as it was.
\<close>

theorem manager_ready:
  assumes "ptree_laws api" and "\<not> mtx_locked c" and "schema_laws sq view saved"
    and "new_DBManager api sq (c, w) = (Ret m, (c', w'))"
  shows "c' = c \<and> db_open m \<and> tables_open m \<and>
    fst (sq_open sq (case pt_get_opt api (root c) (key2 ''daemon'' ''db_path'') of None \<Rightarrow> dbFile | Some p \<Rightarrow> p) w) = None \<and>
    has_tables (view w') \<and> snd (view w') \<noteq> [] \<and> hd (snd (view w')) = ucast dbVersion \<and>
    (version_name \<in> fst (view w) \<and> snd (view w) \<noteq> [] \<and> hd (snd (view w)) = ucast dbVersion \<and>
      (\<forall>w1 e. DBVersion_Get sq w1 \<noteq> (Throw e, w1)) \<longrightarrow> snd (view w') = snd (view w))"
proof -
  obtain w1 w2 where op: "sq_open sq (case pt_get_opt api (root c) (key2 ''daemon'' ''db_path'') of
      None \<Rightarrow> dbFile | Some p \<Rightarrow> p) w = (None, w1)"
    and cr: "CreateAndInitAllTables sq w1 = (Ret (), w2)" and up: "UpgradeVersion sq w2 = (Ret (), w')"
    and m: "c' = c" "m = \<lparr>db_open = True, tables_open = True\<rparr>"
    by (rule new_DBManager_steps [OF assms(1,2,4)])
  have v1: "view w1 = view w" using schema_open [OF assms(3)] op unfolding open_law_def by (metis fst_conv snd_conv)
  note cr = Create_view [OF assms(3) cr]
  note ug = UpgradeVersion_view [OF assms(3) conjunct1 [OF cr] up]
  show ?thesis using op m cr ug by (auto simp: v1)
qed

section \<open>A schema to run it on\<close>

definition no_such :: exn where
  "no_such = SqliteError ''syntax error''"

definition schema_exec :: "string \<Rightarrow> schema \<Rightarrow> exn option \<times> schema" where
  "schema_exec cmd s =
     (if cmd = version_create_cmd then (None, create_version s)
      else if cmd = companies_create_cmd then (None, (insert companies_name (fst s), snd s))
      else if cmd = prices_create_cmd then (None, (insert prices_name (fst s), snd s))
      else if cmd = version_insert_cmd dbVersion then (None, (fst s, snd s @ [ucast dbVersion]))
      else if take 21 cmd = ''DROP TABLE IF EXISTS '' then (None, drop_table (drop 21 cmd) s)
      else (Some no_such, s))"

definition schema_get_cell :: "string \<Rightarrow> schema \<Rightarrow> exn + sql_value" where
  "schema_get_cell cmd s =
     (if cmd = version_present_cmd then Inr (SqlInt (if snd s = [] then 0 else 1))
      else if cmd = version_get_cmd \<and> snd s \<noteq> [] then Inr (SqlInt (ucast (hd (snd s))))
      else Inl no_such)"

definition schema_sql :: "(schema \<times> schema) sql_api" where
  "schema_sql = \<lparr>
     sq_open = (\<lambda>_ w. (None, w)),
     sq_prepare = (\<lambda>_ _. None),
     sq_bind = (\<lambda>_ _. None),
     sq_exec = (\<lambda>cmd w. case schema_exec cmd (fst w) of (r, s) \<Rightarrow> (r, (s, snd w))),
     sq_exec_stmt = (\<lambda>_ _ w. (Some no_such, w)),
     sq_exec_and_get = (\<lambda>cmd w. schema_get_cell cmd (fst w)),
     sq_rows = (\<lambda>_ _ _. ([], None)),
     sq_table_exists = (\<lambda>n w. Inr (n \<in> fst (fst w))),
     sq_begin = (\<lambda>w. (None, (fst w, fst w))),
     sq_commit = (\<lambda>w. (None, w)),
     sq_rollback = (\<lambda>w. (None, (snd w, snd w))),
     cl_string = (\<lambda>_. []),
     cl_int = (\<lambda>v. ucast (demo_int v)),
     cl_int64 = demo_int,
     cl_uint = (\<lambda>v. ucast (demo_int v))\<rparr>"

lemma schema_cmds:
  "version_update_cmd v \<noteq> version_create_cmd" "version_update_cmd v \<noteq> companies_create_cmd"
  "version_update_cmd v \<noteq> prices_create_cmd" "version_update_cmd v \<noteq> version_insert_cmd v'"
  "take 21 (version_update_cmd v) \<noteq> ''DROP TABLE IF EXISTS ''"
  "companies_create_cmd \<noteq> version_create_cmd" "prices_create_cmd \<noteq> version_create_cmd"
  "prices_create_cmd \<noteq> companies_create_cmd"
  "version_insert_cmd v \<noteq> version_create_cmd" "version_insert_cmd v \<noteq> companies_create_cmd"
  "version_insert_cmd v \<noteq> prices_create_cmd"
  "take 21 (version_insert_cmd v) \<noteq> ''DROP TABLE IF EXISTS ''"
  "''DROP TABLE IF EXISTS '' @ n \<noteq> version_create_cmd" "''DROP TABLE IF EXISTS '' @ n \<noteq> companies_create_cmd"
  "''DROP TABLE IF EXISTS '' @ n \<noteq> prices_create_cmd" "''DROP TABLE IF EXISTS '' @ n \<noteq> version_insert_cmd v"
  "version_get_cmd \<noteq> version_present_cmd"
  by (simp_all add: version_update_cmd_def version_create_cmd_def companies_create_cmd_def prices_create_cmd_def
      version_insert_cmd_def version_get_cmd_def version_present_cmd_def version_name_def companies_name_def)

lemma version_insert_inject: "version_insert_cmd v = version_insert_cmd v' \<longleftrightarrow> v = v'"
proof -
  have "version_insert_cmd v = version_insert_cmd v' \<longleftrightarrow> show_nat (unat v) = show_nat (unat v')"
    by (simp only: version_insert_cmd_def same_append_eq append_same_eq)
  also have "... \<longleftrightarrow> v = v'"
    using parse_show_nat [of "unat v"] parse_show_nat [of "unat v'"] by (metis option.inject word_unat_eq_iff)
  finally show ?thesis .
qed

lemma schema_sql_laws: "schema_laws schema_sql fst snd"
  unfolding schema_laws_def
proof (intro conjI)
  show "txn_laws schema_sql fst snd"
    by (auto simp: txn_laws_def schema_sql_def split: prod.splits)
  show "open_law schema_sql fst" by (simp add: open_law_def schema_sql_def)
  show "\<forall>v w. fst (sq_exec schema_sql (version_update_cmd v) w) \<noteq> None"
    by (simp add: schema_sql_def schema_exec_def schema_cmds split: prod.split)
  show "\<forall>n w w'. sq_exec schema_sql (''DROP TABLE IF EXISTS '' @ n) w = (None, w') \<longrightarrow> fst w' = drop_table n (fst w)"
  proof (intro allI impI)
    fix n w w'
    have t: "take 21 (''DROP TABLE IF EXISTS '' @ n) = ''DROP TABLE IF EXISTS ''"
      "drop 21 (''DROP TABLE IF EXISTS '' @ n) = n" by simp_all
    assume "sq_exec schema_sql (''DROP TABLE IF EXISTS '' @ n) w = (None, w')"
    then show "fst w' = drop_table n (fst w)"
      unfolding schema_sql_def schema_exec_def by (simp only: sql_api.simps schema_cmds if_False if_True t) auto
  qed
qed (auto simp: schema_sql_def schema_exec_def schema_get_cell_def schema_cmds version_insert_inject
    ucast_up_down split: prod.splits if_splits)

definition schema_settings :: "(rtree, schema \<times> schema) ptree_api" where
  "schema_settings = rtree_api (\<lambda>_ _. Inl (JsonParserError ''cannot open file'')) (\<lambda>_ _ w. (None, w))"

lemma schema_settings_laws: "ptree_laws schema_settings"
  unfolding schema_settings_def by (rule rtree_api_laws)

text \<open>A database of an older version.\<close>

definition old_schema :: schema where
  "old_schema = ({version_name, companies_name}, [0])"

theorem manager_ready_witness:
  "\<exists>m s'. new_DBManager schema_settings schema_sql (fresh_cfg, (old_schema, old_schema)) = (Ret m, s') \<and>
     has_tables (fst (snd s')) \<and> hd (snd (fst (snd s'))) = ucast dbVersion"
proof -
  let ?run = "new_DBManager schema_settings schema_sql (fresh_cfg, (old_schema, old_schema))"
  obtain r c' w' where r: "?run = (r, (c', w'))" by (metis prod.exhaust)
  have "fst ?run = Ret \<lparr>db_open = True, tables_open = True\<rparr>" by code_simp
  then have m: "?run = (Ret \<lparr>db_open = True, tables_open = True\<rparr>, (c', w'))" using r by simp
  have l: "\<not> mtx_locked fresh_cfg" by (simp add: fresh_cfg_def)
  show ?thesis using manager_ready [OF schema_settings_laws l schema_sql_laws m] m by auto
qed

end
