(* ===== verification/Startup.thy ===== *)
theory Startup
  imports Db_Schema Supervisor
begin

text \<open>
  The start of the worker: the constructor of \<open>Controller\<close> and the function-local statics it
  brings to life, \<open>config::Daemon\<close>, \<open>db::DBManager\<close> and \<open>rpcservice::RPCService\<close>. A static is
  built by the first call that returns; a constructor that throws leaves it unbuilt, with
  the effects it had.
\<close>

record 'a Statics =
  st_configs :: "'a ConfigManager"
  st_daemon :: "nat option"
  st_db :: "DBManager option"
  st_rpc :: "RPCService option"

text \<open>A call on the configuration object with a given address.\<close>

definition with_config ::
  "nat \<Rightarrow> (('a, 'w) cfg, 'b) prog \<Rightarrow> ('a Statics \<times> 'w, 'b) prog" where
  "with_config a p s =
     (case s of (st, w) \<Rightarrow>
        (case p (cfg_objects (st_configs st) ! a, w) of
           (r, (c, w')) \<Rightarrow>
             (r, (st\<lparr>st_configs := (st_configs st)\<lparr>cfg_objects := (cfg_objects (st_configs st))[a := c]\<rparr>\<rparr>, w'))))"

definition Daemon_instance ::
  "('w, 'x) posix_scheme \<Rightarrow> ('a, 'w, 'y) ptree_api_scheme \<Rightarrow> 'z lexical_api_scheme \<Rightarrow>
     ('a Statics \<times> 'w, nat) prog" where
  "Daemon_instance os api lx s =
     (case s of (st, w) \<Rightarrow>
        (case Daemon_GetInstance os api lx (st_daemon st, (st_configs st, w)) of
           (r, (i, (m, w'))) \<Rightarrow> (r, (st\<lparr>st_daemon := i, st_configs := m\<rparr>, w'))))"

definition DBManager_GetInstance ::
  "('w, 'x) posix_scheme \<Rightarrow> ('a, 'w, 'y) ptree_api_scheme \<Rightarrow> 'z lexical_api_scheme \<Rightarrow> ('w, 'v) sql_api_scheme \<Rightarrow>
     ('a Statics \<times> 'w, DBManager) prog" where
  "DBManager_GetInstance os api lx sq s =
     (case st_db (fst s) of
        Some m \<Rightarrow> (Ret m, s)
      | None \<Rightarrow>
          bindp (Daemon_instance os api lx) (\<lambda>a.
          bindp (with_config a (new_DBManager api sq)) (\<lambda>m.
          thenp (modify (\<lambda>s. ((fst s)\<lparr>st_db := Some m\<rparr>, snd s))) (ret m))) s)"

text \<open>The constructor of \<open>RPCService\<close> makes an \<open>IEX_Client\<close>, whose constructor asks for the configuration.\<close>

definition RPCService_GetInstance ::
  "('w, 'x) posix_scheme \<Rightarrow> ('a, 'w, 'y) ptree_api_scheme \<Rightarrow> 'z lexical_api_scheme \<Rightarrow>
     ('a Statics \<times> 'w, RPCService) prog" where
  "RPCService_GetInstance os api lx s =
     (case st_rpc (fst s) of
        Some r \<Rightarrow> (Ret r, s)
      | None \<Rightarrow>
          bindp (Daemon_instance os api lx) (\<lambda>a.
          thenp (modify (\<lambda>s. ((fst s)\<lparr>st_rpc := Some new_RPCService\<rparr>, snd s))) (ret new_RPCService)) s)"

text \<open>\<open>log_init\<close> is \<open>plog::init\<close> with the path of the log file.\<close>

definition Controller_construct ::
  "('w, 'x) posix_scheme \<Rightarrow> ('a, 'w, 'y) ptree_api_scheme \<Rightarrow> 'z lexical_api_scheme \<Rightarrow> ('w, 'v) sql_api_scheme \<Rightarrow>
     (string \<Rightarrow> 'w \<Rightarrow> 'w) \<Rightarrow> ('a Statics \<times> 'w, Controller) prog" where
  "Controller_construct os api lx sq log_init =
     bindp (Daemon_instance os api lx) (\<lambda>a.
     bindp (DBManager_GetInstance os api lx sq) (\<lambda>m.
     bindp (RPCService_GetInstance os api lx) (\<lambda>rpc.
     bindp (with_config a (GetLogPath api)) (\<lambda>path.
     thenp (modify (\<lambda>s. (fst s, log_init (c_str path) (snd s)))) (ret (new_Controller rpc))))))"

definition no_statics :: "'a Statics" where
  "no_statics = \<lparr>st_configs = new_manager, st_daemon = None, st_db = None, st_rpc = None\<rparr>"

section \<open>Lemmas\<close>

text \<open>The first call of \<open>Daemon::GetInstance\<close>.\<close>

lemma first_Daemon:
  assumes "ptree_laws api" and "Daemon_instance os api lx (no_statics, w) = (Ret a, (st, w'))"
  shows "a = 0 \<and> (\<exists>c. st = no_statics\<lparr>st_configs := st_configs st, st_daemon := Some 0\<rparr> \<and>
    cfg_objects (st_configs st) = [c] \<and> \<not> mtx_locked c \<and>
    smap_find (configs (st_configs st)) ''./daemon.cfg'' = Some 0 \<and>
    (\<forall>(k, d) \<in> set string_settings. pt_get_opt api (root c) k \<noteq> None) \<and>
    pt_get_child api (root c) price_key \<noteq> None)"
proof -
  obtain m w1 where g: "GetConfig_default os api ''daemon.cfg'' (new_manager, w) = (Ret a, (m, w1))"
    and i: "\<exists>c. Daemon_Init api lx (cfg_objects m ! a, w1) = (Ret (), (c, w')) \<and>
      st = no_statics\<lparr>st_configs := m\<lparr>cfg_objects := (cfg_objects m)[a := c]\<rparr>, st_daemon := Some a\<rparr>"
    using assms(2)
    by (auto simp: Daemon_instance_def Daemon_GetInstance_def new_Daemon_def no_statics_def
        split: prod.splits outcome.splits)
  have n: "smap_find (configs new_manager) (kDefFolder @ ''/'' @ ''daemon.cfg'') = None"
    by (simp add: new_manager_def smap.find_empty)
  obtain rc wc where nc: "new_Config os api kDefFolder ''daemon.cfg'' w = (rc, wc)" by fastforce
  have path: "kDefFolder @ ''/'' @ ''daemon.cfg'' = ''./daemon.cfg''" by (simp add: kDefFolder_def)
  obtain cfg where cfg: "rc = Ret cfg" "cfg_objects m = [cfg]" "a = 0"
    "configs m = smap_emplace (kDefFolder @ ''/'' @ ''daemon.cfg'') 0 []"
    using g nc GetConfig_absent [OF manager_ok_new n, of os api w]
    by (cases rc) (auto simp: GetConfig_default_def new_manager_def)
  have c0: "\<not> mtx_locked cfg" using new_Config_cases [OF nc] cfg(1) by auto
  have found: "smap_find (configs m) ''./daemon.cfg'' = Some 0" unfolding cfg(4) path by code_simp
  obtain c where c: "Daemon_Init api lx (cfg, w1) = (Ret (), (c, w'))"
    "st = no_statics\<lparr>st_configs := m\<lparr>cfg_objects := [c]\<rparr>, st_daemon := Some 0\<rparr>"
    using i cfg by auto
  note e = Daemon_Init_effect [OF assms(1) c0 c(1)]
  show ?thesis using cfg(3) c(2) e found by (auto intro!: exI [of _ c])
qed

lemma later_Daemon: "st_daemon st = Some a \<Longrightarrow> Daemon_instance os api lx (st, w) = (Ret a, (st, w))"
  by (simp add: Daemon_instance_def Daemon_GetInstance_def)

text \<open>The first calls of the other two instances, with the configuration there.\<close>

lemma first_DBManager:
  assumes "ptree_laws api" and "st_daemon st = Some 0" and "st_db st = None"
    and "cfg_objects (st_configs st) = [c]" and "\<not> mtx_locked c"
    and "DBManager_GetInstance os api lx sq (st, w) = (Ret m, (st', w'))"
  shows "st' = st\<lparr>st_db := Some m\<rparr> \<and> db_open m \<and> tables_open m \<and>
    (\<exists>w1 w2. CreateAndInitAllTables sq w1 = (Ret (), w2) \<and> UpgradeVersion sq w2 = (Ret (), w'))"
proof -
  obtain c' where n: "new_DBManager api sq (c, w) = (Ret m, (c', w'))"
    and st: "st' = st\<lparr>st_configs := (st_configs st)\<lparr>cfg_objects := [c']\<rparr>, st_db := Some m\<rparr>"
    using assms(2-4,6) later_Daemon [OF assms(2), of os api lx w]
    by (auto simp: DBManager_GetInstance_def bindp_def thenp_def with_config_def split: prod.splits outcome.splits)
  obtain w1 w2 where up: "CreateAndInitAllTables sq w1 = (Ret (), w2)" "UpgradeVersion sq w2 = (Ret (), w')"
    and m: "c' = c" "m = \<lparr>db_open = True, tables_open = True\<rparr>"
    by (rule new_DBManager_steps [OF assms(1,5) n])
  have "(st_configs st)\<lparr>cfg_objects := [c]\<rparr> = st_configs st" using assms(4) by (cases "st_configs st") simp
  then show ?thesis using up m st by auto
qed

lemma first_RPCService:
  "st_daemon st = Some 0 \<Longrightarrow> st_rpc st = None \<Longrightarrow>
     RPCService_GetInstance os api lx (st, w) = (Ret new_RPCService, (st\<lparr>st_rpc := Some new_RPCService\<rparr>, w))"
  by (simp add: RPCService_GetInstance_def bindp_def thenp_def later_Daemon)

lemma configs_again: "st_configs st = X \<Longrightarrow> st\<lparr>st_rpc := r, st_configs := X\<rparr> = st\<lparr>st_rpc := r\<rparr>"
  by (cases st) simp

text \<open>
  The state after the constructor of \<open>Controller\<close>, and the last steps on the database; \<open>ready_config\<close>
  is what is known of the configuration.
\<close>

definition ready_config :: "('a, 'w, 'y) ptree_api_scheme \<Rightarrow> 'a Statics \<Rightarrow> 'a Config \<Rightarrow> bool" where
  "ready_config api st c \<longleftrightarrow>
     cfg_objects (st_configs st) = [c] \<and> \<not> mtx_locked c \<and>
     smap_find (configs (st_configs st)) ''./daemon.cfg'' = Some 0 \<and>
     (\<forall>(k, d) \<in> set string_settings. pt_get_opt api (root c) k \<noteq> None) \<and>
     pt_get_child api (root c) price_key \<noteq> None \<and> st_daemon st = Some 0"

lemma startup_steps:
  assumes "ptree_laws api" and "Controller_construct os api lx sq log_init (no_statics, w) = (Ret ctl, (st, w'))"
  obtains c m w1 w2 w3 path where "ready_config api st c"
    and "st_db st = Some m" "db_open m" "tables_open m" "st_rpc st = Some new_RPCService"
    and "ctl = new_Controller new_RPCService"
    and "CreateAndInitAllTables sq w1 = (Ret (), w2)" "UpgradeVersion sq w2 = (Ret (), w3)" "w' = log_init path w3"
proof -
  obtain a st1 w1 m st2 w2 rpc st3 w3 path st4 w4 where
    d: "Daemon_instance os api lx (no_statics, w) = (Ret a, (st1, w1))"
    and b: "DBManager_GetInstance os api lx sq (st1, w1) = (Ret m, (st2, w2))"
    and r: "RPCService_GetInstance os api lx (st2, w2) = (Ret rpc, (st3, w3))"
    and l: "with_config a (GetLogPath api) (st3, w3) = (Ret path, (st4, w4))"
    and e: "ctl = new_Controller rpc" "st = st4" "w' = log_init (c_str path) w4"
    using assms(2) by (auto simp: Controller_construct_def thenp_def elim!: bindp_RetE)
  obtain c where a: "a = 0" and st1: "st1 = no_statics\<lparr>st_configs := st_configs st1, st_daemon := Some 0\<rparr>"
    and c: "cfg_objects (st_configs st1) = [c]" "\<not> mtx_locked c"
      "smap_find (configs (st_configs st1)) ''./daemon.cfg'' = Some 0"
      "\<forall>(k, d) \<in> set string_settings. pt_get_opt api (root c) k \<noteq> None" "pt_get_child api (root c) price_key \<noteq> None"
    using first_Daemon [OF assms(1) d] by blast
  have s1: "st_daemon st1 = Some 0" "st_db st1 = None" "st_rpc st1 = None"
    by (subst st1, simp add: no_statics_def)+
  note db = first_DBManager [OF assms(1) s1(1,2) c(1,2) b]
  have s2: "st_daemon st2 = Some 0" "st_rpc st2 = None" "st_configs st2 = st_configs st1" using db s1 by simp_all
  have r': "rpc = new_RPCService" "st3 = st2\<lparr>st_rpc := Some new_RPCService\<rparr>" "w3 = w2"
    using r first_RPCService [OF s2(1,2), of os api lx w2] by simp_all
  have same: "(st_configs st1)\<lparr>cfg_objects := [c]\<rparr> = st_configs st1" using c(1) by (cases "st_configs st1") simp
  have l': "st4 = st3" "w4 = w3"
    using l a c(1) s2(3) r'(2) same GetString_run [OF c(2) assms(1)]
    by (auto simp: with_config_def getters configs_again [OF s2(3)])
  have st: "st = st1\<lparr>st_db := Some m, st_rpc := Some new_RPCService\<rparr>" using e(2) l'(1) r'(2) db by simp
  obtain wa wb where up: "CreateAndInitAllTables sq wa = (Ret (), wb)" "UpgradeVersion sq wb = (Ret (), w2)"
    using db by blast
  show thesis
    by (rule that [OF _ _ _ _ _ _ up, of c m "c_str path"])
      (use c s1 db e r' l' in \<open>simp_all add: st ready_config_def\<close>)
qed

text \<open>
  C7: A worker whose controller has been constructed is ready. Starting from nothing, when the
  constructor of \<open>Controller\<close> returns, there is exactly one configuration object, free and
  known to the manager under its path, with a value for each of the six text settings; the
  three tables are in the database with the version of the program; the RPC service is
  there and not started; and the controller has no thread yet. Every later call of one of
  the three \<open>GetInstance\<close> functions gives the same object and changes nothing.
\<close>

theorem startup_ready:
  assumes "ptree_laws api" and "schema_laws sq view saved"
    and "\<And>path w. view (log_init path w) = view w"
    and "Controller_construct os api lx sq log_init (no_statics, w) = (Ret ctl, (st, w'))"
  shows "(\<exists>c. cfg_objects (st_configs st) = [c] \<and> \<not> mtx_locked c \<and>
      smap_find (configs (st_configs st)) ''./daemon.cfg'' = Some 0 \<and>
      (\<forall>(k, d) \<in> set string_settings. pt_get_opt api (root c) k \<noteq> None)) \<and>
    has_tables (view w') \<and> snd (view w') \<noteq> [] \<and> hd (snd (view w')) = ucast dbVersion \<and>
    ctl = new_Controller new_RPCService \<and> \<not> isStarted (Controller.rpcService ctl) \<and> \<not> joinable ctl \<and>
    Daemon_instance os api lx (st, w') = (Ret 0, (st, w')) \<and>
    (\<exists>m. db_open m \<and> tables_open m \<and> DBManager_GetInstance os api lx sq (st, w') = (Ret m, (st, w'))) \<and>
    RPCService_GetInstance os api lx (st, w') = (Ret new_RPCService, (st, w'))"
proof -
  obtain c m w1 w2 w3 path where c: "ready_config api st c"
    and m: "st_db st = Some m" "db_open m" "tables_open m" "st_rpc st = Some new_RPCService"
    and e: "ctl = new_Controller new_RPCService"
    and up: "CreateAndInitAllTables sq w1 = (Ret (), w2)" "UpgradeVersion sq w2 = (Ret (), w3)" "w' = log_init path w3"
    by (rule startup_steps [OF assms(1,4)])
  note v = UpgradeVersion_view [OF assms(2) conjunct1 [OF Create_view [OF assms(2) up(1)]] up(2)]
  show ?thesis
    using c m e v by (auto simp: up(3) assms(3) ready_config_def later_Daemon DBManager_GetInstance_def
        RPCService_GetInstance_def new_Controller_def new_RPCService_def)
qed

text \<open>A machine on which only the current folder exists, and no file.\<close>

definition settled_posix :: "(schema \<times> schema) posix" where
  "settled_posix = \<lparr>px_stat = (\<lambda>p _. if p = ''.'' then Some 4096 else None), px_mkdir = (\<lambda>_ w. (False, w)), px_chmod = (\<lambda>_ w. w),
     px_remove = (\<lambda>_ w. (False, w)), px_open_read = (\<lambda>_ _. None)\<rparr>"

definition startup_run :: "(rtree Statics \<times> schema \<times> schema, Controller) prog" where
  "startup_run = Controller_construct settled_posix schema_settings demo_lex schema_sql (\<lambda>_ w. w)"

theorem startup_ready_witness:
  "\<exists>st w. startup_run (no_statics, (old_schema, old_schema)) = (Ret (new_Controller new_RPCService), (st, w)) \<and>
     has_tables (fst w) \<and> hd (snd (fst w)) = ucast dbVersion \<and> length (cfg_objects (st_configs st)) = 1"
proof -
  let ?run = "startup_run (no_statics, (old_schema, old_schema))"
  obtain r st w where r: "?run = (r, (st, w))" by (metis prod.exhaust)
  have "fst ?run = Ret (new_Controller new_RPCService)" by code_simp
  then have m: "?run = (Ret (new_Controller new_RPCService), (st, w))" using r by simp
  have c: "Controller_construct settled_posix schema_settings demo_lex schema_sql (\<lambda>_ w. w)
      (no_statics, (old_schema, old_schema)) = (Ret (new_Controller new_RPCService), (st, w))"
    using m by (simp only: startup_run_def)
  show ?thesis using startup_ready [OF schema_settings_laws schema_sql_laws refl c] m by auto
qed

end
