(* ===== verification/Lock_Order.thy ===== *)
theory Lock_Order
  imports Mutex_Threads
begin

text \<open>
  Threads that share several mutexes and wait for each other. The code of \<open>Mutex_Code\<close> knows
  one mutex; here each step names the mutex it locks or unlocks, and a thread can join another
  one. When every thread takes the mutexes in the order of a rank, and joins only threads with
  a higher number while it holds none, no run gets stuck.
\<close>

section \<open>Code with several mutexes\<close>

datatype ('l, 'w, 'r) lcode =
    LFinish 'r
  | LLock 'l "('l, 'w, 'r) lcode"
  | LUnlock 'l "('l, 'w, 'r) lcode"
  | LJoin nat "('l, 'w, 'r) lcode"
  | LAct "'w \<Rightarrow> 'w" "'w \<Rightarrow> ('l, 'w, 'r) lcode"

primrec bindl :: "('l, 'w, 'a) lcode \<Rightarrow> ('a \<Rightarrow> ('l, 'w, 'b) lcode) \<Rightarrow> ('l, 'w, 'b) lcode" where
  "bindl (LFinish a) f = f a"
| "bindl (LLock l c) f = LLock l (bindl c f)"
| "bindl (LUnlock l c) f = LUnlock l (bindl c f)"
| "bindl (LJoin j c) f = LJoin j (bindl c f)"
| "bindl (LAct u k) f = LAct u (\<lambda>w. bindl (k w) f)"

definition lcall :: "('w \<Rightarrow> 'a \<times> 'w) \<Rightarrow> ('l, 'w, 'a) lcode" where
  "lcall p = LAct (\<lambda>w. snd (p w)) (\<lambda>w. LFinish (fst (p w)))"

definition seql ::
  "('l, 'w, 'a outcome) lcode \<Rightarrow> ('a \<Rightarrow> ('l, 'w, 'b outcome) lcode) \<Rightarrow> ('l, 'w, 'b outcome) lcode" where
  "seql c f = bindl c (\<lambda>r. case r of Ret a \<Rightarrow> f a | Throw e \<Rightarrow> LFinish (Throw e) | Hang \<Rightarrow> LFinish Hang)"

definition guardedl :: "'l \<Rightarrow> ('l, 'w, 'r) lcode \<Rightarrow> ('l, 'w, 'r) lcode" where
  "guardedl l c = LLock l (bindl c (\<lambda>r. LUnlock l (LFinish r)))"

text \<open>Code on one mutex and a part of the state, as code of the whole.\<close>

primrec embed :: "'l \<Rightarrow> ('s \<Rightarrow> 'w) \<Rightarrow> ('w \<Rightarrow> 's \<Rightarrow> 's) \<Rightarrow> ('w, 'r) code \<Rightarrow> ('l, 's, 'r) lcode" where
  "embed l g p (Finish r) = LFinish r"
| "embed l g p (LockM c) = LLock l (embed l g p c)"
| "embed l g p (UnlockM c) = LUnlock l (embed l g p c)"
| "embed l g p (Act u k) = LAct (\<lambda>s. p (u (g s)) s) (\<lambda>s. embed l g p (k (g s)))"

section \<open>Threads\<close>

record ('l, 'w, 'r) pool =
  pl_shared :: 'w
  pl_owner :: "'l \<Rightarrow> (nat \<times> nat) option"
  pl_threads :: "('l, 'w, 'r) lcode list"

definition lfinished :: "('l, 'w, 'r) lcode \<Rightarrow> bool" where
  "lfinished c = (case c of LFinish r \<Rightarrow> True | _ \<Rightarrow> False)"

definition lock_step ::
  "('l \<Rightarrow> bool) \<Rightarrow> ('l, 'w, 'r) pool \<Rightarrow> nat \<Rightarrow> ('l, 'w, 'r) pool option" where
  "lock_step rec s i =
     (if i < length (pl_threads s) then
        (case pl_threads s ! i of
           LFinish r \<Rightarrow> None
         | LLock l c \<Rightarrow>
             (case pl_owner s l of
                None \<Rightarrow> Some (s\<lparr>pl_owner := (pl_owner s)(l := Some (i, 1)), pl_threads := (pl_threads s)[i := c]\<rparr>)
              | Some (j, n) \<Rightarrow>
                  if rec l \<and> j = i
                  then Some (s\<lparr>pl_owner := (pl_owner s)(l := Some (i, Suc n)), pl_threads := (pl_threads s)[i := c]\<rparr>)
                  else None)
         | LUnlock l c \<Rightarrow>
             (case pl_owner s l of
                None \<Rightarrow> None
              | Some (j, n) \<Rightarrow>
                  if j = i
                  then Some (s\<lparr>pl_owner := (pl_owner s)(l := (if n \<le> 1 then None else Some (i, n - 1))),
                               pl_threads := (pl_threads s)[i := c]\<rparr>)
                  else None)
         | LJoin j c \<Rightarrow>
             if j < length (pl_threads s) \<and> lfinished (pl_threads s ! j)
             then Some (s\<lparr>pl_threads := (pl_threads s)[i := c]\<rparr>) else None
         | LAct u k \<Rightarrow>
             Some (s\<lparr>pl_shared := u (pl_shared s), pl_threads := (pl_threads s)[i := k (pl_shared s)]\<rparr>))
      else None)"

definition start_pool :: "'w \<Rightarrow> ('l, 'w, 'r) lcode list \<Rightarrow> ('l, 'w, 'r) pool" where
  "start_pool w cs = \<lparr>pl_shared = w, pl_owner = (\<lambda>_. None), pl_threads = cs\<rparr>"

section \<open>The discipline\<close>

text \<open>
  \<open>ordered rec rank I i m c h\<close>: the code \<open>c\<close> of thread \<open>i\<close> of \<open>m\<close>, with the locks \<open>h\<close> held, gives
  them all back; it locks a mutex it holds only when it is recursive, and another one only when
  its rank is above those it holds; it joins only later threads, with nothing held. It may rely
  on the invariant \<open>I\<close> of the shared state, and keeps it.
\<close>

primrec ordered ::
  "('l \<Rightarrow> bool) \<Rightarrow> ('l \<Rightarrow> nat) \<Rightarrow> ('w \<Rightarrow> bool) \<Rightarrow> nat \<Rightarrow> nat \<Rightarrow> ('l, 'w, 'r) lcode \<Rightarrow> ('l \<Rightarrow> nat) \<Rightarrow> bool" where
  "ordered rec rank I i m (LFinish r) h = (\<forall>l. h l = 0)"
| "ordered rec rank I i m (LLock l c) h =
     ((if 0 < h l then rec l else \<forall>l'. 0 < h l' \<longrightarrow> rank l' < rank l) \<and> ordered rec rank I i m c (h(l := Suc (h l))))"
| "ordered rec rank I i m (LUnlock l c) h = (0 < h l \<and> ordered rec rank I i m c (h(l := h l - 1)))"
| "ordered rec rank I i m (LJoin j c) h = (i < j \<and> j < m \<and> (\<forall>l. h l = 0) \<and> ordered rec rank I i m c h)"
| "ordered rec rank I i m (LAct u k) h = (\<forall>w. I w \<longrightarrow> I (u w) \<and> ordered rec rank I i m (k w) h)"

text \<open>The locks of thread \<open>i\<close>.\<close>

definition holds :: "('l \<Rightarrow> (nat \<times> nat) option) \<Rightarrow> nat \<Rightarrow> 'l \<Rightarrow> nat" where
  "holds ow i l = held (ow l) i"

definition pool_inv :: "('l \<Rightarrow> bool) \<Rightarrow> ('l \<Rightarrow> nat) \<Rightarrow> ('w \<Rightarrow> bool) \<Rightarrow> nat \<Rightarrow> ('l, 'w, 'r) pool \<Rightarrow> bool" where
  "pool_inv rec rank I m s \<longleftrightarrow>
     I (pl_shared s) \<and> length (pl_threads s) = m \<and>
     (\<forall>i < m. ordered rec rank I i m (pl_threads s ! i) (holds (pl_owner s) i)) \<and>
     (\<forall>l i n. pl_owner s l = Some (i, n) \<longrightarrow> i < m \<and> 0 < n)"

lemma lfinished_iff: "lfinished c \<longleftrightarrow> (\<exists>r. c = LFinish r)"
  by (cases c) (simp_all add: lfinished_def)

lemma lock_step_cases:
  assumes "lock_step rec s i = Some s'"
  obtains (lock) l c where "i < length (pl_threads s)" "pl_threads s ! i = LLock l c" "pl_owner s l = None"
    "s' = s\<lparr>pl_owner := (pl_owner s)(l := Some (i, 1)), pl_threads := (pl_threads s)[i := c]\<rparr>"
  | (relock) l c n where "i < length (pl_threads s)" "pl_threads s ! i = LLock l c" "pl_owner s l = Some (i, n)" "rec l"
    "s' = s\<lparr>pl_owner := (pl_owner s)(l := Some (i, Suc n)), pl_threads := (pl_threads s)[i := c]\<rparr>"
  | (unlock) l c n where "i < length (pl_threads s)" "pl_threads s ! i = LUnlock l c" "pl_owner s l = Some (i, n)"
    "s' = s\<lparr>pl_owner := (pl_owner s)(l := (if n \<le> 1 then None else Some (i, n - 1))),
           pl_threads := (pl_threads s)[i := c]\<rparr>"
  | (join) j c where "i < length (pl_threads s)" "pl_threads s ! i = LJoin j c" "lfinished (pl_threads s ! j)"
    "s' = s\<lparr>pl_threads := (pl_threads s)[i := c]\<rparr>"
  | (act) u k where "i < length (pl_threads s)" "pl_threads s ! i = LAct u k"
    "s' = s\<lparr>pl_shared := u (pl_shared s), pl_threads := (pl_threads s)[i := k (pl_shared s)]\<rparr>"
  using assms by (auto simp: lock_step_def split: if_splits lcode.splits option.splits)

lemma holds_upd:
  "holds (ow(l := Some (i, n))) i = (holds ow i)(l := n)"
  "holds (ow(l := None)) i = (holds ow i)(l := 0)"
  by (auto simp: holds_def)

lemma holds_other: "i \<noteq> j \<Longrightarrow> ow l = Some (i, n) \<or> ow l = None \<Longrightarrow> x = None \<or> (\<exists>n'. x = Some (i, n')) \<Longrightarrow>
    holds (ow(l := x)) j = holds ow j"
  by (auto simp: holds_def)

lemma pool_invD:
  "pool_inv rec rank I m s \<Longrightarrow> i < m \<Longrightarrow> ordered rec rank I i m (pl_threads s ! i) (holds (pl_owner s) i)"
  "pool_inv rec rank I m s \<Longrightarrow> pl_owner s l = Some (i, n) \<Longrightarrow> i < m \<and> 0 < n"
  "pool_inv rec rank I m s \<Longrightarrow> length (pl_threads s) = m"
  "pool_inv rec rank I m s \<Longrightarrow> I (pl_shared s)"
  unfolding pool_inv_def by blast+

text \<open>Replacing the code of one thread and the owner of one mutex.\<close>

lemma pool_inv_update:
  assumes "pool_inv rec rank I m s" and "i < m"
    and "pl_owner s l = None \<or> (\<exists>n. pl_owner s l = Some (i, n))"
    and "x = None \<or> (\<exists>n. x = Some (i, n) \<and> 0 < n)"
    and "ordered rec rank I i m c (holds ((pl_owner s)(l := x)) i)"
  shows "pool_inv rec rank I m (s\<lparr>pl_owner := (pl_owner s)(l := x), pl_threads := (pl_threads s)[i := c]\<rparr>)"
proof -
  have o: "holds ((pl_owner s)(l := x)) j = holds (pl_owner s) j" if "j \<noteq> i" for j
    using holds_other [of i j "pl_owner s" l _ x] assms(3,4) that by blast
  have "ordered rec rank I j m ((pl_threads s)[i := c] ! j) (holds ((pl_owner s)(l := x)) j)" if "j < m" for j
    using pool_invD(1) [OF assms(1) that] o [of j] assms(2,5) pool_invD(3) [OF assms(1)]
    by (cases "j = i") simp_all
  then show ?thesis
    using assms(1,2,4) by (auto simp: pool_inv_def split: if_splits)
qed

lemma lock_step_inv:
  assumes "pool_inv rec rank I m s" and "lock_step rec s i = Some s'"
  shows "pool_inv rec rank I m s'"
  using assms(2)
proof (cases rule: lock_step_cases)
  case (lock l c)
  have i: "i < m" using lock(1) pool_invD(3) [OF assms(1)] by simp
  have "holds (pl_owner s) i l = 0" using lock(3) by (simp add: holds_def)
  then have "ordered rec rank I i m c ((holds (pl_owner s) i)(l := 1))"
    using pool_invD(1) [OF assms(1) i] lock(2) by simp
  then show ?thesis
    using pool_inv_update [OF assms(1) i, of l "Some (i, 1)" c] lock(3,4) by (simp add: holds_upd)
next
  case (relock l c n)
  have i: "i < m" using relock(1) pool_invD(3) [OF assms(1)] by simp
  have "holds (pl_owner s) i l = n" using relock(3) by (simp add: holds_def)
  then have "ordered rec rank I i m c ((holds (pl_owner s) i)(l := Suc n))"
    using pool_invD(1) [OF assms(1) i] relock(2) by (simp split: if_splits)
  then show ?thesis
    using pool_inv_update [OF assms(1) i, of l "Some (i, Suc n)" c] relock(3,5) by (simp add: holds_upd)
next
  case (unlock l c n)
  have i: "i < m" using unlock(1) pool_invD(3) [OF assms(1)] by simp
  have "holds (pl_owner s) i l = n" using unlock(3) by (simp add: holds_def)
  then have c: "ordered rec rank I i m c ((holds (pl_owner s) i)(l := n - 1))"
    using pool_invD(1) [OF assms(1) i] unlock(2) by simp
  show ?thesis
  proof (cases "n \<le> 1")
    case True
    then have "n - 1 = 0" by simp
    then show ?thesis
      using pool_inv_update [OF assms(1) i, of l None c] unlock(3,4) c True by (simp add: holds_upd)
  next
    case False
    then show ?thesis
      using pool_inv_update [OF assms(1) i, of l "Some (i, n - 1)" c] unlock(3,4) c by (simp add: holds_upd)
  qed
next
  case (join j c)
  then show ?thesis
    using assms(1) pool_invD(1) [OF assms(1), of i] by (auto simp: pool_inv_def nth_list_update)
next
  case (act u k)
  then show ?thesis
    using assms(1) pool_invD(1) [OF assms(1), of i] by (auto simp: pool_inv_def nth_list_update)
qed

section \<open>Progress\<close>

text \<open>The thread a waiting thread waits for.\<close>

lemma lock_waits:
  assumes "pool_inv rec rank I m s" and "i < m" and "pl_threads s ! i = LLock l c" and "lock_step rec s i = None"
  shows "\<exists>j n. pl_owner s l = Some (j, n) \<and> j < m \<and> (\<forall>l'. 0 < holds (pl_owner s) i l' \<longrightarrow> rank l' < rank l)"
proof -
  have o: "ordered rec rank I i m (LLock l c) (holds (pl_owner s) i)"
    using pool_invD(1) [OF assms(1,2)] assms(3) by simp
  obtain j n where jn: "pl_owner s l = Some (j, n)"
    using assms(2-4) pool_invD(3) [OF assms(1)] by (auto simp: lock_step_def split: option.splits)
  have "\<not> (rec l \<and> j = i)" using assms(2-4) jn pool_invD(3) [OF assms(1)] by (auto simp: lock_step_def)
  moreover have "0 < holds (pl_owner s) i l \<Longrightarrow> j = i" using jn by (auto simp: holds_def split: if_splits)
  ultimately have "\<forall>l'. 0 < holds (pl_owner s) i l' \<longrightarrow> rank l' < rank l"
    using o by (cases "0 < holds (pl_owner s) i l") simp_all
  then show ?thesis using jn pool_invD(2) [OF assms(1) jn] by blast
qed

lemma waits:
  assumes "pool_inv rec rank I m s" and "i < m" and "\<not> lfinished (pl_threads s ! i)"
    and "lock_step rec s i = None"
  obtains (lock) l c where "pl_threads s ! i = LLock l c"
  | (join) j c where "pl_threads s ! i = LJoin j c" "i < j" "j < m" "\<not> lfinished (pl_threads s ! j)"
    "\<forall>l. holds (pl_owner s) i l = 0"
proof (cases "pl_threads s ! i")
  case (LUnlock l c)
  have "0 < holds (pl_owner s) i l" using pool_invD(1) [OF assms(1,2)] LUnlock by simp
  then obtain n where "pl_owner s l = Some (i, n)" by (cases "pl_owner s l") (auto simp: holds_def split: if_splits)
  then show thesis using assms(2,4) LUnlock pool_invD(3) [OF assms(1)] by (simp add: lock_step_def)
next
  case (LJoin j c)
  have o: "i < j \<and> j < m \<and> (\<forall>l. holds (pl_owner s) i l = 0)"
    using pool_invD(1) [OF assms(1,2)] LJoin by simp
  have "\<not> lfinished (pl_threads s ! j)"
    using assms(2,4) LJoin o pool_invD(3) [OF assms(1)] by (auto simp: lock_step_def)
  then show thesis using join LJoin o by blast
next
  case (LLock l c)
  then show thesis by (rule lock)
next
  case (LFinish r)
  then show thesis using assms(3) by (simp add: lfinished_def)
next
  case (LAct u k)
  then show thesis using assms(2,4) pool_invD(3) [OF assms(1)] by (simp add: lock_step_def)
qed

text \<open>A thread that owns a mutex has not ended and does not join.\<close>

lemma owner_works:
  assumes "pool_inv rec rank I m s" and "pl_owner s l = Some (j, n)"
  shows "\<not> lfinished (pl_threads s ! j)" and "\<not> (\<forall>l. holds (pl_owner s) j l = 0)" and "0 < holds (pl_owner s) j l"
proof -
  have j: "j < m" "0 < n" using pool_invD(2) [OF assms] by simp_all
  show h: "0 < holds (pl_owner s) j l" using assms(2) j(2) by (simp add: holds_def)
  then show "\<not> (\<forall>l. holds (pl_owner s) j l = 0)" by (metis less_numeral_extra(3))
  then show "\<not> lfinished (pl_threads s ! j)"
    using pool_invD(1) [OF assms(1) j(1)] by (auto simp: lfinished_iff)
qed

text \<open>Following the locks up their ranks ends at a thread that can move.\<close>

lemma lock_chain_moves:
  assumes "pool_inv rec rank I m s" and "\<And>l. rank l < b"
  shows "i < m \<Longrightarrow> pl_threads s ! i = LLock l c \<Longrightarrow> \<exists>j s'. lock_step rec s j = Some s'"
proof (induction "b - rank l" arbitrary: i l c rule: less_induct)
  case less
  show ?case
  proof (cases "lock_step rec s i")
    case None
    obtain j n where j: "pl_owner s l = Some (j, n)" "j < m"
      using lock_waits [OF assms(1) less.prems None] by blast
    note jw = owner_works [OF assms(1) j(1)]
    show ?thesis
    proof (cases "lock_step rec s j")
      case None
      obtain l' c' where l': "pl_threads s ! j = LLock l' c'"
        using waits [OF assms(1) j(2) jw(1) None] jw(2) by metis
      have "rank l < rank l'" using lock_waits [OF assms(1) j(2) l' None] jw(3) by blast
      then have "b - rank l' < b - rank l" using assms(2) [of l'] by simp
      then show ?thesis using less.hyps [OF _ j(2) l'] by blast
    qed blast
  qed blast
qed

lemma pool_moves:
  assumes "pool_inv rec rank I m s" and "\<And>l. rank l < b"
  shows "i < m \<Longrightarrow> \<not> lfinished (pl_threads s ! i) \<Longrightarrow> \<exists>j s'. lock_step rec s j = Some s'"
proof (induction "m - i" arbitrary: i rule: less_induct)
  case less
  show ?case
  proof (cases "lock_step rec s i")
    case None
    show ?thesis
    proof (rule waits [OF assms(1) less.prems None])
      fix l c assume "pl_threads s ! i = LLock l c"
      then show ?thesis by (rule lock_chain_moves [OF assms less.prems(1)])
    next
      fix j c assume j: "i < j" "j < m" "\<not> lfinished (pl_threads s ! j)"
      have "m - j < m - i" using j(1,2) by simp
      then show ?thesis by (rule less.hyps [OF _ j(2,3)])
    qed
  qed blast
qed

text \<open>From the start no run gets stuck.\<close>

theorem pool_never_stuck:
  assumes "\<And>l. rank l < b" and "I w" and "\<And>i. i < length cs \<Longrightarrow> ordered rec rank I i (length cs) (cs ! i) (\<lambda>_. 0)"
    and "run_list (lock_step rec) (start_pool w cs) sched = Some s"
  shows "(\<forall>c \<in> set (pl_threads s). lfinished c) \<or> (\<exists>j s'. lock_step rec s j = Some s')"
proof -
  have h: "holds (\<lambda>_. None) i = (\<lambda>_. 0)" for i by (rule ext) (simp add: holds_def)
  have "pool_inv rec rank I (length cs) (start_pool w cs)"
    using assms(2,3) by (simp add: pool_inv_def start_pool_def h)
  then have inv: "pool_inv rec rank I (length cs) s"
    by (rule run_list_invariant [OF assms(4)]) (rule lock_step_inv)
  show ?thesis
    using pool_moves [OF inv assms(1)] pool_invD(3) [OF inv] by (metis in_set_conv_nth)
qed

section \<open>Termination\<close>

inductive lchild :: "('l, 'w, 'r) lcode \<Rightarrow> ('l, 'w, 'r) lcode \<Rightarrow> bool" where
  lchild_lock: "lchild c (LLock l c)"
| lchild_unlock: "lchild c (LUnlock l c)"
| lchild_join: "lchild c (LJoin j c)"
| lchild_act: "lchild (k w) (LAct u k)"

inductive_simps lchild_simps [simp]:
  "lchild d (LFinish r)" "lchild d (LLock l c)" "lchild d (LUnlock l c)" "lchild d (LJoin j c)" "lchild d (LAct u k)"

lemma wf_lchild: "wf {(d, c :: ('l, 'w, 'r) lcode). lchild d c}"
proof (rule wfUNIVI)
  fix P :: "('l, 'w, 'r) lcode \<Rightarrow> bool" and c
  assume step: "\<forall>c. (\<forall>d. (d, c) \<in> {(d, c). lchild d c} \<longrightarrow> P d) \<longrightarrow> P c"
  show "P c"
  proof (induction c)
    case (LAct u k)
    have "\<forall>d. (d, LAct u k) \<in> {(d, c). lchild d c} \<longrightarrow> P d" using LAct by auto
    with step show ?case by blast
  qed (use step in auto)
qed

theorem pools_terminate:
  fixes rec :: "'l \<Rightarrow> bool"
  shows "wf {(s', s :: ('l, 'w, 'r) pool). \<exists>i. lock_step rec s i = Some s'}"
proof (rule wf_subset)
  show "wf (inv_image (mult1 {(d, c). lchild d c}) (\<lambda>s. mset (pl_threads s)))"
    by (rule wf_inv_image [OF wf_mult1 [OF wf_lchild]])
  show "{(s', s :: ('l, 'w, 'r) pool). \<exists>i. lock_step rec s i = Some s'} \<subseteq>
      inv_image (mult1 {(d, c). lchild d c}) (\<lambda>s. mset (pl_threads s))"
  proof
    fix x :: "('l, 'w, 'r) pool \<times> ('l, 'w, 'r) pool"
    assume "x \<in> {(s', s). \<exists>i. lock_step rec s i = Some s'}"
    then obtain s' s i where x: "x = (s', s)" and "lock_step rec s i = Some s'" by blast
    from this(2) obtain d where d: "i < length (pl_threads s)" "lchild d (pl_threads s ! i)"
      "pl_threads s' = (pl_threads s)[i := d]"
      by (cases rule: lock_step_cases) auto
    show "x \<in> inv_image (mult1 {(d, c). lchild d c}) (\<lambda>s. mset (pl_threads s))"
      using mset_update_mult1 [of i "pl_threads s" d "{(d, c). lchild d c}"] d by (simp add: x inv_image_def)
  qed
qed

end
