(* ===== verification/Lock_Embed.thy ===== *)
theory Lock_Embed
  imports Lock_Order Mutex_Ops
begin

text \<open>
  Building the code of \<open>Lock_Order\<close> from pieces: what one thread alone does, and rules by which
  a composition keeps the order of the locks.
\<close>

section \<open>One thread alone\<close>

primrec lrun :: "('l, 'w, 'r) lcode \<Rightarrow> 'w \<Rightarrow> 'r \<times> 'w" where
  "lrun (LFinish r) w = (r, w)"
| "lrun (LLock l c) w = lrun c w"
| "lrun (LUnlock l c) w = lrun c w"
| "lrun (LJoin j c) w = lrun c w"
| "lrun (LAct u k) w = lrun (k w) (u w)"

lemma lrun_bindl: "lrun (bindl c f) w = lrun (f (fst (lrun c w))) (snd (lrun c w))"
  by (induction c arbitrary: w) simp_all

lemma lrun_lcall [simp]: "lrun (lcall p) w = p w"
  by (simp add: lcall_def)

lemma lrun_seql: "lrun (seql c f) w = bindp (lrun c) (\<lambda>a. lrun (f a)) w"
  by (cases "lrun c w") (simp add: seql_def lrun_bindl bindp_def split: outcome.split)

lemma lrun_guardedl [simp]: "lrun (guardedl l c) w = lrun c w"
  by (simp add: guardedl_def lrun_bindl)

text \<open>A program on a part of the state.\<close>

definition on_part :: "('s \<Rightarrow> 'w) \<Rightarrow> ('w \<Rightarrow> 's \<Rightarrow> 's) \<Rightarrow> ('w \<Rightarrow> 'r \<times> 'w) \<Rightarrow> 's \<Rightarrow> 'r \<times> 's" where
  "on_part g p f s = (fst (f (g s)), p (snd (f (g s))) s)"

text \<open>
  A part of the state: what is put is got, a second put hides the first, and putting back
  changes nothing. Programs on the part compose as they do alone.
\<close>

locale state_part =
  fixes getp :: "'s \<Rightarrow> 'w" and putp :: "'w \<Rightarrow> 's \<Rightarrow> 's"
  assumes get_put [simp]: "getp (putp w s) = w"
    and put_put [simp]: "putp w (putp w' s) = putp w s"
    and put_get [simp]: "putp (getp s) s = s"
begin

lemma lrun_embed: "lrun (embed l getp putp c) s = on_part getp putp (run c) s"
proof (induction c arbitrary: s)
  case (Act u k)
  have "lrun (embed l getp putp (k (getp s))) (putp (u (getp s)) s) =
      on_part getp putp (run (k (getp s))) (putp (u (getp s)) s)"
    by (rule Act.IH) simp
  then show ?case by (simp add: on_part_def)
qed (simp_all add: on_part_def)

lemma on_part_bindp: "bindp (on_part getp putp f) (\<lambda>a. on_part getp putp (h a)) = on_part getp putp (bindp f h)"
  by (rule ext) (auto simp: bindp_def on_part_def split: prod.split outcome.split)

lemma on_part_ret: "on_part getp putp (ret a) = ret a"
  by (rule ext) (simp add: on_part_def)

lemma on_part_raise: "on_part getp putp (raise e) = raise e"
  by (rule ext) (simp add: on_part_def)

lemma on_part_lift_sum: "on_part getp putp (lift_sum r) = lift_sum r"
  by (cases r) (simp_all add: on_part_ret on_part_raise)

lemma on_part_catchp: "catchp (on_part getp putp m) (\<lambda>e. on_part getp putp (h e)) = on_part getp putp (catchp m h)"
  by (rule ext) (auto simp: catchp_def on_part_def split: prod.split outcome.split)

end

section \<open>Rules for the order\<close>

text \<open>All mutexes the code locks have at least the rank \<open>b\<close>, and it joins nobody.\<close>

primrec locks_from :: "('l \<Rightarrow> nat) \<Rightarrow> nat \<Rightarrow> ('l, 'w, 'r) lcode \<Rightarrow> bool" where
  "locks_from rank b (LFinish r) = True"
| "locks_from rank b (LLock l c) = (b \<le> rank l \<and> locks_from rank b c)"
| "locks_from rank b (LUnlock l c) = locks_from rank b c"
| "locks_from rank b (LJoin j c) = False"
| "locks_from rank b (LAct u k) = (\<forall>w. locks_from rank b (k w))"

definition closed_code ::
  "('l \<Rightarrow> bool) \<Rightarrow> ('l \<Rightarrow> nat) \<Rightarrow> ('w \<Rightarrow> bool) \<Rightarrow> nat \<Rightarrow> nat \<Rightarrow> nat \<Rightarrow> ('l, 'w, 'r) lcode \<Rightarrow> bool" where
  "closed_code rec rank I i m b c \<longleftrightarrow> ordered rec rank I i m c (\<lambda>_. 0) \<and> locks_from rank b c"

lemma locks_from_mono: "locks_from rank b c \<Longrightarrow> b' \<le> b \<Longrightarrow> locks_from rank b' c"
  by (induction c) auto

lemma closed_mono: "closed_code rec rank I i m b c \<Longrightarrow> b' \<le> b \<Longrightarrow> closed_code rec rank I i m b' c"
  by (auto simp: closed_code_def intro: locks_from_mono)

lemma locks_from_bindl: "locks_from rank b c \<Longrightarrow> (\<And>r. locks_from rank b (f r)) \<Longrightarrow> locks_from rank b (bindl c f)"
  by (induction c) auto

text \<open>The locks of the code together with those of its surroundings.\<close>

definition add_held :: "('l \<Rightarrow> nat) \<Rightarrow> ('l \<Rightarrow> nat) \<Rightarrow> 'l \<Rightarrow> nat" where
  "add_held h0 h l = h0 l + h l"

lemma add_held_0 [simp]: "add_held (\<lambda>_. 0) h = h"
  by (rule ext) (simp add: add_held_def)

lemma add_held_Suc: "(add_held h0 h)(l := Suc (add_held h0 h l)) = add_held (h0(l := Suc (h0 l))) h"
  by (rule ext) (simp add: add_held_def)

lemma add_held_less: "0 < h0 l \<Longrightarrow> (add_held h0 h)(l := add_held h0 h l - 1) = add_held (h0(l := h0 l - 1)) h"
  by (rule ext) (simp add: add_held_def)

text \<open>Code that starts above the locks held by its surroundings.\<close>

lemma ordered_bindl:
  assumes "\<And>l. 0 < h l \<Longrightarrow> rank l < b" and "\<And>r. ordered rec rank I i m (f r) h"
  shows "ordered rec rank I i m c h0 \<Longrightarrow> locks_from rank b c \<Longrightarrow> \<forall>l. 0 < h0 l \<longrightarrow> b \<le> rank l \<Longrightarrow>
    ordered rec rank I i m (bindl c f) (add_held h0 h)"
proof (induction c arbitrary: h0)
  case (LFinish r)
  then have "h0 = (\<lambda>_. 0)" by (simp add: fun_eq_iff)
  then show ?case using assms(2) [of r] by simp
next
  case (LLock l c)
  have hl: "h l = 0" using assms(1) [of l] LLock.prems(2) by (cases "h l") auto
  have o: "ordered rec rank I i m (bindl c f) (add_held (h0(l := Suc (h0 l))) h)"
  proof (rule LLock.IH)
    show "ordered rec rank I i m c (h0(l := Suc (h0 l)))" using LLock.prems(1) by simp
  qed (use LLock.prems(2,3) in auto)
  have "if 0 < add_held h0 h l then rec l else \<forall>l'. 0 < add_held h0 h l' \<longrightarrow> rank l' < rank l"
  proof (cases "h0 l")
    case 0
    have "rank l' < rank l" if "0 < add_held h0 h l'" for l'
    proof (cases "h0 l'")
      case 0
      then have "rank l' < b" using that assms(1) [of l'] by (simp add: add_held_def)
      then show ?thesis using LLock.prems(2) by simp
    next
      case (Suc n)
      then show ?thesis using LLock.prems(1) \<open>h0 l = 0\<close> by simp
    qed
    then show ?thesis using 0 hl by (simp add: add_held_def)
  qed (use LLock.prems(1) hl in \<open>simp add: add_held_def\<close>)
  then show ?case using o by (simp add: add_held_Suc)
next
  case (LUnlock l c)
  have hl: "0 < h0 l" using LUnlock.prems(1) by simp
  have "ordered rec rank I i m (bindl c f) (add_held (h0(l := h0 l - 1)) h)"
  proof (rule LUnlock.IH)
    show "ordered rec rank I i m c (h0(l := h0 l - 1))" using LUnlock.prems(1) by simp
  qed (use LUnlock.prems(2,3) in auto)
  moreover have "0 < add_held h0 h l" using hl by (simp add: add_held_def)
  ultimately show ?case using add_held_less [where ?h0.0 = h0 and l = l, OF hl] by simp
next
  case (LAct u k)
  have "ordered rec rank I i m (bindl (k w) f) (add_held h0 h)" if "I w" for w
    using LAct.IH [of "k w" h0] LAct.prems that by auto
  then show ?case using LAct.prems(1) by simp
qed simp

lemma closed_bindl:
  assumes "closed_code rec rank I i m b c" and "\<And>r. closed_code rec rank I i m b (f r)"
  shows "closed_code rec rank I i m b (bindl c f)"
  using ordered_bindl [of "\<lambda>_. 0" rank b rec I i m f c "\<lambda>_. 0"] locks_from_bindl [of rank b c f] assms
  by (simp add: closed_code_def)

text \<open>Closed code before code that may join.\<close>

lemma ordered_after_closed:
  assumes "closed_code rec rank I i m b c" and "\<And>r. ordered rec rank I i m (f r) (\<lambda>_. 0)"
  shows "ordered rec rank I i m (bindl c f) (\<lambda>_. 0)"
  using ordered_bindl [of "\<lambda>_. 0" rank b rec I i m f c "\<lambda>_. 0"] assms by (simp add: closed_code_def)

lemma closed_LFinish: "closed_code rec rank I i m b (LFinish r)"
  by (simp add: closed_code_def)

lemma closed_lcall: "(\<And>w. I w \<Longrightarrow> I (snd (p w))) \<Longrightarrow> closed_code rec rank I i m b (lcall p)"
  by (simp add: closed_code_def lcall_def)

lemma closed_seql:
  assumes "closed_code rec rank I i m b c" and "\<And>a. closed_code rec rank I i m b (f a)"
  shows "closed_code rec rank I i m b (seql c f)"
  unfolding seql_def by (rule closed_bindl [OF assms(1)]) (auto split: outcome.split intro: assms(2) closed_LFinish)

lemma closed_guardedl:
  assumes "closed_code rec rank I i m (Suc (rank l)) c" and "b \<le> rank l"
  shows "closed_code rec rank I i m b (guardedl l c)"
proof -
  let ?h = "(\<lambda>_. 0)(l := 1)"
  have "ordered rec rank I i m (bindl c (\<lambda>r. LUnlock l (LFinish r))) (add_held (\<lambda>_. 0) ?h)"
    by (rule ordered_bindl [where b = "Suc (rank l)"])
      (use assms(1) in \<open>simp_all add: closed_code_def split: if_splits\<close>)
  then have "ordered rec rank I i m (guardedl l c) (\<lambda>_. 0)"
    unfolding guardedl_def add_held_0 by simp
  moreover have "locks_from rank b (guardedl l c)"
    unfolding guardedl_def using assms
    by (auto simp: closed_code_def intro!: locks_from_bindl intro: locks_from_mono)
  ultimately show ?thesis by (simp add: closed_code_def)
qed

text \<open>
  Code on one mutex that locks and unlocks in pairs; in contrast to \<open>protected\<close> it may touch
  the state without the mutex, and it relies on an invariant.
\<close>

primrec paired :: "bool \<Rightarrow> ('w \<Rightarrow> bool) \<Rightarrow> ('w, 'r) code \<Rightarrow> nat \<Rightarrow> bool" where
  "paired rec J (Finish r) n = (n = 0)"
| "paired rec J (LockM c) n = ((n = 0 \<or> rec) \<and> paired rec J c (Suc n))"
| "paired rec J (UnlockM c) n = (0 < n \<and> paired rec J c (n - 1))"
| "paired rec J (Act u k) n = (\<forall>w. J w \<longrightarrow> J (u w) \<and> paired rec J (k w) n)"

lemma protected_paired: "protected rec c n \<Longrightarrow> paired rec (\<lambda>_. True) c n"
  by (induction c arbitrary: n) auto

lemma paired_bindc:
  "paired rec J c n \<Longrightarrow> (\<And>r. paired rec J (f r) 0) \<Longrightarrow> paired rec J (bindc c f) n"
  by (induction c arbitrary: n) auto

lemma paired_guarded_code: "guarded_code rec c \<Longrightarrow> paired rec (\<lambda>_. True) c 0"
proof -
  assume "guarded_code rec c"
  then obtain d where d: "c = guarded d" "balanced rec d 0" by (auto simp: guarded_code_def)
  have "protected rec (bindc d (\<lambda>r. UnlockM (Finish r))) 1"
    using protected_bindc [OF d(2), of 1 "\<lambda>r. UnlockM (Finish r)"] by simp
  then show ?thesis by (intro protected_paired) (simp add: d(1) guarded_def)
qed

lemma closed_embed:
  assumes "paired (rec l) J c 0" and "\<And>s. I s \<Longrightarrow> J (g s)" and "\<And>w s. I s \<Longrightarrow> J w \<Longrightarrow> I (p w s)"
    and "b \<le> rank l"
  shows "closed_code rec rank I i m b (embed l g p c)"
proof -
  have "locks_from rank b (embed l g p c)" by (induction c) (use assms(4) in auto)
  moreover have "ordered rec rank I i m (embed l g p d) ((\<lambda>_. 0)(l := n))" if "paired (rec l) J d n" for d n
    using that
  proof (induction d arbitrary: n)
    case (Act u k)
    have "ordered rec rank I i m (embed l g p (k (g s))) ((\<lambda>_. 0)(l := n))" if "I s" for s
      by (rule Act.IH) (use Act.prems assms(2) that in auto)
    then show ?case using Act.prems assms(2,3) by (simp del: fun_upd_apply)
  qed (auto split: if_splits)
  from this [OF assms(1)] have "ordered rec rank I i m (embed l g p c) (\<lambda>_. 0)"
    by (simp add: fun_upd_idem)
  ultimately show ?thesis by (simp add: closed_code_def)
qed

end
