(* ===== verification/Daemon_Code.thy ===== *)
theory Daemon_Code
  imports Lock_Embed Table_Threads Config_Threads Rpc_Threads Daemon_Properties
begin

text \<open>
  The threads of the worker process with all their mutexes: the requests of the gRPC server,
  the update thread, and the thread that stops the daemon, over one state with the
  configuration, the RPC service, the stop flag and the outside world. The mutexes are those
  of \<open>RPCService\<close>, \<open>Controller\<close>, \<open>Config\<close> and \<open>ITable\<close>; the pieces that lock only one of them come
  from \<open>Config_Threads\<close>, \<open>Table_Code\<close> and \<open>Rpc_Threads\<close>. A transfer is one step on the world. A
  thread that an exception leaves just ends; guards give their mutex back on every way out.
\<close>

section \<open>State and mutexes\<close>

datatype daemon_lock = ServiceM | ControllerM | ConfigM | TableM

fun lock_rank :: "daemon_lock \<Rightarrow> nat" where
  "lock_rank ServiceM = 0"
| "lock_rank ControllerM = 1"
| "lock_rank ConfigM = 2"
| "lock_rank TableM = 3"

definition lock_recursive :: "daemon_lock \<Rightarrow> bool" where
  "lock_recursive l \<longleftrightarrow> l = TableM"

record ('a, 'w) daemon =
  dm_cfg :: "'a Config"
  dm_rpc :: RPCService
  dm_flag :: bool
  dm_world :: 'w

definition cfg_part :: "('a, 'w) daemon \<Rightarrow> ('a, 'w) cfg" where
  "cfg_part s = (dm_cfg s, dm_world s)"

definition set_cfg_part :: "('a, 'w) cfg \<Rightarrow> ('a, 'w) daemon \<Rightarrow> ('a, 'w) daemon" where
  "set_cfg_part cw s = s\<lparr>dm_cfg := fst cw, dm_world := snd cw\<rparr>"

definition set_world_part :: "'w \<Rightarrow> ('a, 'w) daemon \<Rightarrow> ('a, 'w) daemon" where
  "set_world_part w s = s\<lparr>dm_world := w\<rparr>"

definition service_part :: "('a, 'w) daemon \<Rightarrow> RPCService \<times> ('a, 'w) cfg" where
  "service_part s = (dm_rpc s, (dm_cfg s, dm_world s))"

definition set_service_part :: "RPCService \<times> ('a, 'w) cfg \<Rightarrow> ('a, 'w) daemon \<Rightarrow> ('a, 'w) daemon" where
  "set_service_part x s = s\<lparr>dm_rpc := fst x, dm_cfg := fst (snd x), dm_world := snd (snd x)\<rparr>"

interpretation cfg_of: state_part cfg_part set_cfg_part
  by unfold_locales (simp_all add: cfg_part_def set_cfg_part_def)

interpretation world_of: state_part dm_world set_world_part
  by unfold_locales (simp_all add: set_world_part_def)

interpretation service_of: state_part service_part set_service_part
  by unfold_locales (simp_all add: service_part_def set_service_part_def)

type_synonym ('a, 'w, 'r) dcode = "(daemon_lock, ('a, 'w) daemon, 'r outcome) lcode"

definition on_cfg :: "(('a, 'w) cfg, 'r outcome) code \<Rightarrow> ('a, 'w, 'r) dcode" where
  "on_cfg c = embed ConfigM cfg_part set_cfg_part c"

definition on_tables :: "('w, 'r outcome) code \<Rightarrow> ('a, 'w, 'r) dcode" where
  "on_tables c = embed TableM dm_world set_world_part c"

definition on_service :: "(RPCService \<times> ('a, 'w) cfg, 'r outcome) code \<Rightarrow> ('a, 'w, 'r) dcode" where
  "on_service c = embed ServiceM service_part set_service_part c"

text \<open>One step on the world, one on the service, and a result of the thread's own computation.\<close>

definition world_step :: "('w, 'r) prog \<Rightarrow> ('a, 'w, 'r) dcode" where
  "world_step p = lcall (on_part dm_world set_world_part p)"

definition service_step :: "(RPCService \<times> ('a, 'w) cfg, 'r) prog \<Rightarrow> ('a, 'w, 'r) dcode" where
  "service_step p = lcall (on_part service_part set_service_part p)"

definition sum_code :: "exn + 'r \<Rightarrow> ('a, 'w, 'r) dcode" where
  "sum_code r = LFinish (case r of Inl e \<Rightarrow> Throw e | Inr x \<Rightarrow> Ret x)"

definition read_flag :: "('a, 'w, bool) dcode" where
  "read_flag = lcall (\<lambda>s. (Ret (dm_flag s), s))"

definition catch_code :: "('a, 'w, 'r) dcode \<Rightarrow> (exn \<Rightarrow> ('a, 'w, 'r) dcode) \<Rightarrow> ('a, 'w, 'r) dcode" where
  "catch_code c h = bindl c (\<lambda>r. case r of Throw e \<Rightarrow> h e | _ \<Rightarrow> LFinish r)"

primrec forM_code :: "('x \<Rightarrow> ('a, 'w, unit) dcode) \<Rightarrow> 'x list \<Rightarrow> ('a, 'w, unit) dcode" where
  "forM_code f [] = LFinish (Ret ())"
| "forM_code f (x # xs) = seql (f x) (\<lambda>_. forM_code f xs)"

section \<open>Settings\<close>

definition with_key :: "Section \<Rightarrow> eKeys \<Rightarrow> (string \<Rightarrow> ('a, 'w, 'r) dcode) \<Rightarrow> ('a, 'w, 'r) dcode" where
  "with_key sec k f = seql (sum_code (KeyManager_call eKeys_int daemon_keys sec k)) f"

definition setting_code ::
  "('a, 'w, 'x) ptree_api_scheme \<Rightarrow> Section \<Rightarrow> eKeys \<Rightarrow> string \<Rightarrow> ('a, 'w, string) dcode" where
  "setting_code api sec k d = with_key sec k (\<lambda>key. on_cfg (GetString_code api key d))"

definition timeout_code ::
  "('a, 'w, 'x) ptree_api_scheme \<Rightarrow> 'y lexical_api_scheme \<Rightarrow> ('a, 'w, cint) dcode" where
  "timeout_code api lx =
     seql (setting_code api sectionIEX IEX_UPDATE_PRICE_SECOND (lx_of_int lx updateTime)) (\<lambda>v.
       LFinish (case lx_to_int lx v of None \<Rightarrow> Throw BadLexicalCast | Some i \<Rightarrow> Ret i))"

definition symbols_code :: "('a, 'w, 'x) ptree_api_scheme \<Rightarrow> ('a, 'w, string list) dcode" where
  "symbols_code api =
     with_key sectionIEX IEX_UPDATE_PRICE_SECOND (\<lambda>key. on_cfg (GetArray_code api key updateSymbols))"

section \<open>Requests to the IEX service\<close>

definition CreateUrl_code ::
  "('a, 'w, 'x) ptree_api_scheme \<Rightarrow> string \<Rightarrow> string \<Rightarrow> ('a, 'w, string) dcode" where
  "CreateUrl_code api companySymbol ty =
     seql (setting_code api sectionIEX IEX_URL iexUrl) (\<lambda>base.
     seql (setting_code api sectionIEX IEX_TOCKEN iexToken) (\<lambda>tocken.
       LFinish (Ret (base @ ''/stable/stock/'' @ companySymbol @ ''/'' @ ty @ ''?token='' @ tocken))))"

definition catch_http_code :: "'r \<Rightarrow> ('a, 'w, 'r) dcode \<Rightarrow> ('a, 'w, 'r) dcode" where
  "catch_http_code v c =
     catch_code c (\<lambda>e. LFinish (if is_HTTPException e then Ret v else Throw e))"

definition logo_code ::
  "('a, 'w, 'x) ptree_api_scheme \<Rightarrow> (string \<Rightarrow> ('w, string) prog) \<Rightarrow> string \<Rightarrow> ('a, 'w, string) dcode" where
  "logo_code api fetch short =
     catch_http_code []
       (seql (CreateUrl_code api short ''logo'') (\<lambda>url.
        seql (world_step (fetch url)) (\<lambda>data.
        seql (sum_code (js_parse api data)) (\<lambda>pt.
          sum_code (pt_get api pt ''url'')))))"

definition info_code ::
  "('a, 'w, 'x) ptree_api_scheme \<Rightarrow> (string \<Rightarrow> ('w, string) prog) \<Rightarrow> string \<Rightarrow> string \<Rightarrow>
     ('a, 'w, CompanyInfo) dcode" where
  "info_code api fetch short ty =
     catch_http_code empty_info
       (seql (CreateUrl_code api short ty) (\<lambda>url.
        seql (world_step (fetch url)) (\<lambda>data.
        seql (sum_code (ParseCompanyInfo api data)) (\<lambda>info.
        seql (logo_code api fetch short) (\<lambda>l.
          LFinish (Ret (info\<lparr>logo := l\<rparr>)))))))"

definition GetHTTPCompanyInfo_code ::
  "('a, 'w, 'x) ptree_api_scheme \<Rightarrow> ('w, 'y) curl_api_scheme \<Rightarrow> string \<Rightarrow> string \<Rightarrow> string \<Rightarrow>
     ('a, 'w, CompanyInfo) dcode" where
  "GetHTTPCompanyInfo_code api cu short timeFrame date =
     info_code api (PerformGet cu) short
       (if timeFrame = [] \<and> date = [] then ''quote''
        else if date = [] then ''chart/'' @ timeFrame else ''chart/'' @ timeFrame @ ''/'' @ date)"

section \<open>The gRPC handler\<close>

primrec company_loop_code ::
  "(string \<Rightarrow> ('a, 'w, CompanyInfo) dcode) \<Rightarrow> string list \<Rightarrow> CompanyInfo list \<Rightarrow> ('a, 'w, CompanyInfo list) dcode" where
  "company_loop_code f [] = (\<lambda>result. LFinish (Ret result))"
| "company_loop_code f (company # companies) =
     (\<lambda>result. seql (f company) (\<lambda>info. company_loop_code f companies (result @ [info])))"

definition request_code ::
  "('a, 'w, 'x) ptree_api_scheme \<Rightarrow> ('w, 'y) curl_api_scheme \<Rightarrow> GetCompanyRequest \<Rightarrow> ('a, 'w, grpc_answer) dcode" where
  "request_code api cu rq =
     catch_code
       (seql (company_loop_code (\<lambda>company. GetHTTPCompanyInfo_code api cu company (request_frame rq) (request_date rq))
           (rq_company rq) []) (\<lambda>infos.
        seql (sum_code (companies_json api infos (pt_empty api))) (\<lambda>j.
        seql (sum_code (js_print api j)) (\<lambda>data.
          LFinish (Ret (Status_OK, Some data))))))
       (\<lambda>e. LFinish (Ret (Status_CANCELLED, None)))"

section \<open>The update thread\<close>

definition update_symbol_code ::
  "('a, 'w, 'x) ptree_api_scheme \<Rightarrow> ('w, 'y) curl_api_scheme \<Rightarrow> ('w, 'z) sql_api_scheme \<Rightarrow> string \<Rightarrow>
     ('a, 'w, unit) dcode" where
  "update_symbol_code api cu sq symbol =
     seql (GetHTTPCompanyInfo_code api cu symbol [] []) (\<lambda>info.
     seql (on_tables (Companies_Add_code sq (shortName info) (fullName info) (logo info))) (\<lambda>_.
     seql (on_tables (GetRowID_code sq (shortName info))) (\<lambda>rowId.
       forM_code (\<lambda>p. on_tables (Prices_Add_code sq rowId (price p) (dateTimestamp p))) (priceList info))))"

text \<open>
  \<open>wait_for\<close> with a predicate and zero seconds: the flag is read under the mutex; when it is not
  set, the wait gives the mutex back, its time is over at once, and it takes the mutex again.
\<close>

definition wait_code :: "('a, 'w, unit) dcode" where
  "wait_code =
     LLock ControllerM (seql read_flag (\<lambda>stop.
       if stop then LUnlock ControllerM (LFinish (Ret ()))
       else LUnlock ControllerM (LLock ControllerM (seql read_flag (\<lambda>_. LUnlock ControllerM (LFinish (Ret ())))))))"

primrec update_loop_code :: "('a, 'w, unit) dcode \<Rightarrow> nat \<Rightarrow> ('a, 'w, thread_end) dcode" where
  "update_loop_code round 0 = LFinish (Ret StillRunning)"
| "update_loop_code round (Suc n) =
     seql read_flag (\<lambda>stop.
       if stop then LFinish (Ret Stopped)
       else seql round (\<lambda>_. seql wait_code (\<lambda>_. update_loop_code round n)))"

definition UpdatePrices_code ::
  "('a, 'w, 'x) ptree_api_scheme \<Rightarrow> 'l lexical_api_scheme \<Rightarrow> ('w, 'y) curl_api_scheme \<Rightarrow>
     ('w, 'z) sql_api_scheme \<Rightarrow> nat \<Rightarrow> ('a, 'w, thread_end) dcode" where
  "UpdatePrices_code api lx cu sq n =
     seql (timeout_code api lx) (\<lambda>updateTimeout.
     seql (symbols_code api) (\<lambda>symbols.
       if symbols = [] then LFinish (Ret Stopped)
       else update_loop_code (forM_code (update_symbol_code api cu sq) symbols) n))"

section \<open>Starting and stopping\<close>

text \<open>\<open>RPCService::Start\<close>, which reads two settings while it holds the mutex of the service.\<close>

definition build_step ::
  "('w, 'y) grpc_api_scheme \<Rightarrow> PeakworkServiceImpl \<Rightarrow> string \<Rightarrow> (RPCService \<times> ('a, 'w) cfg, unit) prog" where
  "build_step gr svc addr s =
     (case gr_build gr addr (snd (snd s)) of
        (srv, w1) \<Rightarrow>
          (Ret (), ((fst s)\<lparr>grpcServer := Some (svc\<lparr>server := srv\<rparr>)\<rparr>, (fst (snd s),
             (case server svc of None \<Rightarrow> w1 | Some old \<Rightarrow> gr_destroy gr old w1)))))"

definition set_rpc :: "(RPCService \<Rightarrow> RPCService) \<Rightarrow> ('a, 'w, unit) dcode" where
  "set_rpc f = service_step (modify (\<lambda>s. (f (fst s), snd s)))"

definition ServiceStart_code ::
  "('a, 'w, 'x) ptree_api_scheme \<Rightarrow> ('w, 'y) grpc_api_scheme \<Rightarrow> nat \<Rightarrow> ('a, 'w, unit) dcode" where
  "ServiceStart_code api gr h =
     guardedl ServiceM
       (seql (service_step (gets (\<lambda>s. isStarted (fst s)))) (\<lambda>started.
          if started then LFinish (Ret ())
          else
            seql (set_rpc (\<lambda>r. r\<lparr>userHandler := Some h\<rparr>)) (\<lambda>_.
            seql (service_step (reset_step gr (new_PeakworkServiceImpl h))) (\<lambda>_.
            seql (setting_code api sectionGRPC INTERFACE grpcInterface) (\<lambda>i.
            seql (setting_code api sectionGRPC PORT grpcPort) (\<lambda>p.
            seql (service_step (build_step gr (new_PeakworkServiceImpl h) (i @ '':'' @ p))) (\<lambda>_.
            set_rpc (\<lambda>r. r\<lparr>isStarted := True\<rparr>))))))))"

text \<open>\<open>Controller::Stop\<close>, with the number of the update thread.\<close>

definition Stop_daemon_code :: "nat \<Rightarrow> ('a, 'w, unit) dcode" where
  "Stop_daemon_code updatePricesThr =
     seql (lcall (\<lambda>s. (Ret (), s\<lparr>dm_flag := True\<rparr>))) (\<lambda>_.
     seql (guardedl ControllerM (LFinish (Ret ()))) (\<lambda>_.
     LJoin updatePricesThr (on_service Stop_code)))"

section \<open>The threads of the process\<close>

datatype daemon_op =
    OpConfig config_op
  | OpTable table_op
  | OpRequest GetCompanyRequest
  | OpServiceStart nat
  | OpServiceStop

datatype daemon_result =
    Settings "string list outcome"
  | TableResult "table_result outcome"
  | Answered "grpc_answer outcome"
  | UpdateEnded "thread_end outcome"
  | Done_op "unit outcome"

fun daemon_op_code ::
  "('a, 'w, 'x) ptree_api_scheme \<Rightarrow> ('w, 'y) curl_api_scheme \<Rightarrow> ('w, 'z) sql_api_scheme \<Rightarrow>
     ('w, 'v) grpc_api_scheme \<Rightarrow> daemon_op \<Rightarrow> (daemon_lock, ('a, 'w) daemon, daemon_result) lcode" where
  "daemon_op_code api cu sq gr (OpConfig x) = bindl (on_cfg (config_code api x)) (\<lambda>r. LFinish (Settings r))"
| "daemon_op_code api cu sq gr (OpTable x) = bindl (on_tables (table_code sq x)) (\<lambda>r. LFinish (TableResult r))"
| "daemon_op_code api cu sq gr (OpRequest rq) = bindl (request_code api cu rq) (\<lambda>r. LFinish (Answered r))"
| "daemon_op_code api cu sq gr (OpServiceStart h) = bindl (ServiceStart_code api gr h) (\<lambda>r. LFinish (Done_op r))"
| "daemon_op_code api cu sq gr OpServiceStop = bindl (on_service Stop_code) (\<lambda>r. LFinish (Done_op r))"

primrec daemon_ops_code ::
  "('a, 'w, 'x) ptree_api_scheme \<Rightarrow> ('w, 'y) curl_api_scheme \<Rightarrow> ('w, 'z) sql_api_scheme \<Rightarrow>
     ('w, 'v) grpc_api_scheme \<Rightarrow> daemon_op list \<Rightarrow>
     daemon_result list \<Rightarrow> (daemon_lock, ('a, 'w) daemon, daemon_result list) lcode" where
  "daemon_ops_code api cu sq gr [] = (\<lambda>rs. LFinish rs)"
| "daemon_ops_code api cu sq gr (x # xs) =
     (\<lambda>rs. bindl (daemon_op_code api cu sq gr x) (\<lambda>r. daemon_ops_code api cu sq gr xs (rs @ [r])))"

text \<open>The main thread that stops the controller, the update thread, and threads with any operations.\<close>

definition daemon_pool ::
  "('a, 'w, 'x) ptree_api_scheme \<Rightarrow> 'l lexical_api_scheme \<Rightarrow> ('w, 'y) curl_api_scheme \<Rightarrow>
     ('w, 'z) sql_api_scheme \<Rightarrow> ('w, 'v) grpc_api_scheme \<Rightarrow> nat \<Rightarrow> ('a, 'w) daemon \<Rightarrow> daemon_op list list \<Rightarrow>
     (daemon_lock, ('a, 'w) daemon, daemon_result list) pool" where
  "daemon_pool api lx cu sq gr rounds s opss =
     start_pool s
       (bindl (Stop_daemon_code 1) (\<lambda>r. LFinish [Done_op r]) #
        bindl (UpdatePrices_code api lx cu sq rounds) (\<lambda>r. LFinish [UpdateEnded r]) #
        map (\<lambda>xs. daemon_ops_code api cu sq gr xs []) opss)"

end
