(* ===== verification/Daemon_Alone.thy ===== *)
theory Daemon_Alone
  imports Daemon_Code
begin

text \<open>
  One thread of \<open>Daemon_Code\<close> alone: its code, run from start to end, is the sequential model of
  the other theories.
\<close>

section \<open>One thread alone\<close>

lemma lrun_pieces:
  "lrun (on_cfg c) s = on_part cfg_part set_cfg_part (run c) s"
  "lrun (on_tables t) s = on_part dm_world set_world_part (run t) s"
  "lrun (on_service v) s = on_part service_part set_service_part (run v) s"
  by (simp_all add: on_cfg_def on_tables_def on_service_def cfg_of.lrun_embed world_of.lrun_embed service_of.lrun_embed)

lemma lrun_sum: "lrun (sum_code r) = lift_sum r"
  by (rule ext) (simp add: sum_code_def split: sum.split)

lemma lrun_seql_fun: "lrun (seql c f) = bindp (lrun c) (\<lambda>a. lrun (f a))"
  by (rule ext) (rule lrun_seql)

lemma lrun_Ret: "lrun (LFinish (Ret a)) = ret a"
  by (rule ext) simp

lemma lrun_catch: "lrun (catch_code c h) = catchp (lrun c) (\<lambda>e. lrun (h e))"
  by (rule ext) (simp add: catch_code_def lrun_bindl catchp_def split: prod.split outcome.split)

lemma lrun_with_key: "lrun (with_key sec k f) = bindp (keys_call sec k) (\<lambda>key. lrun (f key))"
  by (simp add: with_key_def lrun_seql_fun lrun_sum keys_call_def)

text \<open>A program on the configuration and the world, run on the whole state.\<close>

abbreviation on_config :: "(('a, 'w) cfg, 'r) prog \<Rightarrow> (('a, 'w) daemon, 'r) prog" where
  "on_config p \<equiv> on_part cfg_part set_cfg_part p"

lemma world_step_config: "lrun (world_step p) = on_config (on_world p)"
  by (rule ext) (simp add: world_step_def on_part_def on_world_def cfg_part_def set_cfg_part_def
      set_world_part_def split: prod.split)

text \<open>
  Two programs that agree as long as the flag of the configuration's mutex is down, which they
  leave down: the flag belongs to the sequential model only.
\<close>

definition agree :: "(('a, 'w) daemon, 'r) prog \<Rightarrow> (('a, 'w) daemon, 'r) prog \<Rightarrow> bool" where
  "agree m m' \<longleftrightarrow> (\<forall>s. \<not> mtx_locked (dm_cfg s) \<longrightarrow> m s = m' s \<and> \<not> mtx_locked (dm_cfg (snd (m' s))))"

lemma agreeD: "agree m m' \<Longrightarrow> \<not> mtx_locked (dm_cfg s) \<Longrightarrow> m s = m' s"
  "agree m m' \<Longrightarrow> \<not> mtx_locked (dm_cfg s) \<Longrightarrow> m' s = (r, s') \<Longrightarrow> \<not> mtx_locked (dm_cfg s')"
  unfolding agree_def by force+

lemma agree_bindp: "agree m m' \<Longrightarrow> (\<And>a. agree (f a) (f' a)) \<Longrightarrow> agree (bindp m f) (bindp m' f')"
  unfolding agree_def [of "bindp m f"]
  by (auto simp: bindp_def agreeD(1) split: prod.split outcome.split dest: agreeD(2))
    (metis agreeD snd_conv prod.collapse)+

lemma agree_catchp: "agree m m' \<Longrightarrow> (\<And>e. agree (h e) (h' e)) \<Longrightarrow> agree (catchp m h) (catchp m' h')"
  unfolding agree_def [of "catchp m h"]
  by (auto simp: catchp_def agreeD(1) split: prod.split outcome.split dest: agreeD(2))
    (metis agreeD snd_conv prod.collapse)+

lemma agree_ret: "agree (ret a) (ret a)"
  by (simp add: agree_def)

lemma agree_raise: "agree (raise e) (raise e)"
  by (simp add: agree_def)

lemma agree_lift_sum: "agree (lift_sum r) (lift_sum r)"
  by (cases r) (simp_all add: agree_ret agree_raise)

lemma agree_world: "agree (lrun (world_step p)) (on_config (on_world p))"
  unfolding world_step_config
  by (simp add: agree_def on_part_def on_world_def cfg_part_def set_cfg_part_def split: prod.split)

lemma agree_setting:
  assumes "ptree_laws api"
  shows "agree (lrun (setting_code api sec k d)) (bindp (keys_call sec k) (\<lambda>key. on_config (GetString api key d)))"
  unfolding setting_code_def lrun_with_key
proof (intro agree_bindp)
  show "agree (keys_call sec k) (keys_call sec k)" by (simp add: keys_call_def agree_lift_sum)
  fix key
  show "agree (lrun (on_cfg (GetString_code api key d))) (on_config (GetString api key d))"
    unfolding agree_def
  proof (intro allI impI conjI)
    fix s :: "('a, 'b) daemon"
    assume l: "\<not> mtx_locked (dm_cfg s)"
    then show "lrun (on_cfg (GetString_code api key d)) s = on_config (GetString api key d) s"
      using run_GetString [of api "cfg_part s" key d] assms
      by (simp add: lrun_pieces on_part_def cfg_ok_def cfg_part_def)
    show "\<not> mtx_locked (dm_cfg (snd (on_config (GetString api key d) s)))"
      using GetString_run [OF l assms, of key d] l by (simp add: on_part_def cfg_part_def set_cfg_part_def)
  qed
qed

lemmas on_config_simps = cfg_of.on_part_bindp [symmetric] cfg_of.on_part_ret cfg_of.on_part_lift_sum
  cfg_of.on_part_catchp [symmetric]

lemma on_config_keys_call: "on_config (keys_call sec k) = keys_call sec k"
  by (simp add: keys_call_def cfg_of.on_part_lift_sum)

lemma agree_CreateUrl:
  assumes "ptree_laws api"
  shows "agree (lrun (CreateUrl_code api symbol ty)) (on_config (CreateUrl api symbol ty))"
  unfolding CreateUrl_code_def CreateUrl_def GetBaseUrl_def GetTocken_def GetIEXUrl_def GetIEXTocken_def
    lrun_seql_fun lrun_Ret on_config_simps on_config_keys_call
  by (intro agree_bindp agree_setting assms agree_ret)

lemma lrun_catch_http:
  "lrun (catch_http_code v c) = catchp (lrun c) (\<lambda>e. if is_HTTPException e then ret v else raise e)"
  unfolding catch_http_code_def lrun_catch by (intro arg_cong [where f = "catchp _"] ext) simp

lemma on_config_handler:
  "on_config (if b then ret v else raise e) = (if b then ret v else raise e)"
  by (rule ext) (simp add: on_part_def set_cfg_part_def cfg_part_def)

lemma on_config_catch_http:
  "on_config (catch_http v m) = catchp (on_config m) (\<lambda>e. if is_HTTPException e then ret v else raise e)"
  unfolding catch_http_def cfg_of.on_part_catchp [symmetric] on_config_handler ..

lemma agree_catch_http:
  "agree (lrun c) (on_config m) \<Longrightarrow> agree (lrun (catch_http_code v c)) (on_config (catch_http v m))"
  unfolding lrun_catch_http on_config_catch_http
  by (rule agree_catchp) (simp_all add: agree_ret agree_raise)

lemma agree_logo:
  "ptree_laws api \<Longrightarrow> agree (lrun (logo_code api fetch short)) (on_config (logo_from api fetch short))"
  unfolding logo_code_def logo_from_def
  by (rule agree_catch_http, unfold lrun_seql_fun lrun_sum on_config_simps,
      intro agree_bindp agree_CreateUrl agree_world agree_lift_sum)

lemma agree_info:
  "ptree_laws api \<Longrightarrow> agree (lrun (info_code api fetch short ty)) (on_config (info_from api fetch short ty))"
  unfolding info_code_def info_from_def
  by (rule agree_catch_http, unfold lrun_seql_fun lrun_sum lrun_Ret on_config_simps,
      intro agree_bindp agree_CreateUrl agree_world agree_lift_sum agree_logo agree_ret)

lemma agree_GetHTTPCompanyInfo:
  assumes "ptree_laws api"
  shows "agree (lrun (GetHTTPCompanyInfo_code api cu short tf d)) (on_config (GetHTTPCompanyInfo api cu short tf d))"
  using agree_info [OF assms, of "PerformGet cu" short]
  by (simp add: GetHTTPCompanyInfo_code_def GetHTTPCompanyInfo_def GetCompanyInfo_def GetCompanyInfo_frame_def
      GetCompanyInfo_date_def)

lemma agree_company_loop:
  assumes "\<And>x. agree (lrun (f x)) (on_config (g x))"
  shows "agree (lrun (company_loop_code f xs result)) (on_config (company_loop g xs result))"
proof (induction xs arbitrary: result)
  case Nil
  then show ?case unfolding company_loop_code.simps company_loop.simps lrun_Ret on_config_simps by (rule agree_ret)
next
  case (Cons x xs)
  show ?case
    unfolding company_loop_code.simps company_loop.simps lrun_seql_fun on_config_simps
    by (intro agree_bindp assms Cons.IH)
qed

lemma agree_request:
  assumes "ptree_laws api"
  shows "agree (lrun (request_code api cu rq))
    (on_config (rpc_GetCompanyInfo api (Controller_GetCompanyInfo api cu) rq))"
  unfolding request_code_def rpc_GetCompanyInfo_def Controller_GetCompanyInfo_def lrun_catch lrun_seql_fun lrun_sum
    lrun_Ret on_config_simps
  by (intro agree_catchp agree_bindp agree_company_loop agree_GetHTTPCompanyInfo assms agree_lift_sum agree_ret)

lemma agree_tables: "run c = p \<Longrightarrow> agree (lrun (on_tables c)) (on_config (on_world p))"
  using agree_world [of p] by (simp add: agree_def lrun_pieces world_step_def)

lemma agree_forM: "(\<And>x. agree (lrun (f x)) (on_config (g x))) \<Longrightarrow>
    agree (lrun (forM_code f xs)) (on_config (forM g xs))"
proof (induction xs)
  case Nil
  then show ?case unfolding forM_code.simps forM.simps lrun_Ret on_config_simps by (intro agree_ret)
next
  case (Cons x xs)
  then show ?case
    unfolding forM_code.simps forM.simps thenp_def lrun_seql_fun on_config_simps
    by (intro agree_bindp Cons.IH Cons.prems)
qed

lemma agree_update_symbol:
  assumes "ptree_laws api"
  shows "agree (lrun (update_symbol_code api cu sq symbol)) (on_config (update_symbol api cu sq symbol))"
  unfolding update_symbol_code_def update_symbol_def thenp_def lrun_seql_fun on_config_simps
  by (intro agree_bindp agree_GetHTTPCompanyInfo assms agree_forM agree_tables run_table_ops)


text \<open>Starting the service, alone: the address is read in the middle of \<open>Start\<close>.\<close>

lemma setting_value:
  assumes "ptree_laws api" and "\<not> mtx_locked (dm_cfg s)" and "keys_call sec k = (ret key :: (('a, 'w) daemon, string) prog)"
  shows "lrun (setting_code api sec k d) (s :: ('a, 'w) daemon) =
    (Ret (case pt_get_opt api (root (dm_cfg s)) key of None \<Rightarrow> d | Some v \<Rightarrow> v), s)"
  using agreeD(1) [OF agree_setting [OF assms(1)] assms(2), of sec k d] assms(3)
    GetString_run [OF assms(2,1), of key d "dm_world s"]
  by (simp add: bindp_ret on_part_def cfg_part_def set_cfg_part_def)

lemma lrun_ServiceStart:
  assumes "ptree_laws api" and "\<not> mtx_locked (dm_cfg s)"
  shows "lrun (ServiceStart_code api gr h) s = on_part service_part set_service_part (RPCService_Start api gr h) s"
proof -
  obtain rpc1 w1 where r: "reset_server gr (new_PeakworkServiceImpl h) ((dm_rpc s)\<lparr>userHandler := Some h\<rparr>, dm_world s) = (rpc1, w1)"
    by (metis prod.exhaust)
  show ?thesis
    using assms(2) r
    by (simp add: ServiceStart_code_def lrun_seql bindp_def service_step_def set_rpc_def on_part_def service_part_def
        set_service_part_def RPCService_Start_def reset_step_def build_step_def PeakworkService_Start_def Let_def
        setting_value [OF assms(1)] daemon_key_names server_address_value [OF assms] rpc_address_def split: prod.split)
qed

section \<open>Each thread does what the sequential model does\<close>


text \<open>A daemon whose configuration has the key.\<close>

definition demo_daemon :: "(rtree, demo_host) daemon" where
  "demo_daemon = \<lparr>
     dm_cfg = fresh_cfg\<lparr>root := (case pt_put host_tree price_key ''5'' (pt_empty host_tree) of Inr t \<Rightarrow> t)\<rparr>,
     dm_rpc = new_RPCService, dm_flag = False, dm_world = (([], 0), empty_db, empty_db)\<rparr>"


end
