(* ===== verification/Daemon_Threads.thy ===== *)
theory Daemon_Threads
  imports Daemon_Alone
begin

text \<open>
  The threads of \<open>Daemon_Code\<close> together: they take their mutexes in one order, service, controller,
  configuration, tables, so that no run of them gets stuck.
\<close>

section \<open>The order of the mutexes\<close>

text \<open>The key from which the update thread reads its symbols is there: \<open>GetArray\<close> does not write.\<close>

definition price_node :: "('a, 'w, 'x) ptree_api_scheme \<Rightarrow> ('a, 'w) cfg \<Rightarrow> bool" where
  "price_node api cw \<longleftrightarrow> pt_get_child api (root (fst cw)) price_key \<noteq> None"

definition daemon_inv :: "('a, 'w, 'x) ptree_api_scheme \<Rightarrow> ('a, 'w) daemon \<Rightarrow> bool" where
  "daemon_inv api s \<longleftrightarrow> price_node api (cfg_part s)"

definition daemon_op_ok :: "daemon_op \<Rightarrow> bool" where
  "daemon_op_ok x \<longleftrightarrow> (case x of OpConfig y \<Rightarrow> store_access y | _ \<Rightarrow> True)"

text \<open>Code that takes its mutexes in the order of \<open>lock_rank\<close>, from rank \<open>b\<close> on.\<close>

abbreviation in_order ::
  "('a, 'w, 'x) ptree_api_scheme \<Rightarrow> nat \<Rightarrow> nat \<Rightarrow> nat \<Rightarrow> (daemon_lock, ('a, 'w) daemon, 'r) lcode \<Rightarrow> bool" where
  "in_order api i m b c \<equiv> closed_code lock_recursive lock_rank (daemon_inv api) i m b c"

lemma price_node_put:
  assumes "ptree_laws api" and "config_key k" and "pt_get_child api t0 price_key \<noteq> None" and "pt_put api k v t0 = Inr t"
  shows "pt_get_child api t price_key \<noteq> None"
proof -
  obtain s n where k: "k = key2 s n" "dot_free s" "dot_free n" by (rule config_keyE [OF assms(2)])
  obtain s' n' where p: "price_key = key2 s' n'" "dot_free s'" "dot_free n'" by (rule config_keyE [OF price_key_ok])
  obtain t' c' where t: "pt_put api (key2 s n) v t0 = Inr t'" "pt_get_child api t' (key2 s n) = Some c'"
    "\<And>s' n'. dot_free s' \<Longrightarrow> dot_free n' \<Longrightarrow> (s', n') \<noteq> (s, n) \<Longrightarrow>
       pt_get_child api t' (key2 s' n') = pt_get_child api t0 (key2 s' n')"
    by (rule ptree_put [OF assms(1) k(2,3), of v t0]) blast
  show ?thesis
    using t(2) t(3) [OF p(2,3)] assms(3,4) t(1) unfolding k(1) p(1)
    by (cases "(s', n') = (s, n)") simp_all
qed

lemma paired_save:
  assumes "\<And>t0 t. pt_get_child api t0 price_key \<noteq> None \<Longrightarrow> f t0 = Inr t \<Longrightarrow> pt_get_child api t price_key \<noteq> None"
  shows "paired False (price_node api) (save_code api text f) 0"
proof -
  have "\<exists>y. pt_get_child api t price_key = Some y" if "pt_get_child api t0 price_key = Some z" "f t0 = Inr t" for t0 t z
    using assms [of t0 t] that by simp
  then show ?thesis
    unfolding guarded_save guarded_def
    by (auto simp: seqc_def step_code_def call_def set_root_def save_root_def price_node_def
        split: outcome.split sum.split prod.split option.split)
qed

lemma paired_config_code:
  assumes "ptree_laws api" and "store_access x"
  shows "paired False (price_node api) (config_code api x) 0"
proof (cases x)
  case (CfgRead k d)
  then show ?thesis
    by (simp add: GetString_code_def guarded_def map_code_def seqc_def step_code_def call_def bindp_def
        ptree_get_def [OF assms(1)])
next
  case (CfgWrite k v)
  have "paired False (price_node api) (WriteString_code api k v) 0"
    unfolding WriteString_code_def
    by (rule paired_save, rule price_node_put [OF assms(1)]) (use assms(2) CfgWrite in simp_all)
  then show ?thesis
    using CfgWrite by (simp add: map_code_def seqc_def paired_bindc split: outcome.split)
qed (use assms(2) in simp)

lemma paired_GetString: "ptree_laws api \<Longrightarrow> paired False (price_node api) (GetString_code api k d) 0"
  by (simp add: GetString_code_def guarded_def step_code_def call_def bindp_def ptree_get_def)

lemma paired_GetArray: "paired False (price_node api) (GetArray_code api price_key ds) 0"
  by (auto simp: GetArray_code_def guarded_def seqc_def step_code_def call_def price_node_def)

lemma in_order_cfg:
  assumes "paired False (price_node api) c 0" and "b \<le> 2"
  shows "in_order api i m b (on_cfg c)"
  unfolding on_cfg_def
  by (rule closed_embed [where J = "price_node api"])
    (use assms in \<open>simp_all add: lock_recursive_def daemon_inv_def cfg_part_def set_cfg_part_def\<close>)

lemma in_order_tables:
  assumes "paired True (\<lambda>_. True) c 0" and "b \<le> 3"
  shows "in_order api i m b (on_tables c)"
  unfolding on_tables_def
  by (rule closed_embed [where J = "\<lambda>_. True"])
    (use assms in \<open>simp_all add: lock_recursive_def daemon_inv_def cfg_part_def set_world_part_def price_node_def\<close>)

lemma in_order_world: "in_order api i m b (world_step p)"
  unfolding world_step_def
  by (rule closed_lcall) (simp add: on_part_def daemon_inv_def cfg_part_def set_world_part_def price_node_def)

lemma in_order_service_step:
  assumes "\<And>s. fst (snd (snd (p s))) = fst (snd s)"
  shows "in_order api i m b (service_step p)"
  unfolding service_step_def
  by (rule closed_lcall)
    (simp add: on_part_def daemon_inv_def cfg_part_def set_service_part_def service_part_def price_node_def assms)

lemma in_order_parts:
  "in_order api i m b (sum_code r)" "in_order api i m b read_flag" "in_order api i m b (set_rpc f)"
  "in_order api i m b (service_step (gets g))" "in_order api i m b (service_step (reset_step gr svc))"
  "in_order api i m b (service_step (build_step gr svc addr))"
proof -
  show "in_order api i m b read_flag" unfolding read_flag_def by (rule closed_lcall) simp
  show "in_order api i m b (sum_code r)" unfolding sum_code_def by (rule closed_LFinish)
qed (unfold set_rpc_def, auto intro!: in_order_service_step
    simp: modify_def gets_def reset_step_def build_step_def split: prod.split)

lemma in_order_catch:
  "in_order api i m b c \<Longrightarrow> (\<And>e. in_order api i m b (h e)) \<Longrightarrow> in_order api i m b (catch_code c h)"
  unfolding catch_code_def by (rule closed_bindl) (auto split: outcome.split intro: closed_LFinish)

lemma in_order_forM: "(\<And>x. in_order api i m b (f x)) \<Longrightarrow> in_order api i m b (forM_code f xs)"
  by (induction xs) (auto intro!: closed_seql closed_LFinish)

text \<open>The threads' own code.\<close>

lemma in_order_setting: "ptree_laws api \<Longrightarrow> b \<le> 2 \<Longrightarrow> in_order api i m b (setting_code api sec k d)"
  unfolding setting_code_def with_key_def
  by (intro closed_seql in_order_parts in_order_cfg paired_GetString)

lemma in_order_timeout: "ptree_laws api \<Longrightarrow> in_order api i m 0 (timeout_code api lx)"
  unfolding timeout_code_def by (intro closed_seql in_order_setting closed_LFinish) simp_all

lemma in_order_symbols: "in_order api i m 0 (symbols_code api)"
proof -
  have "keys_call sectionIEX IEX_UPDATE_PRICE_SECOND () = (ret price_key () :: string outcome \<times> unit)"
    by (simp add: daemon_key_names price_key_def)
  then have "KeyManager_call eKeys_int daemon_keys sectionIEX IEX_UPDATE_PRICE_SECOND = Inr price_key"
    by (cases "KeyManager_call eKeys_int daemon_keys sectionIEX IEX_UPDATE_PRICE_SECOND") (simp_all add: keys_call_def)
  then have "symbols_code api = on_cfg (GetArray_code api price_key updateSymbols)"
    by (simp add: symbols_code_def with_key_def sum_code_def seql_def)
  then show ?thesis by (simp add: in_order_cfg paired_GetArray)
qed

lemma in_order_CreateUrl: "ptree_laws api \<Longrightarrow> in_order api i m 0 (CreateUrl_code api symbol ty)"
  unfolding CreateUrl_code_def by (intro closed_seql in_order_setting closed_LFinish) simp_all

lemma in_order_catch_http: "in_order api i m b c \<Longrightarrow> in_order api i m b (catch_http_code v c)"
  unfolding catch_http_code_def by (intro in_order_catch closed_LFinish)

lemma in_order_logo: "ptree_laws api \<Longrightarrow> in_order api i m 0 (logo_code api fetch short)"
  unfolding logo_code_def
  by (intro in_order_catch_http closed_seql in_order_CreateUrl in_order_world in_order_parts)

lemma in_order_company: "ptree_laws api \<Longrightarrow> in_order api i m 0 (GetHTTPCompanyInfo_code api cu short tf d)"
  unfolding GetHTTPCompanyInfo_code_def info_code_def
  by (intro in_order_catch_http closed_seql in_order_CreateUrl in_order_logo in_order_world in_order_parts closed_LFinish)

lemma in_order_company_loop:
  "(\<And>x. in_order api i m b (f x)) \<Longrightarrow> in_order api i m b (company_loop_code f xs result)"
  by (induction xs arbitrary: result) (auto intro!: closed_seql closed_LFinish)

lemma in_order_request: "ptree_laws api \<Longrightarrow> in_order api i m 0 (request_code api cu rq)"
  unfolding request_code_def
  by (intro in_order_catch closed_seql in_order_company_loop in_order_company in_order_parts closed_LFinish)

lemma paired_Prices_Add: "paired True (\<lambda>_. True) (Prices_Add_code sq i p t) 0"
  unfolding Prices_Add_code_def statement_code_def seqc_def
  by (rule paired_bindc)
    (auto simp: step_code_def call_def RunTransaction_stmt_code_def
      intro!: paired_guarded_code guarded_codeI balanced_transaction split: outcome.split)

lemma paired_update_ops:
  "paired True (\<lambda>_. True) (Companies_Add_code sq u n l) 0" "paired True (\<lambda>_. True) (GetRowID_code sq u) 0"
  unfolding Companies_Add_code_def GetRowID_code_def by (intro paired_guarded_code guarded_code_parts)+

lemma in_order_update_symbol: "ptree_laws api \<Longrightarrow> in_order api i m 0 (update_symbol_code api cu sq symbol)"
  unfolding update_symbol_code_def
  by (intro closed_seql in_order_company in_order_tables paired_update_ops in_order_forM paired_Prices_Add) simp_all

lemma in_order_wait: "in_order api i m 0 wait_code"
  by (simp add: closed_code_def wait_code_def seql_def read_flag_def lcall_def)

lemma in_order_update_loop: "in_order api i m 0 round \<Longrightarrow> in_order api i m 0 (update_loop_code round n)"
proof (induction n)
  case (Suc n)
  show ?case
    unfolding update_loop_code.simps
    by (intro closed_seql in_order_parts) (simp add: closed_LFinish closed_seql Suc in_order_wait)
qed (simp add: closed_LFinish)

lemma in_order_UpdatePrices: "ptree_laws api \<Longrightarrow> in_order api i m 0 (UpdatePrices_code api lx cu sq n)"
  unfolding UpdatePrices_code_def
  by (intro closed_seql in_order_timeout in_order_symbols)
    (auto intro!: closed_LFinish in_order_update_loop in_order_forM in_order_update_symbol)

lemma in_order_ServiceStart: "ptree_laws api \<Longrightarrow> in_order api i m 0 (ServiceStart_code api gr h)"
  unfolding ServiceStart_code_def
  by (intro closed_guardedl closed_seql in_order_parts)
    (auto intro!: closed_LFinish closed_seql in_order_parts in_order_setting)

lemma in_order_ServiceStop: "in_order api i m 0 (on_service Stop_code)"
  unfolding on_service_def
  by (rule closed_embed [where J = "\<lambda>s. price_node api (snd s)"])
    (simp_all add: lock_recursive_def daemon_inv_def cfg_part_def set_service_part_def service_part_def
      price_node_def Stop_code_def guarded_def seqc_def set_service_def step_code_def call_def modify_def)

lemma in_order_daemon_op:
  assumes "ptree_laws api" and "daemon_op_ok x"
  shows "in_order api i m 0 (daemon_op_code api cu sq gr x)"
proof (cases x)
  case (OpConfig y)
  then show ?thesis
    using assms by (auto simp: daemon_op_ok_def intro!: closed_bindl closed_LFinish in_order_cfg paired_config_code)
next
  case (OpTable y)
  have "paired True (\<lambda>_. True) (table_code sq y) 0" by (rule paired_guarded_code [OF table_code_guarded])
  then show ?thesis using OpTable by (auto intro!: closed_bindl closed_LFinish in_order_tables)
qed (use assms(1) in \<open>auto intro!: closed_bindl closed_LFinish in_order_request in_order_ServiceStart in_order_ServiceStop\<close>)

lemma in_order_daemon_ops:
  "ptree_laws api \<Longrightarrow> \<forall>x \<in> set xs. daemon_op_ok x \<Longrightarrow> in_order api i m 0 (daemon_ops_code api cu sq gr xs rs)"
  by (induction xs arbitrary: rs) (auto intro!: closed_bindl closed_LFinish in_order_daemon_op)

text \<open>The stop takes its mutexes one after the other, and joins a later thread while it holds none.\<close>

lemma ordered_Stop_daemon:
  assumes "i < j" "j < m"
  shows "ordered lock_recursive lock_rank (daemon_inv api) i m
    (bindl (Stop_daemon_code j) (\<lambda>r. LFinish (f r))) (\<lambda>_. 0)"
proof -
  have "in_order api i m 0 (bindl (on_service Stop_code) (\<lambda>r. LFinish (f r)))"
    by (rule closed_bindl [OF in_order_ServiceStop closed_LFinish])
  then show ?thesis
    using assms
    by (simp add: Stop_daemon_code_def seql_def lcall_def guardedl_def closed_code_def daemon_inv_def cfg_part_def
        fun_upd_idem)
qed

section \<open>No run gets stuck\<close>

text \<open>The threads with any code of the main thread that keeps the order.\<close>

lemma threads_move:
  assumes "ptree_laws api" and "price_node api (dm_cfg s, dm_world s)"
    and "\<forall>xs \<in> set opss. \<forall>x \<in> set xs. daemon_op_ok x"
    and "\<And>m. 1 < m \<Longrightarrow> ordered lock_recursive lock_rank (daemon_inv api) 0 m main (\<lambda>_. 0)"
    and "run_list (lock_step lock_recursive) (start_pool s
        (main # bindl (UpdatePrices_code api lx cu sq rounds) (\<lambda>r. LFinish [UpdateEnded r]) #
         map (\<lambda>xs. daemon_ops_code api cu sq gr xs []) opss)) sched = Some t"
  shows "(\<forall>c \<in> set (pl_threads t). lfinished c) \<or> (\<exists>i t'. lock_step lock_recursive t i = Some t')"
proof -
  let ?cs = "main # bindl (UpdatePrices_code api lx cu sq rounds) (\<lambda>r. LFinish [UpdateEnded r]) #
    map (\<lambda>xs. daemon_ops_code api cu sq gr xs []) opss"
  have o: "ordered lock_recursive lock_rank (daemon_inv api) i (length ?cs) (?cs ! i) (\<lambda>_. 0)"
    if i: "i < length ?cs" for i
  proof -
    consider "i = 0" | "i = 1" | k where "i = Suc (Suc k)" "k < length opss"
      using i by (cases i; cases "i - 1") auto
    then show ?thesis
    proof cases
      case 1
      then show ?thesis using assms(4) [of "length ?cs"] by simp
    next
      case 2
      have "in_order api i (length ?cs) 0 (bindl (UpdatePrices_code api lx cu sq rounds) (\<lambda>r. LFinish [UpdateEnded r]))"
        by (rule closed_bindl [OF in_order_UpdatePrices [OF assms(1)] closed_LFinish])
      then show ?thesis using 2 by (simp add: closed_code_def)
    next
      case 3
      have "in_order api i (length ?cs) 0 (daemon_ops_code api cu sq gr (opss ! k) [])"
        using in_order_daemon_ops [OF assms(1)] assms(3) nth_mem [OF 3(2)] by blast
      then show ?thesis using 3 by (simp add: closed_code_def)
    qed
  qed
  have r: "lock_rank l < 4" for l by (cases l) simp_all
  have I: "daemon_inv api s" using assms(2) by (simp add: daemon_inv_def cfg_part_def)
  show ?thesis by (rule pool_never_stuck [OF r I o assms(5)])
qed

lemma daemon_pool_moves:
  assumes "ptree_laws api" and "price_node api (dm_cfg s, dm_world s)"
    and "\<forall>xs \<in> set opss. \<forall>x \<in> set xs. daemon_op_ok x"
    and "run_list (lock_step lock_recursive) (daemon_pool api lx cu sq gr rounds s opss) sched = Some t"
  shows "(\<forall>c \<in> set (pl_threads t). lfinished c) \<or> (\<exists>i t'. lock_step lock_recursive t i = Some t')"
  by (rule threads_move [OF assms(1-3) _ assms(4) [unfolded daemon_pool_def]]) (rule ordered_Stop_daemon, simp_all)

lemma no_endless_run:
  "\<not> (\<exists>f. f 0 = t \<and> (\<forall>n. \<exists>i. lock_step lock_recursive (f n) i = Some (f (Suc n))))"
  using pools_terminate [of lock_recursive, unfolded wf_iff_no_infinite_down_chain] by blast


text \<open>gRPC on the world of the witnesses: no server can be built.\<close>

definition host_grpc :: "demo_host grpc_api" where
  "host_grpc = \<lparr>gr_build = (\<lambda>_ w. (None, w)), gr_shutdown = (\<lambda>_ w. w), gr_wait = (\<lambda>_ w. w),
     gr_destroy = (\<lambda>_ w. w)\<rparr>"

definition demo_threads :: "daemon_op list list" where
  "demo_threads = [[OpConfig (CfgRead ''iex_api.url'' ''d'')], [OpServiceStop]]"


end
