(* ===== verification/Lock_Safe.thy ===== *)
theory Lock_Safe
  imports Lock_Embed
begin

text \<open>
  A part of the shared state that one thread writes and all others leave alone, in the manner of
  rely and guarantee: between two steps of the writer the part does not change, so the writer
  can be followed step by step on the part alone, with anything else arbitrary. An invariant
  of the part holds whenever the writer does not hold the mutex that guards it.
\<close>

section \<open>The others\<close>

text \<open>\<open>view\<close> is the part. Code that never changes it:\<close>

primrec still :: "('w \<Rightarrow> 'v) \<Rightarrow> ('l, 'w, 'r) lcode \<Rightarrow> bool" where
  "still view (LFinish r) = True"
| "still view (LLock l c) = still view c"
| "still view (LUnlock l c) = still view c"
| "still view (LJoin j c) = still view c"
| "still view (LAct u k) = (\<forall>w. view (u w) = view w \<and> still view (k w))"

text \<open>Code that besides does not touch the mutex \<open>m\<close>, and whose results satisfy \<open>P\<close>:\<close>

primrec quiet :: "('w \<Rightarrow> 'v) \<Rightarrow> 'l \<Rightarrow> ('r \<Rightarrow> bool) \<Rightarrow> ('l, 'w, 'r) lcode \<Rightarrow> bool" where
  "quiet view m P (LFinish r) = P r"
| "quiet view m P (LLock l c) = (l \<noteq> m \<and> quiet view m P c)"
| "quiet view m P (LUnlock l c) = (l \<noteq> m \<and> quiet view m P c)"
| "quiet view m P (LJoin j c) = quiet view m P c"
| "quiet view m P (LAct u k) = (\<forall>w. view (u w) = view w \<and> quiet view m P (k w))"

lemma quiet_still: "quiet view m P c \<Longrightarrow> still view c"
  by (induction c) auto

lemma quiet_mono: "quiet view m P c \<Longrightarrow> (\<And>r. P r \<Longrightarrow> P' r) \<Longrightarrow> quiet view m P' c"
  by (induction c) auto

lemma quiet_bindl: "quiet view m P c \<Longrightarrow> (\<And>r. P r \<Longrightarrow> quiet view m P' (f r)) \<Longrightarrow> quiet view m P' (bindl c f)"
  by (induction c) auto

lemma still_bindl: "still view c \<Longrightarrow> (\<And>r. still view (f r)) \<Longrightarrow> still view (bindl c f)"
  by (induction c) auto

lemma still_seql: "still view c \<Longrightarrow> (\<And>a. still view (f a)) \<Longrightarrow> still view (seql c f)"
  unfolding seql_def by (rule still_bindl) (auto split: outcome.split)

lemma still_guardedl: "still view c \<Longrightarrow> still view (guardedl l c)"
  unfolding guardedl_def by (auto intro!: still_bindl)

text \<open>What a returned value satisfies; nothing is said of exceptions.\<close>

definition returns :: "('a \<Rightarrow> bool) \<Rightarrow> 'a outcome \<Rightarrow> bool" where
  "returns P r \<longleftrightarrow> (\<forall>a. r = Ret a \<longrightarrow> P a)"

lemma returns_simps [simp]: "returns P (Ret a) = P a" "returns P (Throw e)" "returns P Hang"
  by (simp_all add: returns_def)

lemma quiet_seql:
  assumes "quiet view m (returns P) c" and "\<And>a. P a \<Longrightarrow> quiet view m (returns P') (f a)"
  shows "quiet view m (returns P') (seql c f)"
  unfolding seql_def by (rule quiet_bindl [OF assms(1)]) (auto split: outcome.split intro: assms(2))

lemma quiet_lcall: "(\<And>w. view (snd (p w)) = view w \<and> P (fst (p w))) \<Longrightarrow> quiet view m P (lcall p)"
  by (simp add: lcall_def)

text \<open>Embedded code none of whose actions changes the part.\<close>

primrec acts :: "('w \<Rightarrow> ('w \<Rightarrow> 'w) \<Rightarrow> bool) \<Rightarrow> ('w, 'r) code \<Rightarrow> bool" where
  "acts A (Finish r) = True"
| "acts A (LockM c) = acts A c"
| "acts A (UnlockM c) = acts A c"
| "acts A (Act u k) = (\<forall>w. A w u \<and> acts A (k w))"

lemma acts_bindc: "acts A c \<Longrightarrow> (\<And>r. acts A (f r)) \<Longrightarrow> acts A (bindc c f)"
  by (induction c) auto

lemma acts_seqc: "acts A c \<Longrightarrow> (\<And>a. acts A (f a)) \<Longrightarrow> acts A (seqc c f)"
  unfolding seqc_def by (rule acts_bindc) (auto split: outcome.split)

lemma acts_guarded: "acts A c \<Longrightarrow> acts A (guarded c)"
  unfolding guarded_def by (auto intro!: acts_bindc)

lemma acts_step: "(\<And>w. A w (\<lambda>w. snd (p w))) \<Longrightarrow> acts A (step_code p)"
  by (simp add: step_code_def call_def)

lemma quiet_embed:
  assumes "\<And>s u. A (g s) u \<Longrightarrow> view (p (u (g s)) s) = view s" and "l \<noteq> m"
  shows "acts A c \<Longrightarrow> quiet view m (\<lambda>_. True) (embed l g p c)"
  by (induction c) (use assms in auto)

lemma still_embed:
  assumes "\<And>s u. A (g s) u \<Longrightarrow> view (p (u (g s)) s) = view s"
  shows "acts A c \<Longrightarrow> still view (embed l g p c)"
  by (induction c) (use assms in auto)

section \<open>The writer\<close>

text \<open>
  \<open>safe view m I Q c n v\<close>: the code \<open>c\<close>, run while the part is \<open>v\<close> and changed by nobody else, with
  the mutex \<open>m\<close> held \<open>n\<close> times, keeps \<open>I\<close> at every step without the mutex, has \<open>I\<close> when it gives
  the mutex back, and ends with a result and a part that satisfy \<open>Q\<close>, the mutex given back.
\<close>

primrec safe ::
  "('w \<Rightarrow> 'v) \<Rightarrow> 'l \<Rightarrow> ('v \<Rightarrow> bool) \<Rightarrow> ('r \<Rightarrow> 'v \<Rightarrow> bool) \<Rightarrow> ('l, 'w, 'r) lcode \<Rightarrow> nat \<Rightarrow> 'v \<Rightarrow> bool" where
  "safe view m I Q (LFinish r) n v = (n = 0 \<and> Q r v)"
| "safe view m I Q (LLock l c) n v = safe view m I Q c (if l = m then Suc n else n) v"
| "safe view m I Q (LUnlock l c) n v =
     (if l = m then 0 < n \<and> (n = 1 \<longrightarrow> I v) \<and> safe view m I Q c (n - 1) v else safe view m I Q c n v)"
| "safe view m I Q (LJoin j c) n v = safe view m I Q c n v"
| "safe view m I Q (LAct u k) n v =
     (\<forall>w. view w = v \<longrightarrow> (n = 0 \<longrightarrow> I (view (u w))) \<and> safe view m I Q (k w) n (view (u w)))"

lemma safe_bindl:
  "safe view m I Q c n v \<Longrightarrow> (\<And>r v'. Q r v' \<Longrightarrow> safe view m I Q' (f r) 0 v') \<Longrightarrow>
    safe view m I Q' (bindl c f) n v"
  by (induction c arbitrary: n v) auto

lemma safe_mono: "safe view m I Q c n v \<Longrightarrow> (\<And>r v'. Q r v' \<Longrightarrow> Q' r v') \<Longrightarrow> safe view m I Q' c n v"
  by (induction c arbitrary: n v) auto

text \<open>Quiet code leaves the part as it is.\<close>

lemma safe_quiet: "quiet view m P c \<Longrightarrow> I v \<Longrightarrow> (\<And>r. P r \<Longrightarrow> Q r v) \<Longrightarrow> safe view m I Q c 0 v"
  by (induction c) auto

lemma safe_seql:
  assumes "safe view m I Q c 0 v" and "\<And>a v'. Q (Ret a) v' \<Longrightarrow> safe view m I Q' (f a) 0 v'"
    and "\<And>e v'. Q (Throw e) v' \<Longrightarrow> Q' (Throw e) v'" and "\<And>v'. Q Hang v' \<Longrightarrow> Q' Hang v'"
  shows "safe view m I Q' (seql c f) 0 v"
  unfolding seql_def by (rule safe_bindl [OF assms(1)]) (auto split: outcome.split intro: assms(2-4))

text \<open>When all that is known of the part is the invariant.\<close>

lemma safe_seql_inv:
  assumes "safe view m I (\<lambda>_ v'. I v') c 0 v" and "\<And>a v'. I v' \<Longrightarrow> safe view m I (\<lambda>_ v'. I v') (f a) 0 v'"
  shows "safe view m I (\<lambda>_ v'. I v') (seql c f) 0 v"
  by (rule safe_seql [OF assms(1)]) (auto intro: assms(2))

section \<open>The threads together\<close>

text \<open>The writer is thread \<open>k\<close>.\<close>

definition writer_inv ::
  "('w \<Rightarrow> 'v) \<Rightarrow> 'l \<Rightarrow> ('v \<Rightarrow> bool) \<Rightarrow> ('r \<Rightarrow> 'v \<Rightarrow> bool) \<Rightarrow> nat \<Rightarrow> ('l, 'w, 'r) pool \<Rightarrow> bool" where
  "writer_inv view m I Q k s \<longleftrightarrow>
     k < length (pl_threads s) \<and>
     safe view m I Q (pl_threads s ! k) (holds (pl_owner s) k m) (view (pl_shared s)) \<and>
     (\<forall>i < length (pl_threads s). i \<noteq> k \<longrightarrow> still view (pl_threads s ! i)) \<and>
     (holds (pl_owner s) k m = 0 \<longrightarrow> I (view (pl_shared s)))"

text \<open>A step of the writer, and one of another thread.\<close>

lemma writer_step:
  assumes "writer_inv view m I Q k s" and "lock_step rec s k = Some s'"
  shows "writer_inv view m I Q k s'"
  using assms(2)
proof (cases rule: lock_step_cases)
  case (unlock l c n)
  then show ?thesis
    using assms(1) by (cases "l = m") (auto simp: writer_inv_def holds_def split: if_splits)
next
  case (act u c)
  then show ?thesis using assms(1) by (auto simp: writer_inv_def)
qed (use assms(1) in \<open>auto simp: writer_inv_def holds_def\<close>)

lemma other_update:
  assumes "writer_inv view m I Q k s" and "i \<noteq> k" and "still view c"
    and "pl_owner s l = Some (i, n) \<or> pl_owner s l = None" and "x = None \<or> (\<exists>n'. x = Some (i, n'))"
  shows "writer_inv view m I Q k (s\<lparr>pl_owner := (pl_owner s)(l := x), pl_threads := (pl_threads s)[i := c]\<rparr>)"
proof -
  have h: "holds ((pl_owner s)(l := x)) k = holds (pl_owner s) k" using holds_other [of i k "pl_owner s" l n x] assms(2,4,5) by blast
  have "still view ((pl_threads s)[i := c] ! j)" if "j < length (pl_threads s)" "j \<noteq> k" for j
    using that assms(1,3) by (cases "j = i") (simp_all add: writer_inv_def)
  then show ?thesis using assms(1,2) by (simp add: writer_inv_def h)
qed

lemma other_step:
  assumes "writer_inv view m I Q k s" and "lock_step rec s i = Some s'" and "i \<noteq> k"
  shows "writer_inv view m I Q k s'"
proof -
  have t: "i < length (pl_threads s) \<Longrightarrow> still view (pl_threads s ! i)"
    using assms(1,3) by (simp add: writer_inv_def)
  show ?thesis
    using assms(2)
  proof (cases rule: lock_step_cases)
    case (lock l c)
    then show ?thesis using other_update [OF assms(1,3), of c l] t by simp
  next
    case (relock l c n)
    then show ?thesis using other_update [OF assms(1,3), of c l n] t by simp
  next
    case (unlock l c n)
    then show ?thesis using other_update [OF assms(1,3), of c l n] t by simp
  next
    case (join j c)
    then show ?thesis using assms(1,3) t by (auto simp: writer_inv_def nth_list_update)
  next
    case (act u c)
    then show ?thesis using assms(1,3) t by (auto simp: writer_inv_def nth_list_update)
  qed
qed

text \<open>So the invariant holds in every reachable state in which the writer does not hold the mutex.\<close>

theorem one_writer:
  assumes "k < length cs" and "safe view m I Q (cs ! k) 0 (view w)" and "I (view w)"
    and "\<And>i. i < length cs \<Longrightarrow> i \<noteq> k \<Longrightarrow> still view (cs ! i)"
    and "run_list (lock_step rec) (start_pool w cs) sched = Some s" and "holds (pl_owner s) k m = 0"
  shows "I (view (pl_shared s))"
proof -
  have "writer_inv view m I Q k (start_pool w cs)"
    using assms(1-4) by (simp add: writer_inv_def start_pool_def holds_def)
  then have "writer_inv view m I Q k s"
    by (rule run_list_invariant [OF assms(5)]) (use writer_step other_step in metis)
  then show ?thesis using assms(6) by (simp add: writer_inv_def)
qed

end
