(* ===== verification/Daemon_Invariant.thy ===== *)
theory Daemon_Invariant
  imports Daemon_Threads Lock_Safe Update_Properties
begin

text \<open>
  The invariant of the database in the process with threads: the update thread is the only one
  that writes to the database, the threads that answer requests, use the settings, start and
  stop the service and read the tables leave it alone. So what holds of the update thread by
  itself holds under every schedule.
\<close>

section \<open>The part of the world that is the database\<close>

type_synonym db_state = "company_rows \<times> price_rows"

definition db_part :: "('w \<Rightarrow> 'd) \<Rightarrow> ('w \<Rightarrow> 'd) \<Rightarrow> ('a, 'w) daemon \<Rightarrow> 'd \<times> 'd" where
  "db_part db saved s = (db (dm_world s), saved (dm_world s))"

text \<open>Files, network and gRPC are beside the database.\<close>

definition db_frame ::
  "('a, 'w, 'x) ptree_api_scheme \<Rightarrow> ('w, 'y) curl_api_scheme \<Rightarrow> ('w, 'v) grpc_api_scheme \<Rightarrow> ('w \<Rightarrow> 'd) \<Rightarrow> bool" where
  "db_frame api cu gr vw \<longleftrightarrow>
     (\<forall>p t w. vw (snd (js_save api p t w)) = vw w) \<and>
     net_frame cu vw \<and>
     (\<forall>a w. vw (snd (gr_build gr a w)) = vw w) \<and>
     (\<forall>h w. vw (gr_shutdown gr h w) = vw w) \<and> (\<forall>h w. vw (gr_wait gr h w) = vw w) \<and>
     (\<forall>h w. vw (gr_destroy gr h w) = vw w)"

text \<open>An action on the configuration and the files, on the service, and on the tables, that leaves it alone.\<close>

definition cfg_keeps :: "('w \<Rightarrow> 'd) \<Rightarrow> ('a, 'w) cfg \<Rightarrow> (('a, 'w) cfg \<Rightarrow> ('a, 'w) cfg) \<Rightarrow> bool" where
  "cfg_keeps vw s u \<longleftrightarrow> vw (snd (u s)) = vw (snd s)"

definition service_keeps ::
  "('w \<Rightarrow> 'd) \<Rightarrow> RPCService \<times> ('a, 'w) cfg \<Rightarrow> (RPCService \<times> ('a, 'w) cfg \<Rightarrow> RPCService \<times> ('a, 'w) cfg) \<Rightarrow> bool" where
  "service_keeps vw s u \<longleftrightarrow> vw (snd (snd (u s))) = vw (snd (snd s))"

definition table_keeps :: "('w \<Rightarrow> 'd) \<Rightarrow> 'w \<Rightarrow> ('w \<Rightarrow> 'w) \<Rightarrow> bool" where
  "table_keeps vw w u \<longleftrightarrow> vw (u w) = vw w"

abbreviation both :: "('w \<Rightarrow> 'd) \<Rightarrow> ('w \<Rightarrow> 'd) \<Rightarrow> 'w \<Rightarrow> 'd \<times> 'd" where
  "both db saved w \<equiv> (db w, saved w)"

lemma quiet_cfg:
  "acts (cfg_keeps (both db saved)) c \<Longrightarrow> quiet (db_part db saved) TableM (returns (\<lambda>_. True)) (on_cfg c)"
  unfolding on_cfg_def
  by (rule quiet_mono [OF quiet_embed [where A = "cfg_keeps (both db saved)"]])
    (auto simp: cfg_keeps_def db_part_def cfg_part_def set_cfg_part_def returns_def)

lemma still_tables: "acts (table_keeps (both db saved)) c \<Longrightarrow> still (db_part db saved) (on_tables c)"
  unfolding on_tables_def
  by (rule still_embed [where A = "table_keeps (both db saved)"])
    (auto simp: table_keeps_def db_part_def set_world_part_def)

lemma still_service: "acts (service_keeps (both db saved)) c \<Longrightarrow> still (db_part db saved) (on_service c)"
  unfolding on_service_def
  by (rule still_embed [where A = "service_keeps (both db saved)"])
    (auto simp: service_keeps_def db_part_def service_part_def set_service_part_def)

section \<open>Settings\<close>

lemma acts_save_code:
  assumes "db_frame api cu gr vw"
  shows "acts (cfg_keeps vw) (save_code api text f)"
proof -
  have s: "vw (snd (snd (set_root f s))) = vw (snd s)" for s :: "'a Config \<times> 'b"
    by (cases s) (simp add: set_root_def split: sum.split)
  have w: "vw (snd (snd (save_root api s))) = vw (snd s)" for s
  proof (cases s)
    case (Pair c w)
    obtain x w' where j: "js_save api (configPath c) (root c) w = (x, w')" by fastforce
    have "vw w' = vw w" using assms j unfolding db_frame_def by (metis snd_conv)
    then show ?thesis using Pair j by (simp add: save_root_def split: option.split)
  qed
  show ?thesis
    unfolding save_code_def by (intro acts_bindc acts_guarded acts_seqc acts_step) (simp_all add: cfg_keeps_def s w)
qed

lemma acts_config_code:
  assumes "db_frame api cu gr vw"
  shows "acts (cfg_keeps vw) (GetString_code api k d)" and "acts (cfg_keeps vw) (GetArray_code api k ds)"
    and "acts (cfg_keeps vw) (WriteString_code api k v)" and "acts (cfg_keeps vw) (config_code api x)"
proof -
  have g: "vw (snd (snd (bindp (gets (\<lambda>s. pt_get_def api (root (fst s)) k d)) lift_sum s))) = vw (snd s)" for k d s
    by (cases "pt_get_def api (root (fst s)) k d") (simp_all add: bindp_def)
  show w: "acts (cfg_keeps vw) (WriteString_code api k v)" for k v
    unfolding WriteString_code_def by (rule acts_save_code [OF assms])
  show r: "acts (cfg_keeps vw) (GetString_code api k d)" for k d
    unfolding GetString_code_def
    by (intro acts_guarded acts_bindc acts_step) (auto simp: cfg_keeps_def g split: outcome.split exn.split intro!: acts_seqc w)
  show a: "acts (cfg_keeps vw) (GetArray_code api k ds)" for k ds
    unfolding GetArray_code_def WriteArray_code_def
    by (intro acts_guarded acts_seqc acts_step)
      (auto simp: cfg_keeps_def Let_def split: option.split intro!: acts_seqc acts_save_code [OF assms])
  show "acts (cfg_keeps vw) (config_code api x)"
    by (cases x) (auto simp: map_code_def a intro!: acts_seqc w r)
qed

lemma quiet_setting:
  assumes "db_frame api cu gr (both db saved)"
  shows "quiet (db_part db saved) TableM (returns (\<lambda>_. True)) (setting_code api sec k d)"
  unfolding setting_code_def with_key_def
  by (rule quiet_seql [where P = "\<lambda>_. True"]) (simp_all add: sum_code_def returns_def quiet_cfg acts_config_code [OF assms])

section \<open>Requests\<close>

lemma quiet_sum: "(\<And>x. r = Inr x \<Longrightarrow> P x) \<Longrightarrow> quiet view m (returns P) (sum_code r)"
  by (cases r) (simp_all add: sum_code_def)

lemma quiet_catch:
  assumes "quiet view m (returns P) c" and "\<And>e. quiet view m (returns P) (h e)"
  shows "quiet view m (returns P) (catch_code c h)"
  unfolding catch_code_def
  by (rule quiet_bindl [OF assms(1)]) (auto split: outcome.split simp: assms(2) returns_def)

lemma quiet_catch_http: "quiet view m (returns P) c \<Longrightarrow> P v \<Longrightarrow> quiet view m (returns P) (catch_http_code v c)"
  unfolding catch_http_code_def by (rule quiet_catch) auto

lemma quiet_fetch:
  assumes "db_frame api cu gr (both db saved)"
  shows "quiet (db_part db saved) m (returns (\<lambda>_. True)) (world_step (PerformGet cu url))"
proof -
  have "net_frame cu (both db saved)" using assms by (simp add: db_frame_def)
  from PerformGet_frame [OF this] show ?thesis
    unfolding world_step_def by (intro quiet_lcall) (simp add: on_part_def db_part_def set_world_part_def returns_def)
qed

lemma quiet_CreateUrl:
  assumes "db_frame api cu gr (both db saved)"
  shows "quiet (db_part db saved) TableM (returns (\<lambda>_. True)) (CreateUrl_code api symbol ty)"
  unfolding CreateUrl_code_def
  by (intro quiet_seql [where P = "\<lambda>_. True"] quiet_setting [OF assms]) simp

lemma quiet_logo:
  assumes "db_frame api cu gr (both db saved)"
  shows "quiet (db_part db saved) TableM (returns (\<lambda>_. True)) (logo_code api (PerformGet cu) short)"
  unfolding logo_code_def
  by (intro quiet_catch_http quiet_seql [where P = "\<lambda>_. True"] quiet_CreateUrl [OF assms] quiet_fetch [OF assms] quiet_sum)
    simp_all

text \<open>The company a request returns has a name that does not end the literal it is put in.\<close>

abbreviation name_free :: "CompanyInfo \<Rightarrow> bool" where
  "name_free info \<equiv> quote_free (shortName info)"

lemma quiet_company:
  assumes "db_frame api cu gr (both db saved)" and "names_ok api"
  shows "quiet (db_part db saved) TableM (returns name_free) (GetHTTPCompanyInfo_code api cu short tf d)"
proof -
  have "quiet (db_part db saved) TableM (returns name_free) (info_code api (PerformGet cu) short ty)" for ty
    unfolding info_code_def
  proof (rule quiet_catch_http)
    show "name_free empty_info" by (simp add: empty_info_def quote_free_def)
    show "quiet (db_part db saved) TableM (returns name_free)
       (seql (CreateUrl_code api short ty) (\<lambda>url.
        seql (world_step (PerformGet cu url)) (\<lambda>data.
        seql (sum_code (ParseCompanyInfo api data)) (\<lambda>info.
        seql (logo_code api (PerformGet cu) short) (\<lambda>l.
          LFinish (Ret (info\<lparr>logo := l\<rparr>)))))))"
      by (rule quiet_seql [OF quiet_CreateUrl [OF assms(1)]], rule quiet_seql [OF quiet_fetch [OF assms(1)]],
          rule quiet_seql [OF quiet_sum [where P = name_free]])
        (use assms(2) in \<open>auto simp: names_ok_def intro!: quiet_seql [OF quiet_logo [OF assms(1)]]\<close>)
  qed
  then show ?thesis by (simp add: GetHTTPCompanyInfo_code_def)
qed

section \<open>The writer\<close>

text \<open>The behaviour of transactions with the results as projections.\<close>

lemma txn_steps:
  assumes "txn_laws sq db saved"
  shows "db (snd (sq_begin sq w)) = db w" and "fst (sq_begin sq w) = None \<Longrightarrow> saved (snd (sq_begin sq w)) = db w"
    and "saved (snd (sq_exec_stmt sq cmd bs w)) = saved w" and "db (snd (sq_commit sq w)) = db w"
    and "fst (sq_commit sq w) = Some e \<Longrightarrow> saved (snd (sq_commit sq w)) = saved w"
    and "db (snd (sq_rollback sq w)) = saved w"
  using txn_begin [OF assms] txn_begin_saved [OF assms] txn_exec_stmt [OF assms] txn_commit [OF assms]
    txn_commit_failed [OF assms] txn_rollback [OF assms] by (metis prod.collapse)+

text \<open>
  A statement in a transaction, followed step by step: what is known of the database at the end
  is the effect of the statement, if the call returned, and otherwise that nothing changed.
  \<open>G\<close> is the invariant, \<open>E\<close> the effect.
\<close>

abbreviation written :: "('d \<Rightarrow> 'd \<Rightarrow> bool) \<Rightarrow> 'd \<times> 'd \<Rightarrow> unit outcome \<Rightarrow> 'd \<times> 'd \<Rightarrow> bool" where
  "written E v r v' \<equiv> (r = Ret () \<and> E (fst v) (fst v')) \<or> ((\<exists>e. r = Throw e) \<and> fst v' = fst v)"

lemma safe_statement:
  assumes "txn_laws sq db saved" and "G (fst v)"
    and "\<And>w w'. sq_exec_stmt sq cmd bs w = (None, w') \<Longrightarrow> E (db w) (db w')" and "\<And>d. E (fst v) d \<Longrightarrow> G d"
  shows "safe (db_part db saved) TableM (\<lambda>v. G (fst v)) (written E v) (on_tables (statement_code sq cmd bs)) 0 v"
    and "safe (db_part db saved) TableM (\<lambda>v. G (fst v)) (written E v) (on_tables (guarded (statement_code sq cmd bs))) 0 v"
proof -
  obtain d d' where v: "v = (d, d')" by fastforce
  have e: "E d (db (snd (sq_exec_stmt sq cmd bs w)))" if "db w = d" "fst (sq_exec_stmt sq cmd bs w) = None" for w
    using assms(3) that by (metis prod.collapse)
  have g: "G d" and k: "\<And>d2. E d d2 \<Longrightarrow> G d2" using assms(2,4) v by auto
  note defs = on_tables_def statement_code_def seqc_def step_code_def RunTransaction_stmt_code_def guarded_def
    transaction_code_def call_def rollback_code_def
  note simps = db_part_def set_world_part_def txn_steps [OF assms(1)] make_statement_world e g k [OF e]
  show "safe (db_part db saved) TableM (\<lambda>v. G (fst v)) (written E v) (on_tables (statement_code sq cmd bs)) 0 v"
    unfolding defs v by (auto simp: simps split: option.split outcome.split)
  show "safe (db_part db saved) TableM (\<lambda>v. G (fst v)) (written E v) (on_tables (guarded (statement_code sq cmd bs))) 0 v"
    unfolding defs v by (auto simp: simps split: option.split outcome.split)
qed

corollary safe_statement_inv:
  assumes "txn_laws sq db saved" and "G (fst v)"
    and "\<And>w w'. sq_exec_stmt sq cmd bs w = (None, w') \<Longrightarrow> E (db w) (db w')" and "\<And>d. E (fst v) d \<Longrightarrow> G d"
  shows "safe (db_part db saved) TableM (\<lambda>v. G (fst v)) (\<lambda>r v'. G (fst v'))
    (on_tables (guarded (statement_code sq cmd bs))) 0 v"
  by (rule safe_mono [OF safe_statement(2) [where G = G and E = E and db = db and v = v, OF assms]]) (use assms(2,4) in auto)

text \<open>The row id of a company that has been added.\<close>

lemma safe_GetRowID:
  assumes "db_laws sq db saved" and "G (fst v)" and "quote_free u"
  shows "safe (db_part db saved) TableM (\<lambda>v. G (fst v))
    (\<lambda>r v'. v' = v \<and> returns (\<lambda>i. \<exists>n l. fst (fst v) u = Some (i, n, l)) r) (on_tables (GetRowID_code sq u)) 0 v"
proof -
  have r: "\<exists>n l. fst (db w) u = Some (cl_int64 sq x, n, l)" if "sq_exec_and_get sq (companies_rowid_cmd u) w = Inr x" for w x
    using assms(1,3) that unfolding db_laws_def by blast
  show ?thesis
    using assms(2) r
    unfolding on_tables_def GetRowID_code_def get_code_def guarded_def seqc_def step_code_def call_def
    by (auto simp: db_part_def set_world_part_def exec_and_get_def lift_sum_def split: sum.split)
qed

definition db_safe :: "db_state \<Rightarrow> db_state \<Rightarrow> bool" where
  "db_safe d0 d \<longleftrightarrow> db_good d \<and> grows d0 d"

lemma safe_Companies_Add:
  assumes "db_laws sq db saved" and "db_safe d0 (fst v)"
  shows "safe (db_part db saved) TableM (\<lambda>v. db_safe d0 (fst v)) (\<lambda>r v'. db_safe d0 (fst v'))
    (on_tables (Companies_Add_code sq u n l)) 0 v"
proof -
  let ?E = "\<lambda>d d'. snd d' = snd d \<and>
    (if fst d u \<noteq> None then fst d' = fst d
     else \<exists>i. (\<forall>u' x. fst d u' = Some x \<longrightarrow> fst x \<noteq> i) \<and> fst d' = (fst d)(u \<mapsto> (i, n, l)))"
  have t: "txn_laws sq db saved" using assms(1) by (simp add: db_laws_def)
  have e: "?E (db w) (db w')" if "sq_exec_stmt sq companies_add_cmd
      [('':uuid'', SqlText u), ('':name'', SqlText n), ('':logo'', SqlText l)] w = (None, w')" for w w'
    using assms(1) that unfolding db_laws_def by blast
  have k: "db_safe d0 d" if "?E (fst v) d" for d
    using add_good [of "fst v" d u n l] assms(2) that unfolding db_safe_def by (blast intro: grows_trans)
  show ?thesis
    unfolding Companies_Add_code_def by (rule safe_statement_inv [where G = "db_safe d0" and E = ?E and db = db and v = v, OF t assms(2) e k])
qed

lemma safe_Prices_Add:
  assumes "db_laws sq db saved" and "db_safe d0 (fst v)" and "fst (fst v) u = Some (i, n, l)"
  shows "safe (db_part db saved) TableM (\<lambda>v. db_safe d0 (fst v))
    (\<lambda>r v'. db_safe d0 (fst v') \<and> fst (fst v') u = Some (i, n, l)) (on_tables (Prices_Add_code sq i p ts)) 0 v"
proof -
  let ?E = "\<lambda>d d'. fst d' = fst d \<and> snd d' = snd d @ [(i, p, ts)]"
  have t: "txn_laws sq db saved" using assms(1) by (simp add: db_laws_def)
  have e: "?E (db w) (db w')" if "sq_exec_stmt sq prices_add_cmd
      [('':rowid'', SqlInt i), ('':price'', SqlReal p), ('':time'', SqlInt ts)] w = (None, w')" for w w'
    using assms(1) that unfolding db_laws_def by blast
  have k: "db_safe d0 d" if "?E (fst v) d" for d
    using prices_good [of "fst v" d "[(i, p, ts)]" i u n l] assms(2,3) that
    unfolding db_safe_def by (auto intro: grows_trans)
  show ?thesis
    unfolding Prices_Add_code_def
    by (rule safe_mono [OF safe_statement(1) [where G = "db_safe d0" and E = ?E, OF t assms(2) e k]])
      (use k assms(2,3) in auto)
qed

text \<open>One symbol: the prices are added under a row id that stays there.\<close>

lemma safe_prices:
  assumes "db_laws sq db saved"
  shows "db_safe d0 (fst v) \<Longrightarrow> fst (fst v) u = Some (i, n, l) \<Longrightarrow>
    safe (db_part db saved) TableM (\<lambda>v. db_safe d0 (fst v)) (\<lambda>r v'. db_safe d0 (fst v'))
      (forM_code (\<lambda>p. on_tables (Prices_Add_code sq i (price p) (dateTimestamp p))) ps) 0 v"
proof (induction ps arbitrary: v)
  case (Cons p ps)
  show ?case
    unfolding forM_code.simps
    by (rule safe_seql [OF safe_Prices_Add [OF assms Cons.prems]]) (auto intro: Cons.IH)
qed simp

lemma safe_update_symbol:
  fixes v :: "db_state \<times> db_state"
  assumes "db_laws sq db saved" and "db_frame api cu gr (both db saved)" and "names_ok api" and "db_safe d0 (fst v)"
  shows "safe (db_part db saved) TableM (\<lambda>v. db_safe d0 (fst v)) (\<lambda>r v'. db_safe d0 (fst v'))
    (update_symbol_code api cu sq symbol) 0 v"
  unfolding update_symbol_code_def
proof (rule safe_seql [OF safe_quiet [OF quiet_company [OF assms(2,3)], where Q = "\<lambda>r v'. v' = v \<and> returns name_free r"]])
  fix info and v' :: "db_state \<times> db_state" assume "v' = v \<and> returns name_free (Ret info)"
  then have q: "v' = v" "name_free info" by simp_all
  show "safe (db_part db saved) TableM (\<lambda>v. db_safe d0 (fst v)) (\<lambda>r v'. db_safe d0 (fst v'))
     (seql (on_tables (Companies_Add_code sq (shortName info) (fullName info) (logo info))) (\<lambda>_.
      seql (on_tables (GetRowID_code sq (shortName info))) (\<lambda>rowId.
        forM_code (\<lambda>p. on_tables (Prices_Add_code sq rowId (price p) (dateTimestamp p))) (priceList info)))) 0 v'"
    unfolding q(1)
  proof (rule safe_seql_inv [OF safe_Companies_Add [OF assms(1,4)]])
    fix a and v1 :: "db_state \<times> db_state" assume "db_safe d0 (fst v1)"
    then show "safe (db_part db saved) TableM (\<lambda>v. db_safe d0 (fst v)) (\<lambda>r v'. db_safe d0 (fst v'))
       (seql (on_tables (GetRowID_code sq (shortName info))) (\<lambda>rowId.
          forM_code (\<lambda>p. on_tables (Prices_Add_code sq rowId (price p) (dateTimestamp p))) (priceList info))) 0 v1"
      by (intro safe_seql [OF safe_GetRowID [where G = "db_safe d0", OF assms(1) _ q(2)]])
        (auto intro: safe_prices [OF assms(1)])
  qed
qed (use assms(4) in auto)

text \<open>The whole thread.\<close>

lemma safe_symbols:
  fixes v :: "db_state \<times> db_state"
  assumes "db_laws sq db saved" and "db_frame api cu gr (both db saved)" and "names_ok api"
  shows "db_safe d0 (fst v) \<Longrightarrow>
    safe (db_part db saved) TableM (\<lambda>v. db_safe d0 (fst v)) (\<lambda>r v'. db_safe d0 (fst v'))
      (forM_code (update_symbol_code api cu sq) symbols) 0 v"
proof (induction symbols arbitrary: v)
  case (Cons symbol symbols)
  show ?case
    unfolding forM_code.simps
    by (rule safe_seql_inv [OF safe_update_symbol [OF assms Cons.prems]]) (rule Cons.IH)
qed simp

lemma quiet_read_flag: "quiet (db_part db saved) TableM (returns (\<lambda>_. True)) read_flag"
  unfolding read_flag_def by (rule quiet_lcall) simp

lemma quiet_wait: "quiet (db_part db saved) TableM (returns (\<lambda>_. True)) wait_code"
  by (simp add: wait_code_def quiet_seql [OF quiet_read_flag])

text \<open>Quiet code first, when all that is known is the invariant.\<close>

lemma safe_after_quiet:
  assumes "quiet view m (returns (\<lambda>_. True)) c" and "I v"
    and "\<And>a. safe view m I (\<lambda>r v'. I v') (f a) 0 v"
  shows "safe view m I (\<lambda>r v'. I v') (seql c f) 0 v"
  by (rule safe_seql [OF safe_quiet [OF assms(1), where Q = "\<lambda>r v'. v' = v"]]) (use assms(2,3) in auto)

lemma safe_update_loop:
  fixes v :: "db_state \<times> db_state"
  assumes "\<And>v :: db_state \<times> db_state. db_safe d0 (fst v) \<Longrightarrow>
    safe (db_part db saved) TableM (\<lambda>v. db_safe d0 (fst v)) (\<lambda>r v'. db_safe d0 (fst v')) round 0 v"
  shows "db_safe d0 (fst v) \<Longrightarrow>
    safe (db_part db saved) TableM (\<lambda>v. db_safe d0 (fst v)) (\<lambda>r v'. db_safe d0 (fst v')) (update_loop_code round n) 0 v"
proof (induction n arbitrary: v)
  case (Suc n)
  have "safe (db_part db saved) TableM (\<lambda>v. db_safe d0 (fst v)) (\<lambda>r v'. db_safe d0 (fst v'))
      (seql round (\<lambda>_. seql wait_code (\<lambda>_. update_loop_code round n))) 0 v"
    by (rule safe_seql_inv [OF assms [OF Suc.prems]]) (blast intro: safe_after_quiet [OF quiet_wait] Suc.IH)
  then show ?case
    unfolding update_loop_code.simps
    by (intro safe_after_quiet [OF quiet_read_flag]) (simp_all add: Suc.prems)
qed simp

lemma safe_UpdatePrices:
  fixes v :: "db_state \<times> db_state"
  assumes "db_laws sq db saved" and "db_frame api cu gr (both db saved)" and "names_ok api" and "db_safe d0 (fst v)"
  shows "safe (db_part db saved) TableM (\<lambda>v. db_safe d0 (fst v)) (\<lambda>r v'. db_safe d0 (fst v'))
    (UpdatePrices_code api lx cu sq n) 0 v"
proof -
  have t: "quiet (db_part db saved) TableM (returns (\<lambda>_. True)) (timeout_code api lx)"
    unfolding timeout_code_def
    by (rule quiet_seql [OF quiet_setting [OF assms(2)]]) (simp split: option.split)
  have s: "quiet (db_part db saved) TableM (returns (\<lambda>_. True)) (symbols_code api)"
    unfolding symbols_code_def with_key_def
    by (rule quiet_seql [where P = "\<lambda>_. True"]) (simp_all add: quiet_sum quiet_cfg acts_config_code [OF assms(2)])
  show ?thesis
    unfolding UpdatePrices_code_def
    by (rule safe_after_quiet, rule t, rule assms(4), rule safe_after_quiet, rule s, rule assms(4))
      (simp add: assms(4) safe_update_loop [OF safe_symbols [OF assms(1-3)]])
qed

section \<open>The other threads\<close>

text \<open>The operations of the tables that only read.\<close>

fun reads_only :: "daemon_op \<Rightarrow> bool" where
  "reads_only (OpTable x) =
     (case x of TableExists n \<Rightarrow> True | CompaniesRowID u \<Rightarrow> True | CompaniesField f i \<Rightarrow> True
      | CompaniesHasUUID u \<Rightarrow> True | CompaniesHasID i \<Rightarrow> True | VersionGet \<Rightarrow> True | _ \<Rightarrow> False)"
| "reads_only _ = True"

lemma acts_reads:
  assumes "reads_only (OpTable x)"
  shows "acts (table_keeps vw) (table_code sq x)"
proof -
  have e: "vw (snd (exec_and_get sq cmd w)) = vw w" for cmd w
    by (simp add: exec_and_get_def lift_sum_def split: sum.split)
  have g: "acts (table_keeps vw) (get_code sq cmd f)" for cmd and f :: "sql_value \<Rightarrow> 'r"
    unfolding get_code_def by (intro acts_guarded acts_seqc acts_step) (simp_all add: table_keeps_def e)
  have s: "vw (snd (single_row sq gc ff sh q w)) = vw w" for gc :: "sql_value \<Rightarrow> 'r" and ff sh q w
    by (auto simp: single_row_def split: prod.split list.split option.split)
  have c: "vw (snd (CreateGetFieldQuery sq n f ff v w)) = vw w" for n f ff v w
    proof -
    obtain r where r: "make_statement sq (field_query n f ff) [('':compareValue'', v)] w = (r, w)"
      by (metis make_statement_world prod.collapse)
    show ?thesis by (cases r) (simp_all add: CreateGetFieldQuery_def Let_def thenp_def bindp_def r)
  qed
  have i: "vw (snd (IsExist sq n w)) = vw w" for n w
    by (simp add: IsExist_def split: sum.split)
  show ?thesis
    using assms
    by (cases x)
      (auto simp: map_code_def IsExist_code_def GetRowID_code_def by_rowid_code_def GetFieldValue_code_def
        CreateGetFieldQuery_code_def IsUUIDPresent_code_def IsCellPresent_code_def IsIDPresent_code_def
        DBVersion_Get_code_def g table_keeps_def s c i intro!: acts_seqc acts_guarded acts_step)
qed

lemma still_lcall: "(\<And>w. view (snd (p w)) = view w) \<Longrightarrow> still view (lcall p)"
  by (simp add: lcall_def)

lemma still_request:
  assumes "db_frame api cu gr (both db saved)" and "names_ok api"
  shows "still (db_part db saved) (request_code api cu rq)"
proof -
  have l: "quiet (db_part db saved) TableM (returns (\<lambda>_. True))
      (company_loop_code (\<lambda>company. GetHTTPCompanyInfo_code api cu company tf d) cs infos)" for tf d cs infos
    by (induction cs arbitrary: infos) (simp_all add: quiet_seql [OF quiet_company [OF assms]])
  have "quiet (db_part db saved) TableM (returns (\<lambda>_. True)) (request_code api cu rq)"
    unfolding request_code_def
    by (intro quiet_catch quiet_seql [OF l] quiet_seql [where P = "\<lambda>_. True"] quiet_sum) simp_all
  then show ?thesis by (rule quiet_still)
qed

text \<open>The service: building, shutting down and destroying a server is gRPC's.\<close>

lemma frame_server:
  assumes "db_frame api cu gr vw"
  shows "vw (snd (gr_build gr a w)) = vw w" and "vw (gr_destroy gr h w) = vw w"
    and "vw (PeakworkService_destroy gr (svc, w)) = vw w"
  using assms by (auto simp: db_frame_def PeakworkService_destroy_def PeakworkService_Stop_def split: option.split)

lemma still_service_step:
  assumes "\<And>s. both db saved (snd (snd (snd (p s)))) = both db saved (snd (snd s))"
  shows "still (db_part db saved) (service_step p)"
  unfolding service_step_def using assms
  by (intro still_lcall) (simp add: on_part_def db_part_def service_part_def set_service_part_def)

lemma still_ServiceStart:
  assumes "db_frame api cu gr (both db saved)"
  shows "still (db_part db saved) (ServiceStart_code api gr h)"
proof -
  note f = frame_server [OF assms]
  have r: "still (db_part db saved) (service_step (reset_step gr svc))" for svc
    by (rule still_service_step) (use f in \<open>auto simp: reset_step_def reset_server_def split: option.split\<close>)
  have g: "both db saved (snd (snd (snd (build_step gr svc a s)))) = both db saved (snd (snd s))" for svc a s
    using f(1) [of a "snd (snd s)"] f(2) by (cases "gr_build gr a (snd (snd s))") (simp add: build_step_def split: option.split)
  have b: "still (db_part db saved) (service_step (build_step gr svc a))" for svc a
    by (rule still_service_step) (rule g)
  have m: "still (db_part db saved) (set_rpc u)" for u
    unfolding set_rpc_def by (rule still_service_step) simp
  have i: "still (db_part db saved) (service_step (gets (\<lambda>s. isStarted (fst s))))"
    by (rule still_service_step) simp
  show ?thesis
    unfolding ServiceStart_code_def
    by (intro still_guardedl still_seql i) (simp add: still_seql r b m quiet_still [OF quiet_setting [OF assms]])
qed

lemma still_Stop: "still (db_part db saved) (on_service Stop_code)"
  unfolding Stop_code_def set_service_def
  by (intro still_service acts_guarded acts_seqc acts_step) (simp_all add: service_keeps_def)

lemma still_Stop_daemon: "still (db_part db saved) (Stop_daemon_code k)"
  unfolding Stop_daemon_code_def
  by (intro still_seql still_guardedl still_lcall) (simp_all add: db_part_def still_Stop)

lemma still_op:
  assumes "db_frame api cu gr (both db saved)" and "names_ok api" and "reads_only x"
  shows "still (db_part db saved) (daemon_op_code api cu sq gr x)"
proof (cases x)
  case (OpConfig y)
  then show ?thesis
    by (simp add: still_bindl quiet_still [OF quiet_cfg] acts_config_code [OF assms(1)])
next
  case (OpTable y)
  have "acts (table_keeps (both db saved)) (table_code sq y)"
    by (rule acts_reads) (use assms(3) OpTable in simp)
  then show ?thesis using OpTable by (simp add: still_bindl still_tables)
qed (simp_all add: still_bindl still_request [OF assms(1,2)] still_ServiceStart [OF assms(1)] still_Stop)

lemma still_ops:
  assumes "db_frame api cu gr (both db saved)" and "names_ok api"
  shows "\<forall>x \<in> set xs. reads_only x \<Longrightarrow> still (db_part db saved) (daemon_ops_code api cu sq gr xs rs)"
  by (induction xs arbitrary: rs) (simp_all add: still_bindl still_op [OF assms])

section \<open>The process\<close>

text \<open>The threads with any code of the main thread that leaves the database alone.\<close>

lemma threads_in_order:
  assumes "db_laws sq db saved" and "db_frame api cu gr (\<lambda>w. (db w, saved w))" and "names_ok api"
    and "db_good (db (dm_world s))" and "\<forall>xs \<in> set opss. \<forall>x \<in> set xs. reads_only x"
    and "still (db_part db saved) main"
    and "run_list (lock_step lock_recursive) (start_pool s
        (main # bindl (UpdatePrices_code api lx cu sq rounds) (\<lambda>r. LFinish [UpdateEnded r]) #
         map (\<lambda>xs. daemon_ops_code api cu sq gr xs []) opss)) sched = Some t"
    and "\<forall>n. pl_owner t TableM \<noteq> Some (1, n)"
  shows "db_good (db (dm_world (pl_shared t))) \<and> grows (db (dm_world s)) (db (dm_world (pl_shared t)))"
proof -
  let ?d0 = "db (dm_world s)"
  let ?cs = "main #
    bindl (UpdatePrices_code api lx cu sq rounds) (\<lambda>r. LFinish [UpdateEnded r]) #
    map (\<lambda>xs. daemon_ops_code api cu sq gr xs []) opss"
  have i: "db_safe ?d0 (fst (db_part db saved s))"
    using assms(4) by (simp add: db_safe_def db_part_def grows_refl)
  have w: "safe (db_part db saved) TableM (\<lambda>v. db_safe ?d0 (fst v)) (\<lambda>r v'. db_safe ?d0 (fst v')) (?cs ! 1) 0
      (db_part db saved s)"
    unfolding nth_Cons_Suc One_nat_def nth_Cons_0
    by (rule safe_bindl [OF safe_UpdatePrices [OF assms(1-3) i]]) simp
  have o: "still (db_part db saved) (?cs ! j)" if j: "j < length ?cs" "j \<noteq> 1" for j
  proof (cases "j = 0")
    case False
    then obtain k where k: "j = Suc (Suc k)" using j(2) by (metis One_nat_def not0_implies_Suc)
    then have "\<forall>x \<in> set (opss ! k). reads_only x" using j(1) assms(5) nth_mem [of k opss] by auto
    then show ?thesis using j(1) k by (simp add: still_ops [OF assms(2,3)])
  qed (simp add: assms(6))
  have h: "holds (pl_owner t) 1 TableM = 0"
    using assms(8) by (cases "pl_owner t TableM") (auto simp: holds_def)
  have "db_safe ?d0 (fst (db_part db saved (pl_shared t)))"
    by (rule one_writer [OF _ w i o assms(7) h]) simp_all
  then show ?thesis by (simp add: db_safe_def db_part_def)
qed


text \<open>The witness: in the run of the update thread alone one price has been stored.\<close>

definition busy_daemon :: "(rtree, demo_host) daemon" where
  "busy_daemon = demo_daemon\<lparr>dm_world := served\<rparr>"

lemma host_db_frame: "db_frame host_tree host_curl host_grpc (\<lambda>w. (demo_content w, demo_saved w))"
  by (auto simp: db_frame_def net_frame_def host_tree_def rtree_api_def host_curl_def on_net_def host_grpc_def
      demo_content_def demo_saved_def split: prod.split)


end
