(* ===== verification/Database_Setup.thy ===== *)
theory Database_Setup
  imports Startup Update_Properties
begin

text \<open>
  What the start of the worker does to the companies and prices that are in the database already:
  a start that returns keeps them all or has cleared both tables, so that prices refer to
  companies after it if they did before. The tables are dropped one by one, each in its own
  transaction, and a start that stops between two of them breaks this.
\<close>

section \<open>What the statements do to the rows\<close>

text \<open>
  Opening the file, creating tables that may be there, and writing the version leave the rows
  of the two tables alone; dropping a table takes its rows away.
\<close>

definition setup_laws :: "('w, 'x) sql_api_scheme \<Rightarrow> ('w \<Rightarrow> company_rows \<times> price_rows) \<Rightarrow> bool" where
  "setup_laws sq db \<longleftrightarrow>
     (\<forall>p w. db (snd (sq_open sq p w)) = db w) \<and>
     (\<forall>cmd w w'. (cmd \<in> {version_create_cmd, companies_create_cmd, prices_create_cmd} \<or>
        (\<exists>v. cmd = version_insert_cmd v \<or> cmd = version_update_cmd v)) \<longrightarrow>
        sq_exec sq cmd w = (None, w') \<longrightarrow> db w' = db w) \<and>
     (\<forall>w w'. sq_exec sq (''DROP TABLE IF EXISTS '' @ version_name) w = (None, w') \<longrightarrow> db w' = db w) \<and>
     (\<forall>w w'. sq_exec sq (''DROP TABLE IF EXISTS '' @ companies_name) w = (None, w') \<longrightarrow>
        db w' = (Map.empty, snd (db w))) \<and>
     (\<forall>w w'. sq_exec sq (''DROP TABLE IF EXISTS '' @ prices_name) w = (None, w') \<longrightarrow> db w' = (fst (db w), []))"

lemma setup_lawsD:
  assumes "setup_laws sq db"
  shows setup_open: "db (snd (sq_open sq p w)) = db w"
    and setup_kept: "cmd \<in> {version_create_cmd, companies_create_cmd, prices_create_cmd} \<or>
      (\<exists>v. cmd = version_insert_cmd v \<or> cmd = version_update_cmd v) \<Longrightarrow>
      sq_exec sq cmd w = (None, w') \<Longrightarrow> db w' = db w"
    and setup_drop_version: "sq_exec sq (''DROP TABLE IF EXISTS '' @ version_name) w = (None, w') \<Longrightarrow> db w' = db w"
    and setup_drop_companies: "sq_exec sq (''DROP TABLE IF EXISTS '' @ companies_name) w = (None, w') \<Longrightarrow>
      db w' = (Map.empty, snd (db w))"
    and setup_drop_prices: "sq_exec sq (''DROP TABLE IF EXISTS '' @ prices_name) w = (None, w') \<Longrightarrow>
      db w' = (fst (db w), [])"
  using assms unfolding setup_laws_def by blast+

text \<open>They hold as well when some statements fail that did not.\<close>

lemma setup_laws_fewer:
  assumes "setup_laws sq db" and o: "sq_open sq' = sq_open sq"
    and "\<And>cmd w w'. sq_exec sq' cmd w = (None, w') \<Longrightarrow> sq_exec sq cmd w = (None, w')"
  shows "setup_laws sq' db"
  unfolding setup_laws_def
proof (intro conjI allI impI)
  show "db (snd (sq_open sq' p w)) = db w" for p w unfolding o by (rule setup_open [OF assms(1)])
next
  fix cmd w w'
  assume "cmd \<in> {version_create_cmd, companies_create_cmd, prices_create_cmd} \<or>
      (\<exists>v. cmd = version_insert_cmd v \<or> cmd = version_update_cmd v)" and "sq_exec sq' cmd w = (None, w')"
  then show "db w' = db w" using setup_kept [OF assms(1)] assms(3) by blast
qed (erule setup_drop_version [OF assms(1) assms(3)] setup_drop_companies [OF assms(1) assms(3)]
    setup_drop_prices [OF assms(1) assms(3)])+

definition no_rows :: "company_rows \<times> price_rows" where
  "no_rows = (Map.empty, [])"

lemma no_rows_good: "db_good no_rows"
  by (simp add: no_rows_def db_good_def refs_ok_def ids_unique_def)

section \<open>Programs that keep a part of the state\<close>

definition keeps :: "('s \<Rightarrow> 'd) \<Rightarrow> ('s, 'a) prog \<Rightarrow> bool" where
  "keeps f p \<longleftrightarrow> (\<forall>s. f (snd (p s)) = f s)"

lemma keepsD: "keeps f p \<Longrightarrow> p s = (r, s') \<Longrightarrow> f s' = f s"
  unfolding keeps_def by (metis snd_conv)

lemma keeps_simps [simp]:
  "keeps f (ret a)" "keeps f (raise e)" "keeps f (gets g)" "keeps f (lift_sum r)"
  by (simp_all add: keeps_def lift_sum_def split: sum.split)

lemma keeps_pure [simp]: "keeps f (Pair r)" "keeps f (\<lambda>s. (g s, s))"
  by (simp_all add: keeps_def)

lemma keeps_bindp:
  assumes "keeps f m" and "\<And>a. keeps f (k a)"
  shows "keeps f (bindp m k)"
  unfolding keeps_def
proof
  fix s
  show "f (snd (bindp m k s)) = f s"
    using assms by (cases "m s"; cases "fst (m s)") (auto simp: keeps_def bindp_def dest: keepsD [OF assms(1)])
qed

lemma keeps_thenp: "keeps f m \<Longrightarrow> keeps f n \<Longrightarrow> keeps f (thenp m n)"
  by (simp add: thenp_def keeps_bindp)

lemma keeps_catchp:
  assumes "keeps f m" and "\<And>e. keeps f (h e)"
  shows "keeps f (catchp m h)"
  unfolding keeps_def
proof
  fix s
  show "f (snd (catchp m h s)) = f s"
    using assms by (cases "m s"; cases "fst (m s)") (auto simp: keeps_def catchp_def dest: keepsD [OF assms(1)])
qed

lemma keeps_forM: "(\<And>x. keeps f (p x)) \<Longrightarrow> keeps f (forM p xs)"
  by (induction xs) (simp_all add: keeps_thenp)

section \<open>Setting up the tables\<close>

lemma keeps_exec_and_get: "keeps f (exec_and_get sq cmd)"
  by (simp add: keeps_def exec_and_get_def lift_sum_def split: sum.split)

lemma keeps_IsExist: "keeps f (IsExist sq n)"
  by (simp add: keeps_def IsExist_def split: sum.split)

lemma keeps_transaction:
  assumes "txn_laws sq db saved" and "\<And>w w'. sq_exec sq cmd w = (None, w') \<Longrightarrow> db w' = db w"
  shows "keeps db (RunTransaction sq cmd)"
  unfolding keeps_def
proof
  fix w
  obtain r w' where t: "RunTransaction sq cmd w = (r, w')" by fastforce
  show "db (snd (RunTransaction sq cmd w)) = db w"
  proof (cases r)
    case (Ret u)
    show ?thesis
      using RunTransaction_done [OF assms(1) t [unfolded Ret]] assms(2) t by (metis snd_conv)
  next
    case (Throw e)
    then show ?thesis using RunTransaction_atomic [OF assms(1)] t by simp
  next
    case Hang
    then show ?thesis using t run_transaction_returns [of sq "sq_exec sq cmd" w] by (simp add: RunTransaction_def)
  qed
qed

lemma setup_keeps:
  assumes "txn_laws sq db saved" and "setup_laws sq db"
  shows "keeps db (CreateAndInitAllTables sq)" and "keeps db (Upgrade sq v)" and "keeps db (Drop sq version_name)"
proof -
  have k: "keeps db (RunTransaction sq cmd)"
    if "cmd \<in> {version_create_cmd, companies_create_cmd, prices_create_cmd} \<or>
      (\<exists>v. cmd = version_insert_cmd v \<or> cmd = version_update_cmd v)" for cmd
    by (rule keeps_transaction [OF assms(1)]) (use assms(2) that in \<open>unfold setup_laws_def, blast\<close>)
  show "keeps db (CreateAndInitAllTables sq)"
    unfolding CreateAndInitAllTables_def DBVersion_Create_def DBVersion_Create_table_def IsVersionPresent_def
      Companies_Create_def Companies_Init_def Prices_Create_def Prices_Init_def
    by (auto intro!: keeps_thenp keeps_bindp keeps_exec_and_get k)
  show "keeps db (Upgrade sq v)" unfolding Upgrade_def UpdateDBVersion_def by (rule k) blast
  show "keeps db (Drop sq version_name)"
    unfolding Drop_def by (rule keeps_transaction [OF assms(1)]) (use assms(2) in \<open>unfold setup_laws_def, blast\<close>)
qed

lemma Drop_rows:
  assumes "txn_laws sq db saved" and "setup_laws sq db"
  shows "Drop sq companies_name w = (Ret u, w') \<Longrightarrow> db w' = (Map.empty, snd (db w))"
    and "Drop sq prices_name w = (Ret u, w') \<Longrightarrow> db w' = (fst (db w), [])"
proof -
  have c: "sq_exec sq (''DROP TABLE IF EXISTS '' @ companies_name) w = (None, w') \<Longrightarrow> db w' = (Map.empty, snd (db w))"
    and p: "sq_exec sq (''DROP TABLE IF EXISTS '' @ prices_name) w = (None, w') \<Longrightarrow> db w' = (fst (db w), [])" for w w'
    using assms(2) unfolding setup_laws_def by blast+
  show "db w' = (Map.empty, snd (db w))" if "Drop sq companies_name w = (Ret u, w')"
    by (rule RunTransaction_view [OF assms(1) _ that [unfolded Drop_def], where f = "\<lambda>d. (Map.empty, snd d)"]) (rule c)
  show "db w' = (fst (db w), [])" if "Drop sq prices_name w = (Ret u, w')"
    by (rule RunTransaction_view [OF assms(1) _ that [unfolded Drop_def], where f = "\<lambda>d. (fst d, [])"]) (rule p)
qed

lemma DropAndCreate_clears:
  assumes "txn_laws sq db saved" and "setup_laws sq db" and "DropAndCreateAllTables sq w = (Ret u, w')"
  shows "db w' = no_rows"
proof -
  obtain u1 u2 u3 w1 w2 w3 where d: "Drop sq version_name w = (Ret u1, w1)"
    "Drop sq companies_name w1 = (Ret u2, w2)" "Drop sq prices_name w2 = (Ret u3, w3)"
    and c: "CreateAndInitAllTables sq w3 = (Ret u, w')"
    using assms(3) unfolding DropAndCreateAllTables_def DropAllTables_def thenp_def
    by (elim bindp_RetE) blast
  show ?thesis
    using Drop_rows(1) [OF assms(1,2) d(2)] Drop_rows(2) [OF assms(1,2) d(3)]
      keepsD [OF setup_keeps(1) [OF assms(1,2)] c] by (simp add: no_rows_def)
qed

lemma UpgradeVersion_rows:
  assumes "txn_laws sq db saved" and "setup_laws sq db" and "UpgradeVersion sq w = (Ret u, w')"
  shows "db w' = db w \<or> db w' = no_rows"
proof -
  note clear = DropAndCreate_clears [OF assms(1,2)]
  obtain r1 where x: "IsExist sq version_name w = (r1, w)"
    by (cases "sq_table_exists sq version_name w") (simp_all add: IsExist_def)
  obtain g where g: "DBVersion_Get sq w = (g, w)"
    by (cases "sq_exec_and_get sq version_get_cmd w") (simp_all add: DBVersion_Get_def bindp_def exec_and_get_def)
  obtain r2 w2 where up: "Upgrade sq v w = (r2, w2)" for v by (fastforce simp: Upgrade_def)
  have k: "db w2 = db w" using keepsD [OF setup_keeps(2) [OF assms(1,2)] up] .
  show ?thesis
    using assms(3) x g up clear k
    by (cases r1; cases g)
      (auto simp: UpgradeVersion_def bindp_def catchp_def split: if_splits prod.splits outcome.splits dest: clear)
qed

section \<open>The start of the worker\<close>

text \<open>Folders, the file of the configuration and the log are beside the database.\<close>

definition start_frame ::
  "('w, 'x) posix_scheme \<Rightarrow> ('a, 'w, 'y) ptree_api_scheme \<Rightarrow> (string \<Rightarrow> 'w \<Rightarrow> 'w) \<Rightarrow> ('w \<Rightarrow> 'd) \<Rightarrow> bool" where
  "start_frame os api log_init vw \<longleftrightarrow>
     (\<forall>p w. vw (snd (px_mkdir os p w)) = vw w) \<and> (\<forall>p w. vw (px_chmod os p w) = vw w) \<and>
     (\<forall>p t w. vw (snd (js_save api p t w)) = vw w) \<and> (\<forall>p w. vw (log_init p w) = vw w)"

lemma folder_frame:
  "start_frame os api log_init vw \<Longrightarrow> vw (create_folder_loop os created nxt w) = vw w"
proof (induction os created nxt w rule: create_folder_loop.induct)
  case (1 os created nxt w)
  have m: "px_mkdir os p w = (b, w1) \<Longrightarrow> vw w1 = vw w" and c: "vw (px_chmod os p w1) = vw w1" for p w b w1
    using 1(3) unfolding start_frame_def by (metis snd_conv)+
  show ?case
    by (subst create_folder_loop.simps) (use 1 in \<open>auto simp: Let_def c dest: m split: prod.split bool.split\<close>)
qed

lemma CreateFolder_frame: "start_frame os api log_init vw \<Longrightarrow> vw (CreateFolder os dir w) = vw w"
  by (simp add: CreateFolder_def folder_frame)

abbreviation keeps_world :: "('w \<Rightarrow> 'd) \<Rightarrow> ('c \<times> 'w, 'r) prog \<Rightarrow> bool" where
  "keeps_world vw \<equiv> keeps (\<lambda>s. vw (snd s))"

lemma keeps_lock_guard:
  assumes "keeps_world vw m"
  shows "keeps_world vw (lock_guard m)"
  unfolding keeps_def
proof
  fix s
  show "vw (snd (snd (lock_guard m s))) = vw (snd s)"
    using keepsD [OF assms]
    by (cases s) (fastforce simp: lock_guard_def split: prod.split outcome.split)
qed

lemma keeps_save:
  assumes "start_frame os api log_init vw"
  shows "keeps_world vw (catchp (lock_guard (thenp (set_root f) (save_root api))) (write_handler text))"
proof -
  have j: "js_save api p t w = (x, w') \<Longrightarrow> vw w' = vw w" for p t w x w'
    using assms unfolding start_frame_def by (metis snd_conv)
  have r: "keeps_world vw (set_root f)" by (auto simp: keeps_def set_root_def split: sum.split prod.split)
  have s: "keeps_world vw (save_root api)"
    by (auto simp: keeps_def save_root_def split: option.split prod.split dest: j)
  show ?thesis by (simp add: keeps_catchp keeps_lock_guard keeps_thenp r s write_handler_handled)
qed

lemma keeps_config:
  assumes "start_frame os api log_init vw"
  shows "keeps_world vw (WriteString api k v)" and "keeps_world vw (WriteArray api k vs)"
    and "keeps_world vw (GetString api k d)" and "keeps_world vw (GetArray api k ds)"
    and "keeps_world vw (GetInt api lx k i)" and "keeps_world vw (WriteInt api lx k i)"
proof -
  show w: "keeps_world vw (WriteString api k v)" for k v
    unfolding WriteString_def by (rule keeps_save [OF assms])
  show a: "keeps_world vw (WriteArray api k vs)" for k vs
    unfolding WriteArray_def by (rule keeps_save [OF assms])
  show g: "keeps_world vw (GetString api k d)" for k d
    unfolding GetString_def
    by (intro keeps_lock_guard keeps_catchp keeps_bindp) (auto split: exn.split intro!: keeps_thenp w)
  show "keeps_world vw (GetArray api k ds)"
    unfolding GetArray_def
    by (intro keeps_lock_guard keeps_bindp) (auto simp: Let_def split: option.split intro!: keeps_thenp a)
  show "keeps_world vw (GetInt api lx k i)"
    unfolding GetInt_def by (intro keeps_bindp g) (auto split: option.split)
  show "keeps_world vw (WriteInt api lx k i)" unfolding WriteInt_def by (rule w)
qed

lemma Daemon_Init_frame:
  assumes "start_frame os api log_init vw"
  shows "keeps_world vw (Daemon_Init api lx)"
  unfolding Daemon_Init_def init_line_def keys_call_def getters
  by (intro keeps_thenp keeps_bindp keeps_simps keeps_config [OF assms])

lemma new_Config_frame:
  assumes "start_frame os api log_init vw"
  shows "keeps vw (new_Config os api folder name)"
  by (auto simp: keeps_def new_Config_def Config_Init_def Let_def CreateFolder_frame [OF assms] split: sum.split)

text \<open>The instances, on the statics and the world.\<close>

lemma Daemon_instance_frame:
  assumes "start_frame os api log_init vw"
  shows "keeps_world vw (Daemon_instance os api lx)"
proof -
  have c: "new_Config os api f n w = (r, w') \<Longrightarrow> vw w' = vw w" for f n w r w'
    using keepsD [OF new_Config_frame [OF assms]] .
  have i: "Daemon_Init api lx (x, w) = (r, (x', w')) \<Longrightarrow> vw w' = vw w" for x w r x' w'
    using keepsD [OF Daemon_Init_frame [OF assms]] by fastforce
  have g: "GetConfig_default os api n (m, w) = (r, (m', w')) \<Longrightarrow> vw w' = vw w" for n m w r m' w'
    by (auto simp: GetConfig_default_def GetConfig_def Let_def split: option.splits prod.splits outcome.splits dest: c)
  have d: "new_Daemon os api lx (m, w) = (r, (m', w')) \<Longrightarrow> vw w' = vw w" for m w r m' w'
    by (fastforce simp: new_Daemon_def split: prod.splits outcome.splits dest: g i)
  show ?thesis
    by (auto simp: keeps_def Daemon_instance_def Daemon_GetInstance_def split: prod.splits option.splits outcome.splits dest: d)
qed

lemma with_config_world:
  "with_config a p (st, w) = (r, (st', w')) \<Longrightarrow> \<exists>c c'. p (c, w) = (r, (c', w'))"
  by (auto simp: with_config_def split: prod.splits)

text \<open>The database manager keeps the rows or clears them.\<close>

lemma new_DBManager_rows:
  assumes "txn_laws sq db saved" and "setup_laws sq db" and "start_frame os api log_init db"
    and "new_DBManager api sq (c, w) = (Ret m, (c', w'))"
  shows "db w' = db w \<or> db w' = no_rows"
proof -
  obtain path c1 w1 w2 u w3 where p: "GetDBPath api (c, w) = (Ret path, (c1, w1))"
    and o: "sq_open sq path w1 = (None, w2)"
    and r: "CreateAndInitAllTables sq w2 = (Ret u, w3)" "UpgradeVersion sq w3 = (Ret (), w')"
    using assms(4) by (auto simp: new_DBManager_def bindp_def thenp_def split: prod.splits option.splits outcome.splits)
  have "db w1 = db w" using keepsD [OF keeps_config(3) [OF assms(3)]] p unfolding getters by fastforce
  moreover have "db w2 = db w1" using assms(2) o unfolding setup_laws_def by (metis snd_conv)
  moreover have "db w3 = db w2" using keepsD [OF setup_keeps(1) [OF assms(1,2)] r(1)] .
  ultimately show ?thesis using UpgradeVersion_rows [OF assms(1,2) r(2)] by simp
qed

lemma start_rows:
  assumes "txn_laws sq db saved" and "setup_laws sq db" and "start_frame os api log_init db"
    and "Controller_construct os api lx sq log_init (no_statics, w) = (Ret ctl, (st, w'))"
  shows "db w' = db w \<or> db w' = no_rows"
proof -
  have i: "Daemon_instance os api lx (s, w) = (r, (s', w')) \<Longrightarrow> db w' = db w" for s w r s' w'
    using keepsD [OF Daemon_instance_frame [OF assms(3)]] by fastforce
  obtain a st1 w1 m st2 w2 rpc st3 w3 path st4 w4 where
    d: "Daemon_instance os api lx (no_statics, w) = (Ret a, (st1, w1))"
    and b: "DBManager_GetInstance os api lx sq (st1, w1) = (Ret m, (st2, w2))"
    and r: "RPCService_GetInstance os api lx (st2, w2) = (Ret rpc, (st3, w3))"
    and l: "with_config a (GetLogPath api) (st3, w3) = (Ret path, (st4, w4))"
    and e: "w' = log_init (c_str path) w4"
    using assms(4) by (auto simp: Controller_construct_def thenp_def elim!: bindp_RetE)
  have n: "st_db st1 = None" using d by (auto simp: Daemon_instance_def no_statics_def split: prod.splits)
  obtain a2 s0 w0 s1 where b2: "Daemon_instance os api lx (st1, w1) = (Ret a2, (s0, w0))"
    "with_config a2 (new_DBManager api sq) (s0, w0) = (Ret m, (s1, w2))"
    using b n by (auto simp: DBManager_GetInstance_def thenp_def elim!: bindp_RetE)
  have 1: "db w0 = db w" using i d b2(1) by metis
  have 2: "db w2 = db w0 \<or> db w2 = no_rows"
    using with_config_world [OF b2(2)] new_DBManager_rows [OF assms(1-3)] by blast
  have 3: "db w3 = db w2"
    using r i by (auto simp: RPCService_GetInstance_def bindp_def thenp_def split: option.splits prod.splits outcome.splits)
  have 4: "db w4 = db w3"
    using with_config_world [OF l] keepsD [OF keeps_config(3) [OF assms(3)]] unfolding getters by fastforce
  show ?thesis using 1 2 3 4 e assms(3) by (auto simp: start_frame_def)
qed

section \<open>Dropping the tables\<close>

lemma keeps_failed: "txn_laws sq db saved \<Longrightarrow> Drop sq n w = (Throw e, w') \<Longrightarrow> db w' = db w"
  unfolding Drop_def by (rule RunTransaction_atomic)

lemma Drop_returns: "fst (Drop sq n w) \<noteq> Hang"
  unfolding Drop_def RunTransaction_def by (rule run_transaction_returns)

lemma DropAllTables_cases:
  assumes "txn_laws sq db saved" and "setup_laws sq db" and "DropAllTables sq w = (r, w')"
  shows "r = Ret () \<and> db w' = no_rows \<or> (\<exists>e. r = Throw e) \<and> (db w' = db w \<or> db w' = (Map.empty, snd (db w)))"
proof -
  obtain r1 w1 where d1: "Drop sq version_name w = (r1, w1)" by fastforce
  obtain r2 w2 where d2: "Drop sq companies_name w1 = (r2, w2)" by fastforce
  obtain r3 w3 where d3: "Drop sq prices_name w2 = (r3, w3)" by fastforce
  have n: "r1 \<noteq> Hang" "r2 \<noteq> Hang" "r3 \<noteq> Hang"
    using Drop_returns [of sq version_name w] Drop_returns [of sq companies_name w1] Drop_returns [of sq prices_name w2]
      d1 d2 d3 by simp_all
  have k1: "db w1 = db w" using keepsD [OF setup_keeps(3) [OF assms(1,2)] d1] .
  have k2: "db w2 = (case r2 of Ret u \<Rightarrow> (Map.empty, snd (db w1)) | _ \<Rightarrow> db w1)"
    using Drop_rows(1) [OF assms(1,2)] keeps_failed [OF assms(1)] d2 n(2) by (cases r2) auto
  have k3: "db w3 = (case r3 of Ret u \<Rightarrow> (fst (db w2), []) | _ \<Rightarrow> db w2)"
    using Drop_rows(2) [OF assms(1,2)] keeps_failed [OF assms(1)] d3 n(3) by (cases r3) auto
  show ?thesis
    using assms(3) d1 d2 d3 n k1 k2 k3
    by (cases r1; cases r2; cases r3) (auto simp: DropAllTables_def thenp_def bindp_def no_rows_def)
qed

text \<open>
  C26: Dropping the tables is three transactions. When it returns, there is no company and no price.
  When it throws, either nothing is gone or the companies are and the prices are not; then
  every price refers to a company that is not there, and the next start, which makes the tables
  again and finds its own version in the new version table, leaves it so.
\<close>

theorem drop_not_atomic:
  assumes "txn_laws sq db saved" and "setup_laws sq db" and "DropAllTables sq w = (r, w')"
  shows "(r = Ret () \<and> db w' = no_rows \<or>
      (\<exists>e. r = Throw e) \<and> (db w' = db w \<or> db w' = (Map.empty, snd (db w)))) \<and>
    (db w' = (Map.empty, snd (db w)) \<and> snd (db w) \<noteq> [] \<longrightarrow>
      \<not> refs_ok (db w') \<and>
      (\<forall>u w2. CreateAndInitAllTables sq w' = (Ret u, w2) \<and> IsExist sq version_name w2 = (Ret True, w2) \<and>
         DBVersion_Get sq w2 = (Ret dbVersion, w2) \<longrightarrow>
         UpgradeVersion sq w2 = (Ret (), w2) \<and> \<not> refs_ok (db w2)))"
proof (intro conjI impI allI)
  show "r = Ret () \<and> db w' = no_rows \<or> (\<exists>e. r = Throw e) \<and> (db w' = db w \<or> db w' = (Map.empty, snd (db w)))"
    by (rule DropAllTables_cases [OF assms])
  assume d: "db w' = (Map.empty, snd (db w)) \<and> snd (db w) \<noteq> []"
  then show n: "\<not> refs_ok (db w')" by (cases "snd (db w)") (auto simp: refs_ok_def)
  fix u w2
  assume c: "CreateAndInitAllTables sq w' = (Ret u, w2) \<and> IsExist sq version_name w2 = (Ret True, w2) \<and>
    DBVersion_Get sq w2 = (Ret dbVersion, w2)"
  then show "UpgradeVersion sq w2 = (Ret (), w2)" by (simp add: UpgradeVersion_def bindp_def catchp_def)
  have "db w2 = db w'" using c keepsD [OF setup_keeps(1) [OF assms(1,2)]] by blast
  then show "\<not> refs_ok (db w2)" using n by simp
qed

text \<open>A database whose price table another process has locked, with one company and one price.\<close>

lemma drop_cmds:
  "''DROP TABLE IF EXISTS '' @ version_name \<noteq> ''DROP TABLE IF EXISTS '' @ companies_name"
  "''DROP TABLE IF EXISTS '' @ version_name \<noteq> ''DROP TABLE IF EXISTS '' @ prices_name"
  "''DROP TABLE IF EXISTS '' @ companies_name \<noteq> ''DROP TABLE IF EXISTS '' @ prices_name"
  "take 21 (version_update_cmd v) \<noteq> take 21 (''DROP TABLE IF EXISTS '' @ n)"
  "take 21 (version_insert_cmd v) \<noteq> take 21 (''DROP TABLE IF EXISTS '' @ n)"
  by (simp_all add: version_name_def companies_name_def prices_name_def version_update_cmd_def version_insert_cmd_def)

lemma demo_exec_rows:
  assumes "demo_exec cmd d = (None, d')"
  shows "db_view d' =
    (if cmd = ''DROP TABLE IF EXISTS '' @ companies_name then (Map.empty, snd (db_view d))
     else if cmd = ''DROP TABLE IF EXISTS '' @ prices_name then (fst (db_view d), []) else db_view d)"
proof -
  define a b c where "a = ''DROP TABLE IF EXISTS '' @ version_name" and "b = ''DROP TABLE IF EXISTS '' @ companies_name"
    and "c = ''DROP TABLE IF EXISTS '' @ prices_name"
  note abc = a_def [symmetric] b_def [symmetric] c_def [symmetric]
  show ?thesis
    using assms drop_cmds(1-3) unfolding demo_exec_def abc db_view_def by (auto split: if_splits)
qed

lemma demo_setup_laws: "setup_laws demo_sql demo_content"
proof -
  have e: "demo_content w' = (let d = demo_content w in
      if cmd = ''DROP TABLE IF EXISTS '' @ companies_name then (Map.empty, snd d)
      else if cmd = ''DROP TABLE IF EXISTS '' @ prices_name then (fst d, []) else d)"
    if x: "sq_exec demo_sql cmd w = (None, w')" for cmd w w'
  proof -
    obtain d' where d: "demo_exec cmd (fst (snd w)) = (None, d')" "w' = (fst w, d', snd (snd w))"
      using x by (auto simp: demo_sql_def on_content_def split: prod.splits)
    show ?thesis using demo_exec_rows [OF d(1)] d(2) by (simp only: demo_content_def Let_def fst_conv snd_conv)
  qed
  have k: "demo_content w' = demo_content w"
    if x: "cmd \<in> {version_create_cmd, companies_create_cmd, prices_create_cmd} \<or>
      (\<exists>v. cmd = version_insert_cmd v \<or> cmd = version_update_cmd v)" "sq_exec demo_sql cmd w = (None, w')" for cmd w w'
  proof -
    consider "cmd = version_create_cmd" | "cmd = companies_create_cmd" | "cmd = prices_create_cmd"
      | v where "cmd = version_insert_cmd v" | v where "cmd = version_update_cmd v" using x(1) by blast
    then have "cmd \<noteq> ''DROP TABLE IF EXISTS '' @ n" for n
      by cases (use schema_cmds(13-15) drop_cmds(4,5) in metis)+
    then show ?thesis using e [OF x(2)] by (simp only: Let_def if_False)
  qed
  show ?thesis
    unfolding setup_laws_def
  proof (intro conjI allI impI)
    show "demo_content (snd (sq_open demo_sql p w)) = demo_content w" for p w by (simp add: demo_sql_def)
    show "demo_content w' = demo_content w"
      if "sq_exec demo_sql (''DROP TABLE IF EXISTS '' @ version_name) w = (None, w')" for w w'
      using e [OF that] drop_cmds(1,2) by (simp only: Let_def if_False)
    show "demo_content w' = (Map.empty, snd (demo_content w))"
      if "sq_exec demo_sql (''DROP TABLE IF EXISTS '' @ companies_name) w = (None, w')" for w w'
      using e [OF that] by (simp only: Let_def simp_thms if_True)
    show "demo_content w' = (fst (demo_content w), [])"
      if "sq_exec demo_sql (''DROP TABLE IF EXISTS '' @ prices_name) w = (None, w')" for w w'
      using e [OF that] drop_cmds(3) [symmetric] by (simp only: Let_def simp_thms if_True if_False)
  qed (use k in blast)
qed

definition locked_sql :: "demo_host sql_api" where
  "locked_sql = demo_sql\<lparr>sq_exec := (\<lambda>cmd w.
     if cmd = ''DROP TABLE IF EXISTS '' @ prices_name then (Some (SqliteError ''database table is locked''), w)
     else sq_exec demo_sql cmd w)\<rparr>"

lemma locked_exec: "sq_exec locked_sql cmd w = (None, w') \<Longrightarrow> sq_exec demo_sql cmd w = (None, w')"
  by (simp add: locked_sql_def split: if_splits del: append.simps)

lemma locked_laws: "txn_laws locked_sql demo_content demo_saved" "setup_laws locked_sql demo_content"
proof -
  define c where "c = ''DROP TABLE IF EXISTS '' @ prices_name"
  show "txn_laws locked_sql demo_content demo_saved"
    using demo_txn_laws unfolding txn_laws_def locked_sql_def c_def [symmetric] by simp
  show "setup_laws locked_sql demo_content"
    by (rule setup_laws_fewer [OF demo_setup_laws _ locked_exec]) (simp add: locked_sql_def)
qed

definition priced :: demo_host where
  "priced = (([], 0), empty_db\<lparr>dd_companies := [(''A'', 1, ''n'', [])], dd_prices := [(1, 7, 9)]\<rparr>, empty_db)"

theorem drop_not_atomic_witness:
  "\<exists>e w'. DropAllTables locked_sql priced = (Throw e, w') \<and> demo_content w' = (Map.empty, [(1, 7, 9)]) \<and>
     \<not> refs_ok (demo_content w')"
proof -
  obtain r w' where d: "DropAllTables locked_sql priced = (r, w')" by (metis prod.exhaust)
  have c: "demo_content priced = ([''A'' \<mapsto> (1, ''n'', [])], [(1, 7, 9)])" by (simp add: demo_content_def db_view_def priced_def)
  have t: "case DropAllTables locked_sql priced of (r, w') \<Rightarrow> r \<noteq> Ret () \<and> fst (demo_content w') ''A'' = None \<and>
      snd (demo_content w') = [(1, 7, 9)]" by code_simp
  show ?thesis using drop_not_atomic [OF locked_laws d] t d c by auto
qed

end
