(* ===== verification/Answer_Content.thy ===== *)
theory Answer_Content
  imports Service_Properties
begin

text \<open>
  What the JSON answer of the gRPC server holds: an array with an object for each company, with
  its name, its logo and the list of its prices, over what boost documents of \<open>put\<close> and
  \<open>add_child\<close> with a single name.
\<close>

section \<open>Objects\<close>

text \<open>Both append a child; \<open>put\<close> one with the given data and no children, if the name is new.\<close>

definition object_laws :: "('a, 'w, 'x) ptree_api_scheme \<Rightarrow> bool" where
  "object_laws api \<longleftrightarrow>
     (\<forall>n v t. dot_free n \<and> n \<notin> fst ` set (pt_children api t) \<longrightarrow>
        (\<exists>t' c. pt_put api n v t = Inr t' \<and> pt_children api t' = pt_children api t @ [(n, c)] \<and>
           pt_data api c = v \<and> pt_children api c = [])) \<and>
     (\<forall>n c t. dot_free n \<longrightarrow> pt_children api (pt_add_child api n c t) = pt_children api t @ [(n, c)])"

text \<open>A node without children, and a node with the given children.\<close>

definition leaf :: "('a, 'w, 'x) ptree_api_scheme \<Rightarrow> string \<times> 'a \<Rightarrow> string \<Rightarrow> string \<Rightarrow> bool" where
  "leaf api c n v \<longleftrightarrow> fst c = n \<and> pt_data api (snd c) = v \<and> pt_children api (snd c) = []"

definition company_object :: "('a, 'w, 'x) ptree_api_scheme \<Rightarrow> CompanyInfo \<Rightarrow> 'a \<Rightarrow> bool" where
  "company_object api info ob \<longleftrightarrow>
     (\<exists>n l ps. pt_children api ob = [n, l, (''prices'', ps)] \<and>
        leaf api n ''name'' (fullName info) \<and> leaf api l ''logo'' (logo info) \<and>
        list_all2 (\<lambda>p c. leaf api c [] (pt_of_float api (price p))) (priceList info) (pt_children api ps))"

lemma array_tree_leaves:
  assumes "ptree_laws api"
  shows "\<exists>t cs. array_tree api vs child = Inr t \<and> pt_children api t = pt_children api child @ cs \<and>
    list_all2 (\<lambda>v c. leaf api c [] v) vs cs"
proof (induction vs arbitrary: child)
  case Nil
  then show ?case by simp
next
  case (Cons v vs)
  obtain ob where ob: "pt_put api [] v (pt_empty api) = Inr ob" "pt_data api ob = v" "pt_children api ob = []"
    using ptree_put_root [OF assms, of v "pt_empty api"] ptree_empty [OF assms] by metis
  obtain t cs where t: "array_tree api vs (pt_push_back api [] ob child) = Inr t"
    "pt_children api t = (pt_children api child @ [([], ob)]) @ cs" "list_all2 (\<lambda>v c. leaf api c [] v) vs cs"
    using Cons.IH [of "pt_push_back api [] ob child"] by (auto simp: ptree_push_back [OF assms])
  have "list_all2 (\<lambda>v c. leaf api c [] v) (v # vs) (([], ob) # cs)" using t(3) ob by (simp add: leaf_def)
  then show ?case using t(1,2) ob(1) by (intro exI [of _ t] exI [of _ "([], ob) # cs"]) simp
qed

lemma names_free: "dot_free ''name''" "dot_free ''logo''" "dot_free ''prices''"
  by (simp_all add: dot_free_def)

text \<open>Building the object of a company succeeds, and the object holds the company.\<close>

lemma company_json_built:
  assumes "ptree_laws api" and "object_laws api"
  obtains ob where "company_json api info = Inr ob" and "company_object api info ob"
proof -
  have put: "\<exists>t' c. pt_put api n v t = Inr t' \<and> pt_children api t' = pt_children api t @ [(n, c)] \<and>
      pt_data api c = v \<and> pt_children api c = []"
    if "dot_free n" "n \<notin> fst ` set (pt_children api t)" for n v t
    using assms(2) that unfolding object_laws_def by blast
  have add: "pt_children api (pt_add_child api ''prices'' c t) = pt_children api t @ [(''prices'', c)]" for c t
    using assms(2) names_free(3) unfolding object_laws_def by blast
  obtain t1 n where t1: "pt_put api ''name'' (fullName info) (pt_empty api) = Inr t1"
    "pt_children api t1 = [(''name'', n)]" "leaf api (''name'', n) ''name'' (fullName info)"
    using put [OF names_free(1), of "pt_empty api" "fullName info"] by (auto simp: ptree_empty [OF assms(1)] leaf_def)
  obtain t2 l where t2: "pt_put api ''logo'' (logo info) t1 = Inr t2"
    "pt_children api t2 = [(''name'', n), (''logo'', l)]" "leaf api (''logo'', l) ''logo'' (logo info)"
    using put [OF names_free(2), of t1 "logo info"] t1(2) by (auto simp: leaf_def)
  obtain ps cs where ps: "array_tree api (map (\<lambda>p. pt_of_float api (price p)) (priceList info)) (pt_empty api) = Inr ps"
    "pt_children api ps = cs" "list_all2 (\<lambda>p c. leaf api c [] (pt_of_float api (price p))) (priceList info) cs"
    using array_tree_leaves [OF assms(1), of "map (\<lambda>p. pt_of_float api (price p)) (priceList info)" "pt_empty api"]
    by (auto simp: ptree_empty [OF assms(1)] list_all2_map1)
  show thesis
  proof (rule that)
    show "company_json api info = Inr (pt_add_child api ''prices'' ps t2)"
      using t1(1) t2(1) ps(1) by (simp add: company_json_def bind_sum_def)
    show "company_object api info (pt_add_child api ''prices'' ps t2)"
      using t1(3) t2(2,3) ps(2,3) by (simp add: company_object_def add)
  qed
qed

lemma companies_json_built:
  assumes "ptree_laws api" and "object_laws api"
  shows "\<exists>j cs. companies_json api infos j0 = Inr j \<and> pt_children api j = pt_children api j0 @ cs \<and>
    list_all2 (\<lambda>info c. fst c = [] \<and> company_object api info (snd c)) infos cs"
proof (induction infos arbitrary: j0)
  case Nil
  then show ?case by simp
next
  case (Cons info infos)
  obtain ob where ob: "company_json api info = Inr ob" "company_object api info ob"
    by (rule company_json_built [OF assms])
  obtain j cs where j: "companies_json api infos (pt_push_back api [] ob j0) = Inr j"
    "pt_children api j = (pt_children api j0 @ [([], ob)]) @ cs"
    "list_all2 (\<lambda>info c. fst c = [] \<and> company_object api info (snd c)) infos cs"
    using Cons.IH [of "pt_push_back api [] ob j0"] by (auto simp: ptree_push_back [OF assms(1)])
  then show ?case using ob by (intro exI [of _ j] exI [of _ "([], ob) # cs"]) (simp add: bind_sum_def)
qed

lemma rpc_answer:
  assumes "ptree_laws api" and "object_laws api"
    and "serve (rq_company rq) (request_frame rq) (request_date rq) s = (Ret infos, s')"
  obtains j where "list_all2 (\<lambda>info c. fst c = [] \<and> company_object api info (snd c)) infos (pt_children api j)"
    and "rpc_GetCompanyInfo api serve rq s =
      (Ret (case js_print api j of Inr data \<Rightarrow> (Status_OK, Some data) | Inl e \<Rightarrow> (Status_CANCELLED, None)), s')"
proof -
  obtain j where j: "companies_json api infos (pt_empty api) = Inr j"
    "list_all2 (\<lambda>info c. fst c = [] \<and> company_object api info (snd c)) infos (pt_children api j)"
    using companies_json_built [OF assms(1,2), of infos "pt_empty api"] by (auto simp: ptree_empty [OF assms(1)])
  show thesis
    by (rule that [OF j(2)])
      (simp add: rpc_GetCompanyInfo_def catchp_def bindp_def assms(3) j(1) lift_sum_def split: sum.split)
qed

section \<open>Properties\<close>

text \<open>
  C8: A request is answered with its companies. With the controller as its service the handler
  always returns a status, and no exception leaves it. \<open>OK\<close> comes with the print of an array
  that has one nameless object per company asked for, in the order of the request, with
  exactly the members \<open>name\<close>, \<open>logo\<close> and \<open>prices\<close>: the full name and the logo the controller got
  for that company, and its prices in order, each as a nameless number. Otherwise it is
  \<open>CANCELLED\<close> without data. The configuration stays usable.
\<close>

theorem answer_content:
  assumes "ptree_laws api" and "object_laws api" and "parser_errors api" and "\<not> mtx_locked c"
    and "rpc_GetCompanyInfo api (Controller_GetCompanyInfo api cu) rq (c, w) = (out, (c', w'))"
  shows "\<not> mtx_locked c' \<and>
    (out = Ret (Status_CANCELLED, None) \<or>
     (\<exists>infos j data. out = Ret (Status_OK, Some data) \<and> js_print api j = Inr data \<and>
       Controller_GetCompanyInfo api cu (rq_company rq) (request_frame rq) (request_date rq) (c, w) =
         (Ret infos, (c', w')) \<and>
       length infos = length (rq_company rq) \<and>
       list_all2 (\<lambda>info ch. fst ch = [] \<and> company_object api info (snd ch)) infos (pt_children api j)))"
proof -
  note a = controller.answer_complete [OF assms(1) _ assms(5)]
  have ok: "client_ok api (c, w)" using assms(1,3,4) by (simp add: client_ok_def)
  show ?thesis
  proof (cases "out = Ret (Status_CANCELLED, None)")
    case True
    then show ?thesis using a [OF ok] by (simp add: client_ok_def)
  next
    case False
    then obtain infos j d where r: "out = Ret (Status_OK, Some d)"
      "Controller_GetCompanyInfo api cu (rq_company rq) (request_frame rq) (request_date rq) (c, w) = (Ret infos, (c', w'))"
      "length (pt_children api j) = length (rq_company rq)"
      "list_all2 (\<lambda>info ch. company_json api info = Inr (snd ch)) infos (pt_children api j)"
      and l: "\<not> mtx_locked c'"
      using a [OF ok] by (auto simp: client_ok_def)
    have n: "length infos = length (rq_company rq)" using r(3) list_all2_lengthD [OF r(4)] by simp
    obtain j' where j': "list_all2 (\<lambda>info c. fst c = [] \<and> company_object api info (snd c)) infos (pt_children api j')"
      "rpc_GetCompanyInfo api (Controller_GetCompanyInfo api cu) rq (c, w) =
        (Ret (case js_print api j' of Inr data \<Rightarrow> (Status_OK, Some data) | Inl e \<Rightarrow> (Status_CANCELLED, None)), (c', w'))"
      by (rule rpc_answer [where serve = "Controller_GetCompanyInfo api cu", OF assms(1,2) r(2)])
    have "out = Ret (case js_print api j' of Inr data \<Rightarrow> (Status_OK, Some data) | Inl e \<Rightarrow> (Status_CANCELLED, None))"
      using j'(2) assms(5) by simp
    then have "js_print api j' = Inr d" using r(1) by (simp split: sum.splits)
    then show ?thesis using r(1,2) n l j'(1) by blast
  qed
qed
definition content_page :: demo_net where
  "content_page = ([(CURLE_OK, 200, quote_page), (CURLE_OK, 200, logo_page)], 0)"

lemma demo_web_objects: "object_laws demo_web"
proof -
  have u: "n \<notin> fst ` set xs \<Longrightarrow> upd_first n f e xs = xs @ [(n, f e)]" for n :: string and f and e :: rtree and xs
    by (induction xs) auto
  show ?thesis
    by (auto simp: object_laws_def demo_web_def rtree_api_def split_dots_free u)
qed

theorem answer_content_witness:
  "\<exists>info ob j. Controller_GetCompanyInfo demo_web demo_curl [''aapl''] [] [] (fresh_cfg, content_page) =
       (Ret [info], (fresh_cfg, ([], 200))) \<and> fullName info = ''Apple'' \<and>
     pt_children demo_web j = [([], ob)] \<and> company_object demo_web info ob"
proof -
  let ?run = "rpc_GetCompanyInfo demo_web (Controller_GetCompanyInfo demo_web demo_curl) demo_request (fresh_cfg, content_page)"
  have g: "Controller_GetCompanyInfo demo_web demo_curl [''aapl''] [] [] (fresh_cfg, content_page) =
      (Ret [\<lparr>shortName = ''AAPL'', fullName = ''Apple'', logo = ''http://l/a.png'',
        priceList = [\<lparr>price = 190, dateTimestamp = 1600, dateString = ''1600''\<rparr>]\<rparr>], (fresh_cfg, ([], 200)))"
    by code_simp
  have r: "?run = (Ret (Status_OK, Some (''='' @ [NL])), (fresh_cfg, ([], 200)))" by code_simp
  have l: "\<not> mtx_locked fresh_cfg" by (simp add: fresh_cfg_def)
  have q: "rq_company demo_request = [''aapl'']" "request_frame demo_request = []" "request_date demo_request = []"
    by (simp_all add: demo_request_def request_frame_def request_date_def)
  obtain infos j where "Controller_GetCompanyInfo demo_web demo_curl [''aapl''] [] [] (fresh_cfg, content_page) =
      (Ret infos, (fresh_cfg, ([], 200)))" "length infos = 1"
    "list_all2 (\<lambda>info ch. fst ch = [] \<and> company_object demo_web info (snd ch)) infos (pt_children demo_web j)"
    using answer_content [OF demo_web_laws demo_web_objects demo_web_errors l r] by (auto simp: q)
  with g show ?thesis by (auto simp: list_all2_Cons1)
qed

text \<open>
  C11: A quote reaches the caller. A request for one company without a time limit asks the IEX
  service for the quote and the logo of its symbol. When both pages hold the expected fields
  the answer is the print of an array with one object: the company's name and logo, and its
  latest price as the only price. No other request is made, and the configuration is left
  alone. Only when the print fails is the status \<open>CANCELLED\<close>.
\<close>

theorem quote_answered:
  assumes "ptree_laws api" and "object_laws api" and "\<not> mtx_locked c"
    and "rq_company rq = [symb]" and "time_limit_initialized rq \<longrightarrow> rq_time_limit rq = \<lparr>tf_timeFrame = [], tf_date = []\<rparr>"
    and "PerformGet cu (iex_url api c symb ''quote'') w = (Ret body, w1)"
    and "js_parse api body = Inr t"
    and "pt_get_opt api t ''companyName'' = Some full" and "pt_get_opt api t ''symbol'' = Some short"
    and "pt_get_opt api t ''latestPrice'' = Some pr" and "pt_to_float api pr = Some p"
    and "pt_get_opt api t ''latestUpdate'' = Some up" and "pt_to_int64 api up = Some ts"
    and "PerformGet cu (iex_url api c symb ''logo'') w1 = (Ret lbody, w2)"
    and "js_parse api lbody = Inr lt" and "pt_get_opt api lt ''url'' = Some link"
  shows "\<exists>j ob n l x q. pt_children api j = [([], ob)] \<and>
    pt_children api ob = [n, l, (''prices'', q)] \<and> leaf api n ''name'' full \<and> leaf api l ''logo'' link \<and>
    pt_children api q = [x] \<and> leaf api x [] (pt_of_float api p) \<and>
    rpc_GetCompanyInfo api (Controller_GetCompanyInfo api cu) rq (c, w) =
      (Ret (case js_print api j of Inr data \<Rightarrow> (Status_OK, Some data) | Inl e \<Rightarrow> (Status_CANCELLED, None)), (c, w2))"
proof -
  let ?info = "\<lparr>shortName = short, fullName = full, logo = link,
    priceList = [\<lparr>price = p, dateTimestamp = ts, dateString = up\<rparr>]\<rparr>"
  have tf: "request_frame rq = []" "request_date rq = []"
    using assms(5) by (auto simp: request_frame_def request_date_def)
  have "GetCompanyInfo api cu symb (c, w) = (Ret ?info, (c, w2))" by (rule quote_reply [OF assms(1,3,6-16)])
  then have serve: "Controller_GetCompanyInfo api cu (rq_company rq) (request_frame rq) (request_date rq) (c, w) =
      (Ret [?info], (c, w2))"
    by (simp add: Controller_GetCompanyInfo_def assms(4) tf GetHTTPCompanyInfo_def bindp_def)
  obtain j where j: "list_all2 (\<lambda>info c. fst c = [] \<and> company_object api info (snd c)) [?info] (pt_children api j)"
    "rpc_GetCompanyInfo api (Controller_GetCompanyInfo api cu) rq (c, w) =
      (Ret (case js_print api j of Inr data \<Rightarrow> (Status_OK, Some data) | Inl e \<Rightarrow> (Status_CANCELLED, None)), (c, w2))"
    by (rule rpc_answer [where serve = "Controller_GetCompanyInfo api cu", OF assms(1,2) serve])
  obtain ob where ob: "pt_children api j = [([], ob)]" "company_object api ?info ob"
    using j(1) by (auto simp: list_all2_Cons1)
  obtain n l q where "pt_children api ob = [n, l, (''prices'', q)]" "leaf api n ''name'' full" "leaf api l ''logo'' link"
    "list_all2 (\<lambda>p c. leaf api c [] (pt_of_float api (price p))) (priceList ?info) (pt_children api q)"
    using ob(2) by (auto simp: company_object_def)
  moreover from this(4) obtain x where "pt_children api q = [x]" "leaf api x [] (pt_of_float api p)"
    by (auto simp: list_all2_Cons1)
  ultimately show ?thesis using ob(1) j(2) by blast
qed

theorem quote_answered_witness:
  "\<exists>j ob n l x q. pt_children demo_web j = [([], ob)] \<and>
     pt_children demo_web ob = [n, l, (''prices'', q)] \<and> leaf demo_web n ''name'' ''Apple'' \<and>
     leaf demo_web l ''logo'' ''http://l/a.png'' \<and> pt_children demo_web q = [x] \<and> leaf demo_web x [] ''190'' \<and>
     rpc_GetCompanyInfo demo_web (Controller_GetCompanyInfo demo_web demo_curl) demo_request (fresh_cfg, content_page) =
       (Ret (case js_print demo_web j of Inr data \<Rightarrow> (Status_OK, Some data) | Inl e \<Rightarrow> (Status_CANCELLED, None)),
        (fresh_cfg, ([], 200)))"
proof -
  have l: "\<not> mtx_locked fresh_cfg" by (simp add: fresh_cfg_def)
  have rq: "rq_company demo_request = [''aapl'']"
    "time_limit_initialized demo_request \<longrightarrow> rq_time_limit demo_request = \<lparr>tf_timeFrame = [], tf_date = []\<rparr>"
    by (simp_all add: demo_request_def)
  have g: "PerformGet demo_curl (iex_url demo_web fresh_cfg ''aapl'' ''quote'') content_page =
      (Ret quote_page, ([(CURLE_OK, 200, logo_page)], 200))"
    by code_simp
  have h: "PerformGet demo_curl (iex_url demo_web fresh_cfg ''aapl'' ''logo'')
      ([(CURLE_OK, 200, logo_page)], 200) = (Ret logo_page, ([], 200))"
    by code_simp
  have t: "js_parse demo_web quote_page = Inr quote_tree" by code_simp
  have f: "pt_get_opt demo_web quote_tree ''companyName'' = Some ''Apple''"
    "pt_get_opt demo_web quote_tree ''symbol'' = Some ''AAPL''"
    "pt_get_opt demo_web quote_tree ''latestPrice'' = Some ''190''" "pt_to_float demo_web ''190'' = Some 190"
    "pt_get_opt demo_web quote_tree ''latestUpdate'' = Some ''1600''" "pt_to_int64 demo_web ''1600'' = Some 1600"
    by code_simp+
  have u: "js_parse demo_web logo_page = Inr logo_tree" "pt_get_opt demo_web logo_tree ''url'' = Some ''http://l/a.png''"
    by code_simp+
  have s: "pt_of_float demo_web 190 = ''190''" by code_simp
  show ?thesis by (rule quote_answered [OF demo_web_laws demo_web_objects l rq g t f h u, unfolded s])
qed

end
