(* ===== verification/Lock_Ends.thy ===== *)
theory Lock_Ends
  imports Lock_Safe
begin

text \<open>
  With what results threads can end, whatever the others do: a property of the results that
  holds on every path of the code, for every value of the shared state it may read, holds of
  the results under every schedule.
\<close>

section \<open>The results of code\<close>

primrec ends :: "('r \<Rightarrow> bool) \<Rightarrow> ('l, 'w, 'r) lcode \<Rightarrow> bool" where
  "ends P (LFinish r) = P r"
| "ends P (LLock l c) = ends P c"
| "ends P (LUnlock l c) = ends P c"
| "ends P (LJoin j c) = ends P c"
| "ends P (LAct u k) = (\<forall>w. ends P (k w))"

primrec code_ends :: "('r \<Rightarrow> bool) \<Rightarrow> ('w, 'r) code \<Rightarrow> bool" where
  "code_ends P (Finish r) = P r"
| "code_ends P (LockM c) = code_ends P c"
| "code_ends P (UnlockM c) = code_ends P c"
| "code_ends P (Act u k) = (\<forall>w. code_ends P (k w))"

lemma ends_mono: "ends P c \<Longrightarrow> (\<And>r. P r \<Longrightarrow> P' r) \<Longrightarrow> ends P' c"
  by (induction c) auto

lemma ends_True: "ends (\<lambda>_. True) c"
  by (induction c) auto

lemma ends_bindl: "ends P c \<Longrightarrow> (\<And>r. P r \<Longrightarrow> ends P' (f r)) \<Longrightarrow> ends P' (bindl c f)"
  by (induction c) auto

lemma ends_lcall: "(\<And>w. P (fst (p w))) \<Longrightarrow> ends P (lcall p)"
  by (simp add: lcall_def)

lemma ends_embed: "code_ends P c \<Longrightarrow> ends P (embed l g p c)"
  by (induction c) auto

lemma code_ends_mono: "code_ends P c \<Longrightarrow> (\<And>r. P r \<Longrightarrow> P' r) \<Longrightarrow> code_ends P' c"
  by (induction c) auto

lemma code_ends_bindc: "code_ends P c \<Longrightarrow> (\<And>r. P r \<Longrightarrow> code_ends P' (f r)) \<Longrightarrow> code_ends P' (bindc c f)"
  by (induction c) auto

lemma code_ends_guarded: "code_ends P c \<Longrightarrow> code_ends P (guarded c)"
  unfolding guarded_def by (auto intro: code_ends_bindc)

lemma code_ends_step: "(\<And>w. P (fst (p w))) \<Longrightarrow> code_ends P (step_code p)"
  by (simp add: step_code_def call_def)

text \<open>Code that comes back: a value with a property, or an exception.\<close>

definition comes_back :: "('a \<Rightarrow> bool) \<Rightarrow> 'a outcome \<Rightarrow> bool" where
  "comes_back P r \<longleftrightarrow> r \<noteq> Hang \<and> (\<forall>a. r = Ret a \<longrightarrow> P a)"

lemma comes_back_simps [simp]: "comes_back P (Ret a) = P a" "comes_back P (Throw e)" "\<not> comes_back P Hang"
  by (simp_all add: comes_back_def)

lemma ends_seql:
  assumes "ends (comes_back P) c" and "\<And>a. P a \<Longrightarrow> ends (comes_back P') (f a)"
  shows "ends (comes_back P') (seql c f)"
  unfolding seql_def by (rule ends_bindl [OF assms(1)]) (auto split: outcome.split intro: assms(2))

lemma code_ends_seqc:
  assumes "code_ends (comes_back P) c" and "\<And>a. P a \<Longrightarrow> code_ends (comes_back P') (f a)"
  shows "code_ends (comes_back P') (seqc c f)"
  unfolding seqc_def by (rule code_ends_bindc [OF assms(1)]) (auto split: outcome.split intro: assms(2))

section \<open>The threads together\<close>

lemma ends_step:
  assumes "lock_step rec s i = Some s'" and "\<forall>j < length (pl_threads s). ends (P j) (pl_threads s ! j)"
  shows "length (pl_threads s') = length (pl_threads s) \<and>
    (\<forall>j < length (pl_threads s'). ends (P j) (pl_threads s' ! j))"
  using assms(1) by (cases rule: lock_step_cases) (use assms(2) in \<open>auto simp: nth_list_update\<close>)

theorem results_of_threads:
  assumes "\<And>j. j < length cs \<Longrightarrow> ends (P j) (cs ! j)"
    and "run_list (lock_step rec) (start_pool w cs) sched = Some s"
    and "j < length cs" and "pl_threads s ! j = LFinish r"
  shows "P j r"
proof -
  have "length (pl_threads s) = length cs \<and> (\<forall>j < length (pl_threads s). ends (P j) (pl_threads s ! j))"
  proof (rule run_list_invariant [OF assms(2)])
    fix s i s'
    assume "length (pl_threads s) = length cs \<and> (\<forall>j < length (pl_threads s). ends (P j) (pl_threads s ! j))"
      and "lock_step rec s i = Some s'"
    then show "length (pl_threads s') = length cs \<and> (\<forall>j < length (pl_threads s'). ends (P j) (pl_threads s' ! j))"
      using ends_step [of rec s i s' P] by simp
  qed (use assms(1) in \<open>simp add: start_pool_def\<close>)
  then show ?thesis using assms(3,4) by force
qed

end
