(* ===== verification/Worker_Run.thy ===== *)
theory Worker_Run
  imports Daemon_Invariant Database_Setup Answer_Content Lock_Ends
begin

text \<open>
  The worker from its start on: the constructor of \<open>Controller\<close> runs alone, then the threads of
  the process run on what it left, under any schedule.
\<close>

section \<open>What requests are answered\<close>

text \<open>The companies of an answer are empty or come from a page of the service.\<close>

definition fetched :: "('a, 'w, 'x) ptree_api_scheme \<Rightarrow> CompanyInfo \<Rightarrow> bool" where
  "fetched api info \<longleftrightarrow> info = empty_info \<or> (\<exists>body i l. ParseCompanyInfo api body = Inr i \<and> info = i\<lparr>logo := l\<rparr>)"

text \<open>\<open>OK\<close> with the print of an array with an object per company asked for, or \<open>CANCELLED\<close>.\<close>

definition answer_ok :: "('a, 'w, 'x) ptree_api_scheme \<Rightarrow> GetCompanyRequest \<Rightarrow> grpc_answer outcome \<Rightarrow> bool" where
  "answer_ok api rq r \<longleftrightarrow>
     r = Ret (Status_CANCELLED, None) \<or>
     (\<exists>infos j data. r = Ret (Status_OK, Some data) \<and> js_print api j = Inr data \<and>
        length infos = length (rq_company rq) \<and> list_all (fetched api) infos \<and>
        list_all2 (\<lambda>info ch. fst ch = [] \<and> company_object api info (snd ch)) infos (pt_children api j))"

lemma caught_comes_back: "comes_back P r \<Longrightarrow> comes_back P (caught text r)"
  by (cases r) (simp_all add: caught_def)

lemma settings_come_back: "code_ends (comes_back (\<lambda>_. True)) (GetString_code api k d)"
proof -
  have s: "fst (set_root f s) \<noteq> Hang" for f and s :: "'a Config \<times> 'b"
    by (cases s) (simp add: set_root_def split: sum.split)
  have w: "fst (save_root api s) \<noteq> Hang" for s
    by (auto simp: save_root_def split: prod.split option.split)
  have "code_ends (comes_back (\<lambda>_. True)) (WriteString_code api k d)"
    unfolding WriteString_code_def save_code_def
    by (rule code_ends_bindc [where P = "comes_back (\<lambda>_. True)"])
      (auto intro!: code_ends_guarded code_ends_seqc [where P = "\<lambda>_. True"] code_ends_step
        simp: comes_back_def s w caught_def split: outcome.split)
  moreover have "comes_back (\<lambda>_. True) (fst (bindp (gets (\<lambda>s. pt_get_def api (root (fst s)) k d)) lift_sum s))" for s
    by (cases "pt_get_def api (root (fst s)) k d") (simp_all add: bindp_def lift_sum_def)
  ultimately show ?thesis
    unfolding GetString_code_def
    by (intro code_ends_guarded code_ends_bindc [where P = "comes_back (\<lambda>_. True)"] code_ends_step)
      (auto split: outcome.split exn.split intro: code_ends_seqc)
qed

lemma ends_setting: "ends (comes_back (\<lambda>_. True)) (setting_code api sec k d)"
  unfolding setting_code_def with_key_def
  by (rule ends_seql [where P = "\<lambda>_. True"])
    (simp_all add: sum_code_def on_cfg_def ends_embed settings_come_back split: sum.split)

lemma ends_sum: "(\<And>x. r = Inr x \<Longrightarrow> P x) \<Longrightarrow> ends (comes_back P) (sum_code r)"
  by (cases r) (simp_all add: sum_code_def)

lemma ends_CreateUrl: "ends (comes_back (\<lambda>_. True)) (CreateUrl_code api symbol ty)"
  unfolding CreateUrl_code_def by (intro ends_seql [OF ends_setting]) simp

lemma ends_fetch: "ends (comes_back (\<lambda>_. True)) (world_step (PerformGet cu url))"
proof -
  have "fst (PerformGet cu url w) \<noteq> Hang" for w by (cases rule: PerformGet_cases [of cu url w]) auto
  then show ?thesis unfolding world_step_def by (intro ends_lcall) (simp add: on_part_def comes_back_def)
qed

lemma ends_catch_http: "ends (comes_back P) c \<Longrightarrow> P v \<Longrightarrow> ends (comes_back P) (catch_http_code v c)"
  unfolding catch_http_code_def catch_code_def by (erule ends_bindl) (auto split: outcome.split)

lemma ends_logo: "ends (comes_back (\<lambda>_. True)) (logo_code api (PerformGet cu) short)"
  unfolding logo_code_def
  by (intro ends_catch_http ends_seql [OF ends_CreateUrl] ends_seql [OF ends_fetch] ends_seql [where P = "\<lambda>_. True"] ends_sum)
    simp_all

lemma ends_company: "ends (comes_back (fetched api)) (GetHTTPCompanyInfo_code api cu short tf d)"
proof -
  have "ends (comes_back (fetched api)) (info_code api (PerformGet cu) short ty)" for ty
    unfolding info_code_def
  proof (rule ends_catch_http)
    show "ends (comes_back (fetched api))
       (seql (CreateUrl_code api short ty) (\<lambda>url.
        seql (world_step (PerformGet cu url)) (\<lambda>data.
        seql (sum_code (ParseCompanyInfo api data)) (\<lambda>info.
        seql (logo_code api (PerformGet cu) short) (\<lambda>l.
          LFinish (Ret (info\<lparr>logo := l\<rparr>)))))))"
      by (rule ends_seql [OF ends_CreateUrl], rule ends_seql [OF ends_fetch],
          rule ends_seql [OF ends_sum [where P = "\<lambda>i. \<exists>body. ParseCompanyInfo api body = Inr i"]],
          blast, rule ends_seql [OF ends_logo]) (auto simp: fetched_def)
  qed (simp add: fetched_def)
  then show ?thesis by (simp add: GetHTTPCompanyInfo_code_def)
qed

lemma ends_company_loop:
  assumes "\<And>company. ends (comes_back (fetched api)) (f company)"
  shows "list_all (fetched api) infos0 \<Longrightarrow>
    ends (comes_back (\<lambda>infos. length infos = length infos0 + length companies \<and> list_all (fetched api) infos))
      (company_loop_code f companies infos0)"
proof (induction companies arbitrary: infos0)
  case (Cons company companies)
  show ?case
    unfolding company_loop_code.simps
  proof (rule ends_seql [OF assms])
    fix info assume "fetched api info"
    then show "ends (comes_back (\<lambda>infos. length infos = length infos0 + length (company # companies) \<and>
        list_all (fetched api) infos)) (company_loop_code f companies (infos0 @ [info]))"
      using Cons.IH [of "infos0 @ [info]"] Cons.prems by simp
  qed
qed simp

lemma ends_request:
  assumes "ptree_laws api" and "object_laws api"
  shows "ends (answer_ok api rq) (request_code api cu rq)"
proof -
  let ?loop = "company_loop_code (\<lambda>company. GetHTTPCompanyInfo_code api cu company (request_frame rq) (request_date rq))
    (rq_company rq) []"
  have "ends (comes_back (\<lambda>a. answer_ok api rq (Ret a)))
      (seql ?loop (\<lambda>infos. seql (sum_code (companies_json api infos (pt_empty api))) (\<lambda>j.
        seql (sum_code (js_print api j)) (\<lambda>data. LFinish (Ret (Status_OK, Some data))))))"
  proof (rule ends_seql [OF ends_company_loop [OF ends_company]])
    fix infos assume i: "length infos = length [] + length (rq_company rq) \<and> list_all (fetched api) infos"
    obtain j where j: "companies_json api infos (pt_empty api) = Inr j"
      "list_all2 (\<lambda>info c. fst c = [] \<and> company_object api info (snd c)) infos (pt_children api j)"
      using companies_json_built [OF assms, of infos "pt_empty api"] by (auto simp: ptree_empty [OF assms(1)])
    show "ends (comes_back (\<lambda>a. answer_ok api rq (Ret a)))
       (seql (sum_code (companies_json api infos (pt_empty api))) (\<lambda>j.
          seql (sum_code (js_print api j)) (\<lambda>data. LFinish (Ret (Status_OK, Some data)))))"
      by (rule ends_seql [OF ends_sum [where P = "\<lambda>x. x = j"]], use j(1) in simp,
          rule ends_seql [OF ends_sum [where P = "\<lambda>data. js_print api j = Inr data"]])
        (use i j(2) in \<open>auto simp: answer_ok_def\<close>)
  qed simp
  then show ?thesis
    unfolding request_code_def catch_code_def
    by (rule ends_bindl) (auto simp: answer_ok_def split: outcome.split)
qed

section \<open>The worker\<close>

text \<open>
  \<open>Controller::Start\<close> in the main thread, then \<open>Stop\<close>. The update thread is in the pool from the
  beginning, which allows more runs than the program has: there it is made at the end of \<open>Start\<close>.
\<close>

definition main_code ::
  "('a, 'w, 'x) ptree_api_scheme \<Rightarrow> ('w, 'y) grpc_api_scheme \<Rightarrow> nat \<Rightarrow> ('a, 'w, unit) dcode" where
  "main_code api gr this =
     seql (lcall (\<lambda>s. (Ret (), s\<lparr>dm_flag := False\<rparr>))) (\<lambda>_.
     seql (ServiceStart_code api gr this) (\<lambda>_. Stop_daemon_code 1))"

text \<open>What the constructor left, as the state the threads share.\<close>

definition worker_state :: "Controller \<Rightarrow> 'a Statics \<Rightarrow> 'w \<Rightarrow> ('a, 'w) daemon" where
  "worker_state ctl st w =
     \<lparr>dm_cfg = cfg_objects (st_configs st) ! the (st_daemon st), dm_rpc = Controller.rpcService ctl,
      dm_flag = Controller.stopFlag ctl, dm_world = w\<rparr>"

text \<open>The main thread, the update thread, and threads of the server that handle requests.\<close>

definition worker_pool ::
  "('a, 'w, 'x) ptree_api_scheme \<Rightarrow> 'l lexical_api_scheme \<Rightarrow> ('w, 'y) curl_api_scheme \<Rightarrow>
     ('w, 'z) sql_api_scheme \<Rightarrow> ('w, 'v) grpc_api_scheme \<Rightarrow> nat \<Rightarrow> ('a, 'w) daemon \<Rightarrow> GetCompanyRequest list list \<Rightarrow>
     (daemon_lock, ('a, 'w) daemon, daemon_result list) pool" where
  "worker_pool api lx cu sq gr rounds s rqss =
     start_pool s
       (bindl (main_code api gr 0) (\<lambda>r. LFinish [Done_op r]) #
        bindl (UpdatePrices_code api lx cu sq rounds) (\<lambda>r. LFinish [UpdateEnded r]) #
        map (\<lambda>xs. daemon_ops_code api cu sq gr xs []) (map (map OpRequest) rqss))"

text \<open>
  An exception that leaves the update thread ends the whole process; those of the main thread
  are caught in \<open>WorkProc\<close>, and those of a request in its handler.
\<close>

definition update_died :: "(daemon_lock, ('a, 'w) daemon, daemon_result list) pool \<Rightarrow> bool" where
  "update_died t \<longleftrightarrow> (case pl_threads t ! 1 of LFinish [UpdateEnded (Throw e)] \<Rightarrow> True | _ \<Rightarrow> False)"

definition worker_step ::
  "(daemon_lock, ('a, 'w) daemon, daemon_result list) pool \<Rightarrow> nat \<Rightarrow>
     (daemon_lock, ('a, 'w) daemon, daemon_result list) pool option" where
  "worker_step t i = (if update_died t then None else lock_step lock_recursive t i)"

lemma worker_step_step: "worker_step t i = Some t' \<Longrightarrow> lock_step lock_recursive t i = Some t'"
  by (simp add: worker_step_def split: if_splits)

lemma worker_run_run:
  "run_list worker_step s sched = Some t \<Longrightarrow> run_list (lock_step lock_recursive) s sched = Some t"
proof (induction sched arbitrary: s)
  case (Cons i sched)
  then show ?case by (auto split: option.splits dest: worker_step_step)
qed simp

lemma bindl_assoc: "bindl (bindl c f) g = bindl c (\<lambda>r. bindl (f r) g)"
  by (induction c) auto

lemma still_main:
  "db_frame api cu gr (both db saved) \<Longrightarrow> still (db_part db saved) (main_code api gr this)"
  unfolding main_code_def
  by (intro still_seql still_lcall still_ServiceStart still_Stop_daemon) (simp_all add: db_part_def)

lemma ordered_main:
  assumes "ptree_laws api" and "1 < m"
  shows "ordered lock_recursive lock_rank (daemon_inv api) 0 m
    (bindl (main_code api gr this) (\<lambda>r. LFinish (f r))) (\<lambda>_. 0)"
proof -
  have c: "in_order api 0 m 0 (lcall (\<lambda>s. (Ret (), s\<lparr>dm_flag := False\<rparr>)))"
    by (rule closed_lcall) (simp add: daemon_inv_def cfg_part_def)
  show ?thesis
    unfolding main_code_def seql_def bindl_assoc
    by (rule ordered_after_closed [OF c])
      (auto split: outcome.split simp: bindl_assoc
        intro!: ordered_after_closed [OF in_order_ServiceStart [OF assms(1)]] ordered_Stop_daemon assms(2) [unfolded One_nat_def])
qed

lemma ends_requests:
  assumes "ptree_laws api" and "object_laws api"
  shows "ends (\<lambda>rs. \<exists>as. rs = rs0 @ map Answered as \<and> list_all2 (answer_ok api) rqs as)
    (daemon_ops_code api cu sq gr (map OpRequest rqs) rs0)"
proof (induction rqs arbitrary: rs0)
  case (Cons rq rqs)
  have "ends (\<lambda>r. \<exists>a. r = Answered a \<and> answer_ok api rq a) (daemon_op_code api cu sq gr (OpRequest rq))"
    unfolding daemon_op_code.simps by (rule ends_bindl [OF ends_request [OF assms]]) simp
  then show ?case
    unfolding list.map daemon_ops_code.simps
  proof (rule ends_bindl)
    fix r assume "\<exists>a. r = Answered a \<and> answer_ok api rq a"
    then obtain a where a: "r = Answered a" "answer_ok api rq a" by blast
    show "ends (\<lambda>rs. \<exists>as. rs = rs0 @ map Answered as \<and> list_all2 (answer_ok api) (rq # rqs) as)
       (daemon_ops_code api cu sq gr (map OpRequest rqs) (rs0 @ [r]))"
    proof (rule ends_mono [OF Cons.IH])
      fix rs assume "\<exists>as. rs = (rs0 @ [r]) @ map Answered as \<and> list_all2 (answer_ok api) rqs as"
      then obtain as where "rs = (rs0 @ [r]) @ map Answered as" "list_all2 (answer_ok api) rqs as" by blast
      then show "\<exists>as. rs = rs0 @ map Answered as \<and> list_all2 (answer_ok api) (rq # rqs) as"
        using a by (intro exI [of _ "a # as"]) simp
    qed
  qed
qed simp


section \<open>A run\<close>

definition host_posix :: "demo_host posix" where
  "host_posix = \<lparr>px_stat = (\<lambda>p _. if p = ''.'' then Some 4096 else None), px_mkdir = (\<lambda>_ w. (False, w)),
     px_chmod = (\<lambda>_ w. w), px_remove = (\<lambda>_ w. (False, w)), px_open_read = (\<lambda>_ _. None)\<rparr>"

text \<open>A service with pages for a request and for one symbol of the update.\<close>

definition busy_host :: demo_host where
  "busy_host = (([(CURLE_OK, 200, quote_page), (CURLE_OK, 200, logo_page), (CURLE_OK, 200, quote_page),
     (CURLE_OK, 200, logo_page)], 0), empty_db, empty_db)"

definition host_start :: "(rtree Statics \<times> demo_host, Controller) prog" where
  "host_start = Controller_construct host_posix host_tree demo_lex demo_sql (\<lambda>_ w. w)"

definition host_pool :: "Controller \<Rightarrow> rtree Statics \<Rightarrow> demo_host \<Rightarrow>
    (daemon_lock, (rtree, demo_host) daemon, daemon_result list) pool" where
  "host_pool ctl st w0 = worker_pool host_tree demo_lex host_curl demo_sql host_grpc 1 (worker_state ctl st w0) [[demo_request]]"

text \<open>The service is being started, a request is handled, and then a symbol is updated.\<close>

definition host_sched :: "nat list" where
  "host_sched = replicate 5 0 @ replicate 14 2 @ replicate 40 1"

lemma host_objects: "object_laws host_tree"
proof -
  have u: "n \<notin> fst ` set xs \<Longrightarrow> upd_first n f e xs = xs @ [(n, f e)]" for n :: string and f and e :: rtree and xs
    by (induction xs) auto
  show ?thesis
    by (auto simp: object_laws_def host_tree_def rtree_api_def split_dots_free u)
qed

lemma host_start_frame: "start_frame host_posix host_tree (\<lambda>_ w. w) demo_content"
  by (simp add: start_frame_def host_posix_def host_tree_def rtree_api_def)


end
