(* ===== verification/Stop_Protocol.thy ===== *)
theory Stop_Protocol
  imports Controller
begin

text \<open>
  \<open>Controller::Stop\<close> against the loop of \<open>Controller::UpdatePrices\<close>: the atomic \<open>stopFlag\<close>, the
  mutex, and the condition variable on which the update thread waits. Each access to one of
  them is a step of its own. The theory shows what \<open>thread_ends\<close> stands for in \<open>Controller_Stop\<close>.
\<close>

section \<open>Where the threads are\<close>

text \<open>
  The update thread: before the loop, at its condition, with \<open>n\<close> more steps of updates to do,
  before the lock, in \<open>wait_for\<close> (looking at the flag with the mutex held, waiting without it,
  back from the wait, by time-out or not, and in need of the mutex), at the end of the
  block, and after the loop.
\<close>

datatype update_pc = UStart | UCheck | URound nat | ULock | UPred | UAsleep | URelock bool | UUnlock | UEnded

datatype stop_pc = SStore | SLock | SNotify | SUnlock | SJoin | SService | SDone

datatype stop_thread = Updater | Stopper

record stop_state =
  sp_flag :: bool
  sp_owner :: "stop_thread option"
  sp_upd :: update_pc
  sp_stop :: stop_pc

text \<open>\<open>notify_one\<close> wakes the update thread if it waits, and is lost otherwise.\<close>

definition notify :: "update_pc \<Rightarrow> update_pc" where
  "notify u = (if u = UAsleep then URelock False else u)"

section \<open>Steps\<close>

text \<open>
  \<open>timed\<close>: a wait can also end by itself, as it does at once in the program, whose time-out is
  \<open>std::chrono::seconds()\<close>, that is zero. Without a configured symbol the thread ends at once.
\<close>

inductive stop_step :: "bool \<Rightarrow> stop_state \<Rightarrow> stop_state \<Rightarrow> bool" for timed where
  u_no_symbols: "sp_upd s = UStart \<Longrightarrow> stop_step timed s (s\<lparr>sp_upd := UEnded\<rparr>)"
| u_symbols: "sp_upd s = UStart \<Longrightarrow> stop_step timed s (s\<lparr>sp_upd := UCheck\<rparr>)"
| u_check: "sp_upd s = UCheck \<Longrightarrow> sp_flag s \<Longrightarrow> stop_step timed s (s\<lparr>sp_upd := UEnded\<rparr>)"
| u_enter: "sp_upd s = UCheck \<Longrightarrow> \<not> sp_flag s \<Longrightarrow> stop_step timed s (s\<lparr>sp_upd := URound n\<rparr>)"
| u_round: "sp_upd s = URound (Suc n) \<Longrightarrow> stop_step timed s (s\<lparr>sp_upd := URound n\<rparr>)"
| u_round_end: "sp_upd s = URound 0 \<Longrightarrow> stop_step timed s (s\<lparr>sp_upd := ULock\<rparr>)"
| u_lock: "sp_upd s = ULock \<Longrightarrow> sp_owner s = None \<Longrightarrow>
    stop_step timed s (s\<lparr>sp_owner := Some Updater, sp_upd := UPred\<rparr>)"
| u_pred: "sp_upd s = UPred \<Longrightarrow> sp_flag s \<Longrightarrow> stop_step timed s (s\<lparr>sp_upd := UUnlock\<rparr>)"
| u_sleep: "sp_upd s = UPred \<Longrightarrow> \<not> sp_flag s \<Longrightarrow>
    stop_step timed s (s\<lparr>sp_owner := None, sp_upd := UAsleep\<rparr>)"
| u_timeout: "timed \<Longrightarrow> sp_upd s = UAsleep \<Longrightarrow> stop_step timed s (s\<lparr>sp_upd := URelock True\<rparr>)"
| u_spurious: "timed \<Longrightarrow> sp_upd s = UAsleep \<Longrightarrow> stop_step timed s (s\<lparr>sp_upd := URelock False\<rparr>)"
| u_relock: "sp_upd s = URelock b \<Longrightarrow> sp_owner s = None \<Longrightarrow>
    stop_step timed s (s\<lparr>sp_owner := Some Updater, sp_upd := (if b then UUnlock else UPred)\<rparr>)"
| u_unlock: "sp_upd s = UUnlock \<Longrightarrow> stop_step timed s (s\<lparr>sp_owner := None, sp_upd := UCheck\<rparr>)"
| s_store: "sp_stop s = SStore \<Longrightarrow> stop_step timed s (s\<lparr>sp_flag := True, sp_stop := SLock\<rparr>)"
| s_lock: "sp_stop s = SLock \<Longrightarrow> sp_owner s = None \<Longrightarrow>
    stop_step timed s (s\<lparr>sp_owner := Some Stopper, sp_stop := SNotify\<rparr>)"
| s_notify: "sp_stop s = SNotify \<Longrightarrow> stop_step timed s (s\<lparr>sp_upd := notify (sp_upd s), sp_stop := SUnlock\<rparr>)"
| s_unlock: "sp_stop s = SUnlock \<Longrightarrow> stop_step timed s (s\<lparr>sp_owner := None, sp_stop := SJoin\<rparr>)"
| s_join: "sp_stop s = SJoin \<Longrightarrow> sp_upd s = UEnded \<Longrightarrow> stop_step timed s (s\<lparr>sp_stop := SService\<rparr>)"
| s_service: "sp_stop s = SService \<Longrightarrow> stop_step timed s (s\<lparr>sp_stop := SDone\<rparr>)"

inductive_cases stop_stepE: "stop_step timed s s'"

text \<open>After \<open>Start\<close>: the flag is down and the thread has been made.\<close>

definition stop_start :: stop_state where
  "stop_start = \<lparr>sp_flag = False, sp_owner = None, sp_upd = UStart, sp_stop = SStore\<rparr>"

section \<open>Invariant\<close>

text \<open>
  Who holds the mutex is where the code holds it; the flag is up exactly when the stopper has
  stored it; after the notification the update thread is not asleep; and the stopper is past
  the join only when the update thread has ended.
\<close>

definition stop_inv :: "stop_state \<Rightarrow> bool" where
  "stop_inv s \<longleftrightarrow>
     (sp_owner s = Some Updater \<longleftrightarrow> sp_upd s \<in> {UPred, UUnlock}) \<and>
     (sp_owner s = Some Stopper \<longleftrightarrow> sp_stop s \<in> {SNotify, SUnlock}) \<and>
     (sp_flag s \<longleftrightarrow> sp_stop s \<noteq> SStore) \<and>
     (sp_stop s \<in> {SUnlock, SJoin, SService, SDone} \<longrightarrow> sp_upd s \<noteq> UAsleep) \<and>
     (sp_stop s \<in> {SService, SDone} \<longrightarrow> sp_upd s = UEnded)"

lemma stop_inv_start: "stop_inv stop_start"
  by (simp add: stop_inv_def stop_start_def)

lemma stop_inv_step: "stop_step timed s s' \<Longrightarrow> stop_inv s \<Longrightarrow> stop_inv s'"
  by (induction rule: stop_step.induct) (auto simp: stop_inv_def notify_def)

lemma stop_inv_reach: "(stop_step timed)\<^sup>*\<^sup>* s s' \<Longrightarrow> stop_inv s \<Longrightarrow> stop_inv s'"
  by (induction rule: rtranclp_induct) (auto intro: stop_inv_step)

section \<open>After the flag has been set\<close>

text \<open>How many steps each thread has left at most, once the flag is up.\<close>

fun update_left :: "update_pc \<Rightarrow> nat" where
  "update_left UEnded = 0"
| "update_left UCheck = 1"
| "update_left UStart = 2"
| "update_left UUnlock = 2"
| "update_left UPred = 3"
| "update_left (URelock b) = 4"
| "update_left ULock = 4"
| "update_left UAsleep = 5"
| "update_left (URound n) = n + 5"

fun stop_left :: "stop_pc \<Rightarrow> nat" where
  "stop_left SStore = 6"
| "stop_left SLock = 5"
| "stop_left SNotify = 4"
| "stop_left SUnlock = 3"
| "stop_left SJoin = 2"
| "stop_left SService = 1"
| "stop_left SDone = 0"

definition steps_left :: "stop_state \<Rightarrow> nat" where
  "steps_left s = update_left (sp_upd s) + stop_left (sp_stop s)"

lemma step_after_flag:
  "stop_step timed s s' \<Longrightarrow> sp_flag s \<Longrightarrow> sp_flag s' \<and> steps_left s' < steps_left s"
  by (induction rule: stop_step.induct) (auto simp: steps_left_def notify_def)

lemma runs_after_flag:
  "(stop_step timed ^^ n) s s' \<Longrightarrow> sp_flag s \<Longrightarrow> sp_flag s' \<and> n + steps_left s' \<le> steps_left s"
proof (induction n arbitrary: s')
  case (Suc n)
  then obtain s1 where s1: "(stop_step timed ^^ n) s s1" "stop_step timed s1 s'" by auto
  show ?case using Suc.IH [OF s1(1) Suc.prems(2)] step_after_flag [OF s1(2)] by simp
qed simp

text \<open>A thread that cannot take a step has ended, or waits for the mutex, a wake-up or the other one.\<close>

lemma updater_moves:
  assumes "sp_flag s" and "\<And>s'. \<not> stop_step timed s s'"
  shows "sp_upd s \<in> {UAsleep, UEnded} \<or> (sp_owner s \<noteq> None \<and> sp_upd s \<notin> {UPred, UUnlock})"
proof (cases "sp_upd s")
  case (URound n)
  then show ?thesis using assms(2) stop_step.intros(5,6) [where timed = timed] by (cases n) blast+
next
  case ULock
  then show ?thesis using assms(2) stop_step.intros(7) [where timed = timed] by auto
next
  case (URelock b)
  then show ?thesis using assms(2) stop_step.intros(12) [where timed = timed] by auto
qed (use assms stop_step.intros(2,3,8,13) [where timed = timed] in blast)+

lemma stopper_moves:
  assumes "\<And>s'. \<not> stop_step timed s s'"
  shows "sp_stop s = SDone \<or> (sp_stop s = SLock \<and> sp_owner s \<noteq> None) \<or> (sp_stop s = SJoin \<and> sp_upd s \<noteq> UEnded)"
  using assms stop_step.intros(14-19) [where timed = timed] by (cases "sp_stop s") blast+

lemma stop_progress:
  assumes "stop_inv s" and "sp_flag s" and "\<And>s'. \<not> stop_step timed s s'"
  shows "sp_stop s = SDone \<and> sp_upd s = UEnded \<and> sp_owner s = None"
proof -
  note u = updater_moves [OF assms(2,3)] and p = stopper_moves [OF assms(3)]
  have o: "sp_owner s = None"
    using u p assms(1) by (cases "sp_owner s"; cases "the (sp_owner s)") (auto simp: stop_inv_def)
  then show ?thesis using u p assms(1) by (auto simp: stop_inv_def)
qed

section \<open>Properties\<close>

text \<open>
  C16: A stop comes to its end. From every state the two threads reach in which the flag has been
  set, whatever the update thread is doing then, and also if a wait could not time out: no
  run has more than \<open>steps_left\<close> steps, no run ends before the update thread has left its loop,
  the join has returned and the service has been stopped, and a run that ends leaves the
  mutex free. So the notification is never lost, and \<open>Controller_Stop\<close> is right to take
  \<open>thread_ends\<close> to be true whenever the updates of one round come to an end.
\<close>

theorem stop_joins:
  assumes "(stop_step timed)\<^sup>*\<^sup>* stop_start s" and "sp_flag s" and "(stop_step timed ^^ n) s s'"
  shows "n \<le> steps_left s \<and>
    ((\<exists>s''. stop_step timed s' s'') \<or> (sp_stop s' = SDone \<and> sp_upd s' = UEnded \<and> sp_owner s' = None))"
proof
  show "n \<le> steps_left s" using runs_after_flag [OF assms(3,2)] by simp
  have "stop_inv s" by (rule stop_inv_reach [OF assms(1) stop_inv_start])
  then have "stop_inv s'" by (rule stop_inv_reach [OF relpowp_imp_rtranclp [OF assms(3)]])
  then show "(\<exists>s''. stop_step timed s' s'') \<or> (sp_stop s' = SDone \<and> sp_upd s' = UEnded \<and> sp_owner s' = None)"
    using stop_progress [of s' timed] runs_after_flag [OF assms(3,2)] by blast
qed

text \<open>The update thread is asleep when the flag is set, and the wait has no time-out.\<close>

definition asleep_stopped :: stop_state where
  "asleep_stopped = \<lparr>sp_flag = True, sp_owner = None, sp_upd = UAsleep, sp_stop = SLock\<rparr>"

lemma asleep_reached: "(stop_step False)\<^sup>*\<^sup>* stop_start asleep_stopped"
proof -
  let ?s = "\<lambda>f ow u p. \<lparr>sp_flag = f, sp_owner = ow, sp_upd = u, sp_stop = p\<rparr>"
  have "stop_step False stop_start (?s False None UCheck SStore)"
    using u_symbols [of stop_start False] by (simp add: stop_start_def)
  moreover have "stop_step False (?s False None UCheck SStore) (?s False None (URound 0) SStore)"
    using u_enter [of "?s False None UCheck SStore" False 0] by simp
  moreover have "stop_step False (?s False None (URound 0) SStore) (?s False None ULock SStore)"
    using u_round_end [of "?s False None (URound 0) SStore" False] by simp
  moreover have "stop_step False (?s False None ULock SStore) (?s False (Some Updater) UPred SStore)"
    using u_lock [of "?s False None ULock SStore" False] by simp
  moreover have "stop_step False (?s False (Some Updater) UPred SStore) (?s False None UAsleep SStore)"
    using u_sleep [of "?s False (Some Updater) UPred SStore" False] by simp
  moreover have "stop_step False (?s False None UAsleep SStore) asleep_stopped"
    using s_store [of "?s False None UAsleep SStore" False] by (simp add: asleep_stopped_def)
  ultimately show ?thesis by (meson rtranclp.rtrancl_refl rtranclp.rtrancl_into_rtrancl)
qed

theorem stop_joins_witness:
  "steps_left asleep_stopped = 10 \<and> (\<exists>s''. stop_step False asleep_stopped s'')"
proof -
  have f: "sp_flag asleep_stopped" and u: "sp_upd asleep_stopped \<noteq> UEnded" by (simp_all add: asleep_stopped_def)
  have "(stop_step False ^^ 0) asleep_stopped asleep_stopped" by simp
  from stop_joins [OF asleep_reached f this] u
  have "\<exists>s''. stop_step False asleep_stopped s''" by blast
  moreover have "steps_left asleep_stopped = 10" by (simp add: asleep_stopped_def steps_left_def)
  ultimately show ?thesis by blast
qed

end
