(* ===== verification/Sql_Types.thy ===== *)
theory Sql_Types
  imports Table_Threads
begin

text \<open>
  The types of the statements: which parameters a command has, which column each one stands for,
  and the type that the \<open>CREATE TABLE\<close> command gives the column, all read off the texts of the
  commands. An interface that refuses statements with a wrong type, a missing, an unknown or
  a repeated parameter cannot be told apart from SQLiteCpp by any operation of the tables.
\<close>

section \<open>Tokens\<close>

definition flush :: "string \<Rightarrow> string list" where
  "flush acc = (if acc = [] then [] else [acc])"

fun tokens_from :: "string \<Rightarrow> string \<Rightarrow> string list" where
  "tokens_from acc [] = flush acc"
| "tokens_from acc (c # cs) =
     (if c = CHR '' '' then flush acc @ tokens_from [] cs
      else if c \<in> set ''(),=;'' then flush acc @ [c] # tokens_from [] cs
      else tokens_from (acc @ [c]) cs)"

definition tokens :: "string \<Rightarrow> string list" where
  "tokens cmd = tokens_from [] cmd"

fun split_commas :: "string list \<Rightarrow> string list list" where
  "split_commas [] = [[]]"
| "split_commas (t # ts) =
     (if t = '','' then [] # split_commas ts
      else (case split_commas ts of [] \<Rightarrow> [[t]] | p # ps \<Rightarrow> (t # p) # ps))"

section \<open>Columns\<close>

datatype sql_type = TText | TInteger | TReal

definition type_of_name :: "string \<Rightarrow> sql_type option" where
  "type_of_name s =
     (if s = ''TEXT'' then Some TText
      else if s \<in> {''INTEGER'', ''INT''} then Some TInteger
      else if s = ''REAL'' then Some TReal else None)"

text \<open>The columns of a \<open>CREATE TABLE\<close> command, and the table constraints left out.\<close>

fun column_of :: "string list \<Rightarrow> (string \<times> sql_type) list" where
  "column_of (name # ty # ts) = (case type_of_name ty of None \<Rightarrow> [] | Some t \<Rightarrow> [(name, t)])"
| "column_of _ = []"

definition columns_of :: "string \<Rightarrow> (string \<times> sql_type) list" where
  "columns_of cmd = concat (map column_of (split_commas (drop 1 (dropWhile (\<lambda>t. t \<noteq> ''('') (tokens cmd)))))"

definition table_columns :: "string \<Rightarrow> (string \<times> sql_type) list" where
  "table_columns name =
     (if name = companies_name then columns_of companies_create_cmd
      else if name = prices_name then columns_of prices_create_cmd
      else if name = version_name then columns_of version_create_cmd else [])"

section \<open>Parameters\<close>

text \<open>The table: what comes after \<open>INTO\<close>, \<open>UPDATE\<close> or \<open>FROM\<close>, with the tokens that follow.\<close>

fun after_table_word :: "string list \<Rightarrow> (string \<times> string list) option" where
  "after_table_word (w # t # ts) =
     (if w \<in> {''INTO'', ''UPDATE'', ''FROM''} then Some (t, ts) else after_table_word (t # ts))"
| "after_table_word _ = None"

definition is_param :: "string \<Rightarrow> bool" where
  "is_param t \<longleftrightarrow> (case t of [] \<Rightarrow> False | c # _ \<Rightarrow> c = CHR '':'')"

text \<open>\<open>column = :parameter\<close>\<close>

fun equations :: "string list \<Rightarrow> (string \<times> string) list" where
  "equations (c # e # p # ts) = (if e = ''='' \<and> is_param p then [(p, c)] else []) @ equations (e # p # ts)"
| "equations _ = []"

text \<open>\<open>(column, ..) VALUES (:parameter, ..)\<close>\<close>

definition list_items :: "string list \<Rightarrow> string list" where
  "list_items ts = filter (\<lambda>t. t \<noteq> '','') (takeWhile (\<lambda>t. t \<noteq> '')'') (drop 1 (dropWhile (\<lambda>t. t \<noteq> ''('') ts)))"

definition insert_params :: "string list \<Rightarrow> (string \<times> string) list" where
  "insert_params ts = zip (list_items (dropWhile (\<lambda>t. t \<noteq> ''VALUES'') ts)) (list_items ts)"

definition stmt_params :: "string \<Rightarrow> (string \<times> string) list" where
  "stmt_params cmd =
     (let ts = tokens cmd in if ts \<noteq> [] \<and> hd ts = ''INSERT'' then insert_params ts else equations ts)"

text \<open>The type each parameter must have.\<close>

definition param_types :: "string \<Rightarrow> (string \<times> sql_type option) list" where
  "param_types cmd =
     (case after_table_word (tokens cmd) of
        None \<Rightarrow> []
      | Some (t, _) \<Rightarrow> map (\<lambda>(p, c). (p, map_of (table_columns t) c)) (stmt_params cmd))"

fun value_type :: "sql_value \<Rightarrow> sql_type option" where
  "value_type SqlNull = None"
| "value_type (SqlInt i) = Some TInteger"
| "value_type (SqlReal x) = Some TReal"
| "value_type (SqlText s) = Some TText"

text \<open>Every parameter is bound, once, with a value of the type of its column, and nothing else is.\<close>

definition typed_stmt :: "string \<Rightarrow> sql_binds \<Rightarrow> bool" where
  "typed_stmt cmd bs \<longleftrightarrow>
     map (\<lambda>(p, v). (p, value_type v)) bs = param_types cmd \<and> distinct (map fst bs) \<and>
     list_all (\<lambda>(p, v). value_type v \<noteq> None) bs"

section \<open>An interface that checks\<close>

definition type_error :: exn where
  "type_error = SqliteError ''datatype mismatch''"

definition typed :: "('w, 'x) sql_api_scheme \<Rightarrow> ('w, 'x) sql_api_scheme" where
  "typed sq = sq\<lparr>
     sq_bind := (\<lambda>cmd name. if name \<in> fst ` set (param_types cmd) then sq_bind sq cmd name else Some type_error),
     sq_exec_stmt := (\<lambda>cmd bs w. if typed_stmt cmd bs then sq_exec_stmt sq cmd bs w else (Some type_error, w)),
     sq_rows := (\<lambda>cmd bs w. if typed_stmt cmd bs then sq_rows sq cmd bs w else ([], Some type_error))\<rparr>"

section \<open>The statements of the tables\<close>

lemma columns:
  "table_columns companies_name = [(''id'', TInteger), (''uuid'', TText), (''full_name'', TText), (''logo'', TText)]"
  "table_columns prices_name =
     [(''id'', TInteger), (''price'', TReal), (''timestamp'', TInteger), (''company_rowid'', TInteger)]"
  by code_simp+

lemma add_params:
  "param_types companies_add_cmd =
     [('':uuid'', Some TText), ('':name'', Some TText), ('':logo'', Some TText)]"
  "param_types prices_add_cmd =
     [('':rowid'', Some TInteger), ('':price'', Some TReal), ('':time'', Some TInteger)]"
  by code_simp+

lemma query_params:
  "param_types (field_query companies_name (companies_fields f) (companies_fields C_ID)) =
     [('':compareValue'', Some TInteger)]"
  by (cases f; simp only:; code_simp)

lemma update_params:
  "param_types (update_query companies_name (companies_fields C_LOGO) (companies_fields C_ID)) =
     [('':newValue'', Some TText), ('':searchValue'', Some TInteger)]"
  "param_types (remove_query companies_name (companies_fields C_ID)) = [('':searchValue'', Some TInteger)]"
  "param_types (remove_query prices_name (prices_fields P_COMPANY_ROWID)) = [('':searchValue'', Some TInteger)]"
  by code_simp+

lemmas all_params = add_params query_params update_params

lemma typed_same:
  "sq_prepare (typed sq) = sq_prepare sq" "sq_exec (typed sq) = sq_exec sq"
  "sq_exec_and_get (typed sq) = sq_exec_and_get sq" "sq_table_exists (typed sq) = sq_table_exists sq"
  "sq_begin (typed sq) = sq_begin sq" "sq_commit (typed sq) = sq_commit sq" "sq_rollback (typed sq) = sq_rollback sq"
  "cl_string (typed sq) = cl_string sq" "cl_int (typed sq) = cl_int sq" "cl_int64 (typed sq) = cl_int64 sq"
  "cl_uint (typed sq) = cl_uint sq"
  by (simp_all add: typed_def)

lemma typed_transaction: "run_transaction (typed sq) body = run_transaction sq body"
  by (rule ext) (simp only: run_transaction_def typed_same)

lemma typed_RunTransaction: "RunTransaction (typed sq) cmd = RunTransaction sq cmd"
  by (simp add: RunTransaction_def typed_transaction typed_same)

lemma typed_get: "exec_and_get (typed sq) cmd = exec_and_get sq cmd"
  by (rule ext) (simp add: exec_and_get_def typed_same)

lemma typed_bind: "name \<in> fst ` set (param_types cmd) \<Longrightarrow> sq_bind (typed sq) cmd name = sq_bind sq cmd name"
  by (simp add: typed_def)

lemma typed_bind_all:
  "\<forall>b \<in> set bs. fst b \<in> fst ` set (param_types cmd) \<Longrightarrow> bind_all (typed sq) cmd bs = bind_all sq cmd bs"
proof (induction bs)
  case (Cons b bs)
  then show ?case by (cases b) (simp add: typed_bind cong: option.case_cong)
qed simp

text \<open>A statement with the right types is the same statement.\<close>

lemma typed_statement:
  assumes "typed_stmt cmd bs"
  shows "make_statement (typed sq) cmd bs = make_statement sq cmd bs"
    and "RunTransaction_stmt (typed sq) cmd bs = RunTransaction_stmt sq cmd bs"
    and "sq_rows (typed sq) cmd bs = sq_rows sq cmd bs"
proof -
  have "map fst (param_types cmd) = map fst bs"
    using assms by (auto simp: typed_stmt_def comp_def case_prod_beta dest!: arg_cong [where f = "map fst"])
  then have "fst ` set (param_types cmd) = fst ` set bs" by (metis set_map)
  then have "bind_all (typed sq) cmd bs = bind_all sq cmd bs" by (intro typed_bind_all) simp
  then show "make_statement (typed sq) cmd bs = make_statement sq cmd bs"
    by (intro ext) (simp add: make_statement_def typed_same split: option.split)
  have "sq_exec_stmt (typed sq) cmd bs = sq_exec_stmt sq cmd bs" using assms by (intro ext) (simp add: typed_def)
  then show "RunTransaction_stmt (typed sq) cmd bs = RunTransaction_stmt sq cmd bs"
    unfolding RunTransaction_stmt_def typed_transaction by simp
  show "sq_rows (typed sq) cmd bs = sq_rows sq cmd bs" using assms by (intro ext) (simp add: typed_def)
qed

lemma typed_UpdateField:
  "typed_stmt (update_query name f g) [('':newValue'', v), ('':searchValue'', u)] \<Longrightarrow>
    UpdateField (typed sq) name f v g u = UpdateField sq name f v g u"
  by (simp add: UpdateField_def Let_def typed_statement)

lemma typed_RemoveRows:
  "typed_stmt (remove_query name g) [('':searchValue'', u)] \<Longrightarrow> RemoveRows (typed sq) name g u = RemoveRows sq name g u"
  by (simp add: RemoveRows_def Let_def typed_statement)

lemma typed_GetFieldValue:
  assumes "typed_stmt (field_query name f g) [('':compareValue'', v)]"
  shows "GetFieldValue (typed sq) gc name f g v sh = GetFieldValue sq gc name f g v sh"
proof -
  let ?q = "(field_query name f g, [('':compareValue'', v)])"
  have c: "CreateGetFieldQuery (typed sq) name f g v = CreateGetFieldQuery sq name f g v"
    using assms by (simp add: CreateGetFieldQuery_def typed_statement)
  have q: "CreateGetFieldQuery sq name f g v w = (Ret q, w') \<Longrightarrow> q = ?q" for w q w'
    by (auto simp: CreateGetFieldQuery_def Let_def thenp_def bindp_def split: prod.splits outcome.splits)
  have "single_row (typed sq) gc g sh ?q = single_row sq gc g sh ?q"
    by (rule ext) (simp add: single_row_def typed_statement [OF assms])
  then show ?thesis
    unfolding GetFieldValue_single_row c using q
    by (intro ext) (auto simp: bindp_def split: prod.split outcome.split)
qed

lemma stmts_typed:
  "typed_stmt companies_add_cmd [('':uuid'', SqlText u), ('':name'', SqlText n), ('':logo'', SqlText l)]"
  "typed_stmt prices_add_cmd [('':rowid'', SqlInt i), ('':price'', SqlReal p), ('':time'', SqlInt t)]"
  "typed_stmt (field_query companies_name (companies_fields f) (companies_fields C_ID)) [('':compareValue'', SqlInt i)]"
  "typed_stmt (update_query companies_name (companies_fields C_LOGO) (companies_fields C_ID))
     [('':newValue'', SqlText l), ('':searchValue'', SqlInt i)]"
  "typed_stmt (remove_query companies_name (companies_fields C_ID)) [('':searchValue'', SqlInt i)]"
  "typed_stmt (remove_query prices_name (prices_fields P_COMPANY_ROWID)) [('':searchValue'', SqlInt i)]"
  by (simp_all add: typed_stmt_def all_params del: companies_fields.simps prices_fields.simps)

text \<open>The check is not void: a price bound as an integer and a missing parameter are refused.\<close>

lemma wrong_types_refused:
  "\<not> typed_stmt prices_add_cmd [('':rowid'', SqlInt i), ('':price'', SqlInt p), ('':time'', SqlInt t)]"
  "\<not> typed_stmt prices_add_cmd [('':rowid'', SqlInt i), ('':price'', SqlReal q)]"
  by (simp_all add: typed_stmt_def add_params)

section \<open>Properties\<close>

text \<open>
  C13: The statements are well typed. Each operation of the tables, the prices' \<open>Add\<close> included, does
  the same with the checking interface as with SQLiteCpp itself, in every state and with every
  argument: the statements it prepares bind each parameter of their command exactly once, bind
  no other, and bind values of the types the \<open>CREATE TABLE\<close> commands give the columns: the price
  as a real number, row ids and times as integers, and names and logos as texts.
\<close>

theorem statements_well_typed:
  "table_sem (typed sq) x = table_sem sq x \<and> Prices_Add (typed sq) i p t = Prices_Add sq i p t"
proof
  show "table_sem (typed sq) x = table_sem sq x"
    by (cases x)
      (simp_all add: IsExist_def [abs_def] typed_same Drop_def typed_RunTransaction Companies_Add_def Let_def
        typed_statement stmts_typed GetRowID_def typed_get by_rowid_def typed_GetFieldValue SetLogoByID_def
        typed_UpdateField IsUUIDPresent_def IsCellPresent_def IsIDPresent_def RemoveByRowID_def typed_RemoveRows
        RemoveAllByCompanyRowID_def DBVersion_Create_def DBVersion_Create_table_def IsVersionPresent_def
        DBVersion_Get_def UpdateDBVersion_def del: companies_fields.simps prices_fields.simps cong: if_cong)
  show "Prices_Add (typed sq) i p t = Prices_Add sq i p t"
    by (simp add: Prices_Add_def Let_def typed_statement stmts_typed)
qed

end
