(* ===== verification/Db_Objects.thy ===== *)
theory Db_Objects
  imports Db_Schema
begin

text \<open>
  The objects behind \<open>Db_Manager\<close> and \<open>Itable\<close>: the connection, which the manager and the tables
  own together through \<open>std::shared_ptr\<close>, the table objects, and the manager. What matters is how
  many owners the connection has, and when it is closed.
\<close>

section \<open>Shared ownership\<close>

text \<open>A connection with the number of its owners, and how often it has been closed.\<close>

record connection =
  cn_owners :: nat
  cn_closed :: nat

type_synonym connections = "connection list"

type_synonym db_ptr = "nat option"

definition make_shared_db :: "connections \<Rightarrow> db_ptr \<times> connections" where
  "make_shared_db h = (Some (length h), h @ [\<lparr>cn_owners = 1, cn_closed = 0\<rparr>])"

definition copy_ptr :: "db_ptr \<Rightarrow> connections \<Rightarrow> connections" where
  "copy_ptr p h = (case p of None \<Rightarrow> h | Some a \<Rightarrow> h[a := (h ! a)\<lparr>cn_owners := Suc (cn_owners (h ! a))\<rparr>])"

text \<open>The last owner that goes closes the connection.\<close>

definition drop_ptr :: "db_ptr \<Rightarrow> connections \<Rightarrow> connections" where
  "drop_ptr p h =
     (case p of
        None \<Rightarrow> h
      | Some a \<Rightarrow>
          (let n = cn_owners (h ! a) - 1
           in h[a := \<lparr>cn_owners = n, cn_closed = (if n = 0 then Suc (cn_closed (h ! a)) else cn_closed (h ! a))\<rparr>]))"

section \<open>Tables\<close>

record ITable =
  tb_name :: string
  tb_db :: db_ptr

text \<open>The constructor copies its argument into the member; whoever passes a pointer by value makes a copy of it.\<close>

definition new_ITable :: "string \<Rightarrow> db_ptr \<Rightarrow> connections \<Rightarrow> ITable \<times> connections" where
  "new_ITable tableName dbConnector h = (\<lparr>tb_name = tableName, tb_db = dbConnector\<rparr>, copy_ptr dbConnector h)"

definition destroy_ITable :: "ITable \<Rightarrow> connections \<Rightarrow> connections" where
  "destroy_ITable t h = drop_ptr (tb_db t) h"

definition GetName :: "ITable \<Rightarrow> string" where
  "GetName t = tb_name t"

definition GetDB :: "ITable \<Rightarrow> connections \<Rightarrow> db_ptr \<times> connections" where
  "GetDB t h = (tb_db t, copy_ptr (tb_db t) h)"

text \<open>The constructor of a derived table, which hands its own parameter on to that of \<open>ITable\<close>.\<close>

definition new_table :: "string \<Rightarrow> db_ptr \<Rightarrow> connections \<Rightarrow> ITable \<times> connections" where
  "new_table tableName dbConnector h =
     (case new_ITable tableName dbConnector (copy_ptr dbConnector h) of
        (t, h1) \<Rightarrow> (t, drop_ptr dbConnector h1))"

definition new_DBVersion :: "db_ptr \<Rightarrow> connections \<Rightarrow> ITable \<times> connections" where
  "new_DBVersion dbConnector h = new_table version_name dbConnector h"

definition new_Companies :: "db_ptr \<Rightarrow> connections \<Rightarrow> ITable \<times> connections" where
  "new_Companies dbConnector h = new_table companies_name dbConnector h"

definition new_Prices :: "db_ptr \<Rightarrow> connections \<Rightarrow> ITable \<times> connections" where
  "new_Prices dbConnector h = new_table prices_name dbConnector h"

text \<open>A constructor called with a pointer by value: the argument is a copy that goes after the call.\<close>

definition by_value :: "(db_ptr \<Rightarrow> connections \<Rightarrow> 't \<times> connections) \<Rightarrow> db_ptr \<Rightarrow> connections \<Rightarrow> 't \<times> connections" where
  "by_value f p h = (case f p (copy_ptr p h) of (t, h1) \<Rightarrow> (t, drop_ptr p h1))"

section \<open>The manager\<close>

record Manager =
  mg_db :: db_ptr
  mg_version :: ITable
  mg_companies :: ITable
  mg_prices :: ITable
  mg_dbVersion :: size_t

text \<open>The members go in the reverse order of their declarations.\<close>

definition destroy_Manager :: "Manager \<Rightarrow> connections \<Rightarrow> connections" where
  "destroy_Manager m h =
     drop_ptr (mg_db m) (destroy_ITable (mg_version m) (destroy_ITable (mg_companies m) (destroy_ITable (mg_prices m) h)))"

definition Manager_members :: "connections \<Rightarrow> Manager \<times> connections" where
  "Manager_members h =
     (case make_shared_db h of (db, h0) \<Rightarrow>
      (case by_value new_DBVersion db h0 of (tVersion, h1) \<Rightarrow>
      (case by_value new_Companies db h1 of (tCompanies, h2) \<Rightarrow>
      (case by_value new_Prices db h2 of (tPrices, h3) \<Rightarrow>
        (\<lparr>mg_db = db, mg_version = tVersion, mg_companies = tCompanies, mg_prices = tPrices,
          mg_dbVersion = dbVersion\<rparr>, h3)))))"

text \<open>When the body throws, the members that have been built are destroyed.\<close>

definition construct_Manager ::
  "('a, 'w, 'x) ptree_api_scheme \<Rightarrow> ('w, 'y) sql_api_scheme \<Rightarrow> (connections \<times> ('a, 'w) cfg, Manager) prog" where
  "construct_Manager api sq s =
     (case GetDBPath api (snd s) of
        (Ret path, (c, w)) \<Rightarrow>
          (case sq_open sq path w of
             (Some e, w') \<Rightarrow> (Throw e, (fst s, (c, w')))
           | (None, w') \<Rightarrow>
               (case Manager_members (fst s) of (m, h) \<Rightarrow>
               (case thenp (CreateAndInitAllTables sq) (UpgradeVersion sq) w' of
                  (Ret _, w'') \<Rightarrow> (Ret m, (h, (c, w'')))
                | (Throw e, w'') \<Rightarrow> (Throw e, (destroy_Manager m h, (c, w'')))
                | (Hang, w'') \<Rightarrow> (Hang, (h, (c, w''))))))
      | (Throw e, cw) \<Rightarrow> (Throw e, (fst s, cw))
      | (Hang, cw) \<Rightarrow> (Hang, (fst s, cw)))"

definition GetCompanies :: "Manager \<Rightarrow> ITable" where
  "GetCompanies m = mg_companies m"

definition GetPrices :: "Manager \<Rightarrow> ITable" where
  "GetPrices m = mg_prices m"

definition GetDBVersion :: "Manager \<Rightarrow> size_t" where
  "GetDBVersion m = mg_dbVersion m"

definition close_Manager :: "Manager \<Rightarrow> connections \<Rightarrow> Manager \<times> connections" where
  "close_Manager m h =
     (if mg_db m \<noteq> None then (m\<lparr>mg_db := None\<rparr>, drop_ptr (mg_db m) h) else (m, h))"

section \<open>Lemmas\<close>

text \<open>What the pointer operations do to the last connection.\<close>

lemma last_connection [simp]:
  "copy_ptr (Some (length h)) (h @ [\<lparr>cn_owners = n, cn_closed = k\<rparr>]) = h @ [\<lparr>cn_owners = Suc n, cn_closed = k\<rparr>]"
  "drop_ptr (Some (length h)) (h @ [\<lparr>cn_owners = n, cn_closed = k\<rparr>]) =
     h @ [\<lparr>cn_owners = n - 1, cn_closed = (if n - 1 = 0 then Suc k else k)\<rparr>]"
  "drop_ptr None h = h"
  by (simp_all add: copy_ptr_def drop_ptr_def Let_def)

text \<open>However often the pointer is copied on the way, a table ends up with one share.\<close>

lemma table_share [simp]:
  assumes "0 < n"
  shows "by_value (new_table name) (Some (length h)) (h @ [\<lparr>cn_owners = n, cn_closed = k\<rparr>]) =
    (\<lparr>tb_name = name, tb_db = Some (length h)\<rparr>, h @ [\<lparr>cn_owners = Suc n, cn_closed = k\<rparr>])"
  using assms by (simp add: by_value_def new_table_def new_ITable_def)

lemma Manager_members_built:
  "Manager_members h =
     (\<lparr>mg_db = Some (length h), mg_version = \<lparr>tb_name = version_name, tb_db = Some (length h)\<rparr>,
       mg_companies = \<lparr>tb_name = companies_name, tb_db = Some (length h)\<rparr>,
       mg_prices = \<lparr>tb_name = prices_name, tb_db = Some (length h)\<rparr>, mg_dbVersion = dbVersion\<rparr>,
      h @ [\<lparr>cn_owners = 4, cn_closed = 0\<rparr>])"
  by (simp add: Manager_members_def make_shared_db_def new_DBVersion_def [abs_def] new_Companies_def [abs_def]
      new_Prices_def [abs_def])

lemma destroy_built:
  assumes "Manager_members h = (m, h')"
  shows "destroy_Manager m h' = h @ [\<lparr>cn_owners = 0, cn_closed = 1\<rparr>]"
    and "close_Manager m h' = (m\<lparr>mg_db := None\<rparr>, h @ [\<lparr>cn_owners = 3, cn_closed = 0\<rparr>])"
    and "destroy_Manager (m\<lparr>mg_db := None\<rparr>) (h @ [\<lparr>cn_owners = 3, cn_closed = 0\<rparr>]) =
      h @ [\<lparr>cn_owners = 0, cn_closed = 1\<rparr>]"
  using assms unfolding Manager_members_built
  by (auto simp: destroy_Manager_def close_Manager_def destroy_ITable_def)

section \<open>Properties\<close>

text \<open>The manager as the record of \<open>Db_Manager\<close>.\<close>

definition manager_abs :: "Manager \<Rightarrow> DBManager" where
  "manager_abs m =
     \<lparr>db_open = (mg_db m \<noteq> None),
      tables_open = (tb_db (mg_version m) \<noteq> None \<and> tb_db (mg_companies m) \<noteq> None \<and> tb_db (mg_prices m) \<noteq> None)\<rparr>"

text \<open>
  C27: The life of the connection. Seen from outside, the manager with its objects is the one of
  \<open>Db_Manager\<close>. A constructor that returns leaves the connection open with four owners; when it
  throws after the connection was opened, the connection has been closed, once, and has no owner
  left. \<open>CloseDB\<close> does not close the database: the three tables keep it open, however often
  it is called. The destruction of the manager closes it, once, with or without a \<open>CloseDB\<close>
  before.
\<close>

theorem connection_lifetime:
  assumes "construct_Manager api sq (h, s) = (r, (h', s'))"
  shows "new_DBManager api sq s = (case r of Ret m \<Rightarrow> Ret (manager_abs m) | Throw e \<Rightarrow> Throw e | Hang \<Rightarrow> Hang, s') \<and>
    (\<forall>m. r = Ret m \<longrightarrow>
       h' = h @ [\<lparr>cn_owners = 4, cn_closed = 0\<rparr>] \<and>
       destroy_Manager m h' = h @ [\<lparr>cn_owners = 0, cn_closed = 1\<rparr>] \<and>
       manager_abs (fst (close_Manager m h')) = CloseDB (manager_abs m) \<and>
       snd (close_Manager m h') = h @ [\<lparr>cn_owners = 3, cn_closed = 0\<rparr>] \<and>
       (case close_Manager m h' of (m1, h1) \<Rightarrow>
          close_Manager m1 h1 = (m1, h1) \<and> destroy_Manager m1 h1 = h @ [\<lparr>cn_owners = 0, cn_closed = 1\<rparr>])) \<and>
    (\<forall>e. r = Throw e \<longrightarrow> h' = h \<or> h' = h @ [\<lparr>cn_owners = 0, cn_closed = 1\<rparr>])"
proof -
  obtain m0 h0 where m0: "Manager_members h = (m0, h0)" by fastforce
  have a: "h0 = h @ [\<lparr>cn_owners = 4, cn_closed = 0\<rparr>]" "mg_db m0 = Some (length h)"
    "manager_abs m0 = \<lparr>db_open = True, tables_open = True\<rparr>"
    "manager_abs (m0\<lparr>mg_db := None\<rparr>) = CloseDB (manager_abs m0)"
    using m0 by (auto simp: Manager_members_built manager_abs_def CloseDB_def)
  have r: "r = Ret m \<Longrightarrow> m = m0 \<and> h' = h0" for m
    using assms m0 by (auto simp: construct_Manager_def split: prod.splits outcome.splits option.splits)
  show ?thesis
  proof (intro conjI allI impI)
    show "new_DBManager api sq s = (case r of Ret m \<Rightarrow> Ret (manager_abs m) | Throw e \<Rightarrow> Throw e | Hang \<Rightarrow> Hang, s')"
      using assms m0 a(3)
      by (auto simp: construct_Manager_def new_DBManager_def bindp_def split: prod.splits outcome.splits option.splits)
    fix e assume "r = Throw e"
    then show "h' = h \<or> h' = h @ [\<lparr>cn_owners = 0, cn_closed = 1\<rparr>]"
      using assms m0 destroy_built(1) [OF m0]
      by (auto simp: construct_Manager_def split: prod.splits outcome.splits option.splits)
  next
    fix m assume "r = Ret m"
    then have m: "m = m0" "h' = h0" using r by simp_all
    note d = destroy_built [OF m0]
    show "h' = h @ [\<lparr>cn_owners = 4, cn_closed = 0\<rparr>]" using a m by simp
    show "destroy_Manager m h' = h @ [\<lparr>cn_owners = 0, cn_closed = 1\<rparr>]" using d m by simp
    show "manager_abs (fst (close_Manager m h')) = CloseDB (manager_abs m)" using d(2) a(4) m by simp
    show "snd (close_Manager m h') = h @ [\<lparr>cn_owners = 3, cn_closed = 0\<rparr>]" using d(2) m by simp
    show "case close_Manager m h' of (m1, h1) \<Rightarrow>
        close_Manager m1 h1 = (m1, h1) \<and> destroy_Manager m1 h1 = h @ [\<lparr>cn_owners = 0, cn_closed = 1\<rparr>]"
      using d(2,3) m by (simp add: close_Manager_def)
  qed
qed

theorem connection_lifetime_witness:
  "\<exists>m h. fst (construct_Manager schema_settings schema_sql ([], (fresh_cfg, (old_schema, old_schema)))) = Ret m \<and>
     snd (close_Manager m h) = [\<lparr>cn_owners = 3, cn_closed = 0\<rparr>]"
proof -
  let ?run = "construct_Manager schema_settings schema_sql ([], (fresh_cfg, (old_schema, old_schema)))"
  obtain r h s where c: "?run = (r, (h, s))" by (metis prod.exhaust)
  have "fst (new_DBManager schema_settings schema_sql (fresh_cfg, (old_schema, old_schema))) =
      Ret \<lparr>db_open = True, tables_open = True\<rparr>" by code_simp
  then obtain m where m: "r = Ret m" using connection_lifetime [OF c] by (auto split: outcome.splits)
  show ?thesis using connection_lifetime [OF c] m c by auto
qed

end
