(* ===== verification/Curl_Global.thy ===== *)
theory Curl_Global
  imports Http_Transaction
begin

text \<open>
  The global state of libcurl: the constructor of \<open>HTTPTransaction\<close> holds a static object whose
  constructor and destructor are \<open>curl_global_init\<close> and \<open>curl_global_cleanup\<close>. It stands in the
  body of the constructor, after the members, one of which is made by \<open>curl_easy_init\<close>.
\<close>

record curl_global =
  gl_static :: bool
  gl_inits :: nat
  gl_cleanups :: nat
  gl_early :: nat

text \<open>Nothing done yet; \<open>gl_early\<close> counts the \<open>curl_easy_init\<close> calls made before any \<open>curl_global_init\<close>.\<close>

definition curl_unused :: curl_global where
  "curl_unused = \<lparr>gl_static = False, gl_inits = 0, gl_cleanups = 0, gl_early = 0\<rparr>"

definition GlobalCurlInit :: "curl_global \<Rightarrow> curl_global" where
  "GlobalCurlInit g = (if gl_static g then g else g\<lparr>gl_static := True, gl_inits := Suc (gl_inits g)\<rparr>)"

definition GlobalCurlInit_destroy :: "curl_global \<Rightarrow> curl_global" where
  "GlobalCurlInit_destroy g = (if gl_static g then g\<lparr>gl_static := False, gl_cleanups := Suc (gl_cleanups g)\<rparr> else g)"

definition easy_init :: "curl_global \<Rightarrow> curl_global" where
  "easy_init g = (if gl_inits g = 0 then g\<lparr>gl_early := Suc (gl_early g)\<rparr> else g)"

text \<open>The whole constructor; its body is reached only when the members could be made.\<close>

definition construct_HTTPTransaction ::
  "('w, 'x) curl_api_scheme \<Rightarrow> HTTPTransactionData \<Rightarrow> (curl_global \<times> 'w, HTTPTransaction) prog" where
  "construct_HTTPTransaction cu td s =
     (case new_HTTPTransaction cu td (snd s) of
        (Ret t, w) \<Rightarrow> (Ret t, (GlobalCurlInit (easy_init (fst s)), w))
      | (r, w) \<Rightarrow> (r, (easy_init (fst s), w)))"

fun construct_all ::
  "('w, 'x) curl_api_scheme \<Rightarrow> HTTPTransactionData list \<Rightarrow> curl_global \<times> 'w \<Rightarrow>
     HTTPTransaction outcome list \<times> curl_global \<times> 'w" where
  "construct_all cu [] s = ([], s)"
| "construct_all cu (td # tds) s =
     (case construct_HTTPTransaction cu td s of
        (r, s1) \<Rightarrow> (case construct_all cu tds s1 of (rs, s2) \<Rightarrow> (r # rs, s2)))"

definition made :: "'a outcome \<Rightarrow> bool" where
  "made r \<longleftrightarrow> (\<exists>x. r = Ret x)"

lemma construct_global:
  assumes "construct_HTTPTransaction cu td (g, w) = (r, (g', w'))"
  shows "g' = (if made r then GlobalCurlInit (easy_init g) else easy_init g)"
  using assms by (auto simp: construct_HTTPTransaction_def made_def split: prod.splits outcome.splits)

lemma construct_all_late:
  assumes "construct_all cu tds (g, w) = (rs, (g', w'))" and "gl_static g" and "gl_inits g = 1"
  shows "g' = g"
  using assms
proof (induction tds arbitrary: w rs)
  case (Cons td tds)
  obtain r g1 w1 where c: "construct_HTTPTransaction cu td (g, w) = (r, (g1, w1))" by (metis prod.exhaust)
  have "g1 = g" using construct_global [OF c] Cons.prems(2,3) by (simp add: GlobalCurlInit_def easy_init_def)
  then show ?case using Cons.IH [of w1] Cons.prems c by (auto split: prod.splits)
qed simp

lemma construct_all_early:
  assumes "construct_all cu tds (curl_unused\<lparr>gl_early := k\<rparr>, w) = (rs, (g, w'))"
  shows "gl_early g = k + length (takeWhile (\<lambda>r. \<not> made r) rs) + (if \<exists>r \<in> set rs. made r then 1 else 0) \<and>
    gl_inits g = (if \<exists>r \<in> set rs. made r then 1 else 0) \<and> gl_static g = (\<exists>r \<in> set rs. made r) \<and> gl_cleanups g = 0"
  using assms
proof (induction tds arbitrary: k w rs)
  case Nil
  then show ?case by (auto simp: curl_unused_def)
next
  case (Cons td tds)
  obtain r g1 w1 where c: "construct_HTTPTransaction cu td (curl_unused\<lparr>gl_early := k\<rparr>, w) = (r, (g1, w1))"
    by (metis prod.exhaust)
  obtain rs1 where rs1: "construct_all cu tds (g1, w1) = (rs1, (g, w'))" "rs = r # rs1"
    using Cons.prems c by (auto split: prod.splits)
  show ?case
  proof (cases "made r")
    case True
    then have "g1 = curl_unused\<lparr>gl_early := Suc k, gl_static := True, gl_inits := 1\<rparr>"
      using construct_global [OF c] by (simp add: GlobalCurlInit_def easy_init_def curl_unused_def)
    then show ?thesis using construct_all_late [OF rs1(1)] rs1(2) True by (simp add: curl_unused_def)
  next
    case False
    then have "g1 = curl_unused\<lparr>gl_early := Suc k\<rparr>"
      using construct_global [OF c] by (simp add: easy_init_def curl_unused_def)
    then show ?thesis using Cons.IH [of "Suc k" w1 rs1] rs1 False by simp
  qed
qed

text \<open>
  However many transactions are made: the first handle is always made before \<open>curl_global_init\<close>,
  as are all those of constructors that threw until one returned; \<open>curl_global_init\<close> is called
  once, and only if a constructor has returned; and at the end of the process
  \<open>curl_global_cleanup\<close> has been called as often as \<open>curl_global_init\<close>.
\<close>

theorem global_init_late:
  assumes "construct_all cu tds (curl_unused, w) = (rs, (g, w'))"
  shows "gl_early g = length (takeWhile (\<lambda>r. \<not> made r) rs) + (if \<exists>r \<in> set rs. made r then 1 else 0) \<and>
    gl_inits g = (if \<exists>r \<in> set rs. made r then 1 else 0) \<and>
    gl_cleanups (GlobalCurlInit_destroy g) = gl_inits g"
proof -
  have "curl_unused\<lparr>gl_early := 0\<rparr> = curl_unused" by (simp add: curl_unused_def)
  then show ?thesis
    using construct_all_early [of cu tds 0 w rs g w'] assms by (simp add: GlobalCurlInit_destroy_def)
qed

end
