(* ===== verification/Spec2Isabelle.thy ===== *)
theory Spec2Isabelle
  imports Filesystem_Properties Common_Functions Http_Properties Key_Manager Config_Properties
    Daemon_Properties Iex_Properties Service_Properties Db_Properties Update_Properties
    Supervisor_Properties Process_Properties Regex_Replace Table_Threads Config_Threads Rpc_Threads
    Db_Schema Startup Daemon_Threads Daemon_Invariant Worker_Run Stop_Protocol Sql_Types Db_Objects Answer_Content Curl_Global
begin

text \<open>
  A verification library for the IEX daemon (the C++ code under \<open>src/Daemon\<close>): a service that
  polls the IEX web API for stock prices, stores them in an SQLite database and answers
  requests over gRPC.

  The program. \<open>src/main.cpp\<close> forks a supervisor, which forks a worker and starts it again.
  The worker owns a \<open>Controller\<close>, which starts the gRPC server through \<open>RPCService\<close> and a
  thread that fetches prices. Both use the \<open>IEX_Client\<close>, which takes its settings from the
  configuration file (\<open>config::Daemon\<close> over \<open>Config\<close>) and its pages from \<open>HTTPTransaction\<close>
  over libcurl. The thread writes to the tables of \<open>db::DBManager\<close>.

  How it is modelled. Code that changes state is a function from a state to an outcome and a
  new state (\<open>Prelude\<close>): a returned value, an exception, or \<open>Hang\<close>, a call that never comes
  back. Effects before an exception are kept, and \<open>catchp\<close> is \<open>try\<close> with its handlers. Words
  are kept at their width where the code computes with them. What is not in the repository
  is a parameter: POSIX calls and MD5 (\<open>Posix\<close>, \<open>Filesystem\<close>), libcurl and OpenSSL
  (\<open>Http_Transaction\<close>, \<open>Http_Callbacks\<close>), property trees and \<open>lexical_cast\<close>
  (\<open>Property_Tree\<close>), SQLiteCpp (\<open>Sql_Api\<close>), gRPC (\<open>Rpc_Service\<close>). Each is a record of
  functions on an abstract world \<open>'w\<close>; what the code relies on is a named predicate
  (\<open>posix_dirs_ok\<close>, \<open>ptree_laws\<close>, \<open>lexical_laws\<close>, \<open>parser_errors\<close>, \<open>txn_laws\<close>, \<open>db_laws\<close>,
  \<open>net_frame\<close>, \<open>db_frame\<close>, \<open>setup_laws\<close>, \<open>start_frame\<close>, \<open>schema_laws\<close>, \<open>object_laws\<close>, \<open>sys_laws\<close>, \<open>trace_laws\<close>, \<open>finds_dots\<close>). Concrete instances that satisfy them (\<open>demo_posix\<close>, \<open>demo_curl\<close>,
  \<open>Demo_Tree\<close>, \<open>Demo_Db\<close>) serve the witnesses only.

  The theories, in the order of the calls.

  \<^item> \<open>Prelude\<close>, \<open>Cpp_String\<close>, \<open>Std_Map\<close>, \<open>Posix\<close>: the monad and the exceptions; \<open>std::string\<close>;
    \<open>std::map\<close> as the locale \<open>std_map\<close>, interpreted on sorted association lists; system calls.
  \<^item> \<open>Filesystem\<close>, \<open>Filesystem_Properties\<close>: \<open>common_utils/filesystem.cpp\<close>. \<open>CreateFolder\<close>
    is shown equal to the specification \<open>ensure_dirs\<close>; \<open>GetMD5\<close> is the text of the digest of
    the whole file.
  \<^item> \<open>Common_Functions\<close>, \<open>Regex_Replace\<close>: \<open>common_utils/common_functions.cpp\<close>. \<open>ReplaceString\<close> is
    \<open>std::regex_replace\<close> over the matches a matcher finds; \<open>Config::ReplaceDots\<close> is shown to
    work character by character.
  \<^item> \<open>Http_Types\<close>, \<open>Byte_Source\<close>, \<open>Http_Callbacks\<close>, \<open>Http_Transaction\<close>,
    \<open>Http_Properties\<close>: \<open>common_utils/http_types.h\<close> and \<open>http_transaction.cpp\<close>. The transfer is
    a list of callback events that libcurl delivers. The locale \<open>byte_source\<close> is the contract
    of the upload callback. Shown: what is sent and received, which exception each failure
    becomes, header parsing and its round trip, and the options of a connection. \<open>Curl_Global\<close>
    adds the static object behind \<open>curl_global_init\<close> and counts the handles made before it.
  \<^item> \<open>Key_Manager\<close>, \<open>Config\<close>, \<open>Config_Store\<close>, \<open>Config_Lemmas\<close>, \<open>Config_Properties\<close>:
    \<open>config/config.h\<close> and \<open>config.cpp\<close>. The mutex is a flag, and locking it twice is \<open>Hang\<close>.
    The locale \<open>config_store\<close> is the interface the daemon uses. Shown: round trips, the mutex
    is released, one object per path, and the deadlock of the fallbacks.
  \<^item> \<open>Config_Daemon\<close>, \<open>Daemon_Properties\<close>: \<open>config/config_daemon.cpp\<close>. \<open>Init\<close> is a loop of
    \<open>write_back\<close>s of \<open>config_store\<close>.
  \<^item> \<open>Iex_Client\<close>, \<open>Iex_Properties\<close>: \<open>common_data/company_info.h\<close> and
    \<open>rpc/iex/iex_client.cpp\<close>. The locale \<open>http_get\<close> is what the client needs of a fetch,
    interpreted on \<open>PerformGet\<close>.
  \<^item> \<open>Company_Service\<close>, \<open>Rpc_Service\<close>, \<open>Controller\<close>, \<open>Service_Properties\<close>:
    \<open>rpc/grpc/peakwork_server.cpp\<close>, \<open>rpc/rpc.cpp\<close> and \<open>src/controller.cpp\<close>. The locale
    \<open>company_service\<close> is the interface \<open>IPeakworkService\<close>, interpreted on the controller.
    The states of the service are an inductive reachability relation with an invariant.
    \<open>Answer_Content\<close> shows what the JSON answer holds, from the pages of the IEX service to the
    members of the object.
  \<^item> \<open>Sql_Api\<close>, \<open>Itable\<close>, \<open>Db_Tables\<close>, \<open>Db_Manager\<close>, \<open>Db_Store\<close>, \<open>Db_Properties\<close>: the
    directory \<open>db\<close>. Commands are modelled by their exact text. The locale \<open>company_store\<close> is
    the part of the tables the update thread uses. \<open>Sql_Types\<close> reads parameters, columns and types
    off the texts of the commands and shows that every statement is well typed. \<open>Db_Objects\<close> has
    the manager and the tables as objects that share the connection, refines \<open>Db_Manager\<close>, and
    shows when the connection is closed.
  \<^item> \<open>Update_Properties\<close>: the update thread over client and tables, with the invariant of the
    database.
  \<^item> \<open>Supervisor\<close>, \<open>Supervisor_Properties\<close>: \<open>src/main.cpp\<close>, the supervisor as a step
    function with reachable states, and the worker with its signals and its exit.
  \<^item> \<open>Main_Process\<close>, \<open>Process_Properties\<close>: what \<open>main.cpp\<close> does with the system around those:
    the log with the mask of \<open>main\<close>, the pid file, the limit of files, and the report of the
    fault handler. Shown: the life of the pid file, that the report stays in its arrays,
    and that every crash that ends the worker leads to a new one.
  \<^item> \<open>Db_Schema\<close>, \<open>Startup\<close>: the constructors of \<open>DBManager\<close> and \<open>Controller\<close>, with the
    function-local statics the \<open>GetInstance\<close> functions hold. The database is seen as its set
    of tables and its versions. Shown: a constructed controller finds all it needs.

  Threads. \<open>Mutex_Code\<close> has code as a tree of steps: an action on the shared state, or locking
  or unlocking the one mutex; \<open>guarded\<close> is a \<open>lock_guard\<close>. \<open>Mutex_Threads\<close> interleaves any
  number of threads, a scheduler choosing the next one, with a plain or a recursive mutex, and
  shows that every run can be reordered into whole critical sections, that no run gets stuck
  and that every run ends. \<open>Mutex_Ops\<close> lifts this to threads that run lists of operations: the
  locale \<open>mutex_ops\<close> asks that each operation holds the mutex throughout and, alone, does what
  its sequential model does. It is interpreted three times, on the code of the table operations
  with the recursive mutex of \<open>ITable\<close> (\<open>Table_Code\<close>, \<open>Table_Threads\<close>), on that of the
  configuration with its plain mutex (\<open>Config_Threads\<close>), and on \<open>Start\<close> and \<open>Stop\<close> of the RPC
  service (\<open>Rpc_Threads\<close>). So the sequential models of the other theories, in which such an
  operation is one step, describe the program with threads as well.

  Several mutexes. \<open>Lock_Order\<close> has code whose steps name the mutex they lock, and threads that
  join each other; threads that take their mutexes in the order of a rank are never stuck, and
  every run ends. \<open>Lock_Embed\<close> builds such code from code on one mutex and a part of the state (the
  locale \<open>state_part\<close>, interpreted on the configuration, the service and the world) and has the
  rules by which a composition keeps the order. \<open>Daemon_Code\<close> is the process in this form: the
  handler of a request, the update thread with its wait, the start and the stop of the service,
  the tables, the settings, and \<open>Controller::Stop\<close>, over the mutexes of \<open>RPCService\<close>,
  \<open>Controller\<close>, \<open>Config\<close> and \<open>ITable\<close>. \<open>Daemon_Alone\<close> shows that one thread alone does what the
  sequential model does, \<open>Daemon_Threads\<close> that no run of all of them gets stuck. \<open>Lock_Safe\<close> is about
  a part of the state that one thread writes and the others leave alone: what is shown of the
  writer alone holds under every schedule. \<open>Daemon_Invariant\<close> uses it for the database, which only
  the update thread writes: in every run prices refer to companies whenever that thread does not
  hold the mutex of the tables.
  \<open>Lock_Ends\<close> is about the results threads can end with. \<open>Database_Setup\<close> says what the start does to
  the rows that are in the database, and \<open>Worker_Run\<close> puts the parts together: the constructor of
  \<open>Controller\<close> runs alone (\<open>Startup\<close>), and on the state it leaves the main thread, the update thread
  and threads with requests run under any schedule, never stuck, with the database in order and
  each request answered.
  \<open>Stop_Protocol\<close> is the flag, the mutex and the condition variable of \<open>Controller\<close> in the finest
  steps, a step relation with an invariant, and shows that a stop always comes to its end.

  Bounds. No loop of the model uses fuel: \<open>create_folder_loop\<close>, \<open>md5_loop\<close>,
  \<open>parse_headers_loop\<close>, \<open>read_output\<close> and \<open>log_frames\<close> have termination proofs, and the two assignments
  that never return are \<open>partial_function\<close>s whose value is shown to be \<open>None\<close>. The update
  thread is followed for as many rounds as the list of values of the stop flag is long, which
  is any number, or for a number of rounds that is a parameter; every property of it is for
  all such lists and numbers.

  Not modelled: the messages of the vendored logging library \<open>plog\<close> and its rolling files;
  the copy assignment of \<open>KeyManager\<close>, which does not compile when it is used; the debug build
  of \<open>main\<close>, which calls \<open>WorkProc\<close> without a supervisor; the class \<open>NonCopyable\<close>, whose only
  effect is at compile time; and the tests. In the models of threads a call of a library is one
  step, in \<open>Daemon_Code\<close> a whole transfer is; a thread that ends with an exception just ends
  there. In the program an exception of the update thread ends the process, as \<open>Worker_Run\<close> has
  it; there the update thread may run before \<open>Start\<close> is done, which the program does not do.
  The clock, the random numbers and the matcher of regular expressions are parameters.
\<close>

end
